(* ===== verification/Prelude.thy ===== *)
theory Prelude
  imports Main "HOL-Library.Word"
begin

text \<open>
  Shared vocabulary of the development: the machine integer types of the Rust sources, the
  collections of proof rules the component theories fill, and generic facts on lists, maps and
  words that several components use. A Rust \<open>String\<close> or \<open>&str\<close> is its UTF-8 byte sequence, an
  Isabelle \<open>string\<close>; a \<open>Vec<u8>\<close> or byte array is a \<open>bytes\<close>.
\<close>

section \<open>Types\<close>

unbundle bit_operations_syntax

type_synonym byte = "8 word"
type_synonym bytes = "8 word list"
type_synonym u16 = "16 word"
type_synonym u32 = "32 word"
type_synonym u64 = "64 word"

section \<open>Collections of rules\<close>

named_theorems wp_simps \<open>weakest preconditions of the program combinators and primitives\<close>
named_theorems keeps_intros \<open>rules that a program keeps an invariant of the state\<close>
named_theorems run_simps \<open>evaluation of program primitives on a state\<close>

section \<open>Bytes and characters\<close>

definition byte_of_char :: "char \<Rightarrow> byte" where
  "byte_of_char c = of_nat (of_char c)"

definition char_of_byte :: "byte \<Rightarrow> char" where
  "char_of_byte b = char_of (unat b)"

text \<open>\<open>str::as_bytes\<close>.\<close>

definition as_bytes :: "string \<Rightarrow> bytes" where
  "as_bytes s = map byte_of_char s"

lemma of_char_less_256 [simp]: "(of_char c :: nat) < 256"
proof -
  have "of_char c \<in> range (of_char :: char \<Rightarrow> nat)" by simp
  then show ?thesis by (simp add: range_nat_of_char)
qed

lemma unat_byte_of_char [simp]: "unat (byte_of_char c) = of_char c"
  by (simp add: byte_of_char_def unat_of_nat)

lemma char_of_byte_of_char [simp]: "char_of_byte (byte_of_char c) = c"
  by (simp add: char_of_byte_def)

lemma length_as_bytes [simp]: "length (as_bytes s) = length s"
  by (simp add: as_bytes_def)

lemma as_bytes_append [simp]: "as_bytes (s @ t) = as_bytes s @ as_bytes t"
  by (simp add: as_bytes_def)

lemma as_bytes_Cons: "as_bytes (c # s) = byte_of_char c # as_bytes s"
  by (simp add: as_bytes_def)

lemma as_bytes_Nil [simp]: "as_bytes [] = []"
  by (simp add: as_bytes_def)

lemma unat_less_pow: "unat (w :: 'a::len word) < 2 ^ LENGTH('a)"
  by (rule unsigned_less)

lemma unat_byte_less [simp]: "unat (b :: byte) < 256"
  using unat_less_pow [of b] by simp

section \<open>Encoders and decoders\<close>

text \<open>
  The contract of a printer and its parser: what was printed parses back to the value. The
  hexadecimal and the decimal text of the program are instances.
\<close>

locale codec =
  fixes encode :: "'a \<Rightarrow> 'b"
    and decode :: "'b \<Rightarrow> 'a option"
  assumes decode_encode: "decode (encode x) = Some x"
begin

lemma encode_eq_iff: "encode x = encode y \<longleftrightarrow> x = y"
proof
  assume "encode x = encode y"
  then have "decode (encode x) = decode (encode y)" by simp
  then show "x = y" by (simp add: decode_encode)
qed simp

lemma inj_encode: "inj encode"
  by (simp add: inj_on_def encode_eq_iff)

lemma decode_surj: "\<exists>t. decode t = Some x"
  using decode_encode by blast

lemma traverse_decode_encode: "those (map (\<lambda>x. decode (encode x)) xs) = Some xs"
  by (induction xs) (simp_all add: decode_encode)

end

section \<open>Lists\<close>

lemma takeWhile_append_neq: "c \<notin> set xs \<Longrightarrow> takeWhile (\<lambda>x. x \<noteq> c) (xs @ c # ys) = xs"
  by (induction xs) auto

lemma dropWhile_append_neq: "c \<notin> set xs \<Longrightarrow> dropWhile (\<lambda>x. x \<noteq> c) (xs @ c # ys) = c # ys"
  by (induction xs) auto

lemma list_all_takeWhile: "list_all P (takeWhile P xs)"
  by (induction xs) auto

lemma those_map_Some [simp]: "those (map Some xs) = Some xs"
  by (induction xs) auto

end
