(* ===== verification/Prog.thy ===== *)
theory Prog
  imports Prelude
begin

text \<open>
  Programs with state and panics. A Rust function with effects is a function from the state to an
  outcome and the state after it: the value it returned, or the panic that ended the process (the
  crate is built with \<open>panic = "abort"\<close>, so no caller sees a panic) together with the state at that
  point. Early returns are values. \<open>wp\<close> gives the weakest precondition of a program, \<open>keeps\<close> says a
  program keeps an invariant of the state also when it panics.
\<close>

section \<open>Programs\<close>

datatype panic = UnwrapNone | UnwrapErr | AssertFailed | Overflow | Explicit string

datatype 'a outcome = Val 'a | Panic panic

type_synonym ('s, 'a) prog = "'s \<Rightarrow> 'a outcome \<times> 's"

definition ret :: "'a \<Rightarrow> ('s, 'a) prog" where
  "ret x = (\<lambda>s. (Val x, s))"

definition panic :: "panic \<Rightarrow> ('s, 'a) prog" where
  "panic p = (\<lambda>s. (Panic p, s))"

definition bindP :: "('s, 'a) prog \<Rightarrow> ('a \<Rightarrow> ('s, 'b) prog) \<Rightarrow> ('s, 'b) prog" where
  "bindP m f = (\<lambda>s. case m s of (Val x, s') \<Rightarrow> f x s' | (Panic p, s') \<Rightarrow> (Panic p, s'))"

definition thenP :: "('s, 'a) prog \<Rightarrow> ('s, 'b) prog \<Rightarrow> ('s, 'b) prog" where
  "thenP m n = bindP m (\<lambda>_. n)"

definition gets :: "('s \<Rightarrow> 'a) \<Rightarrow> ('s, 'a) prog" where
  "gets f = (\<lambda>s. (Val (f s), s))"

definition modify :: "('s \<Rightarrow> 's) \<Rightarrow> ('s, unit) prog" where
  "modify f = (\<lambda>s. (Val (), f s))"

text \<open>\<open>Option::unwrap\<close> and \<open>Result::unwrap\<close>.\<close>

definition unwrap :: "'a option \<Rightarrow> ('s, 'a) prog" where
  "unwrap x = (case x of Some v \<Rightarrow> ret v | None \<Rightarrow> panic UnwrapNone)"

definition unwrap_res :: "'e + 'a \<Rightarrow> ('s, 'a) prog" where
  "unwrap_res x = (case x of Inr v \<Rightarrow> ret v | Inl _ \<Rightarrow> panic UnwrapErr)"

definition assertP :: "bool \<Rightarrow> ('s, unit) prog" where
  "assertP b = (if b then ret () else panic AssertFailed)"

text \<open>A \<open>for\<close> loop over a sequence.\<close>

fun forP :: "'a list \<Rightarrow> ('a \<Rightarrow> ('s, unit) prog) \<Rightarrow> ('s, unit) prog" where
  "forP [] f = ret ()"
| "forP (x # xs) f = thenP (f x) (forP xs f)"

section \<open>Running\<close>

lemma run_ret [run_simps]: "ret x s = (Val x, s)"
  by (simp add: ret_def)

lemma run_panic [run_simps]: "panic p s = (Panic p, s)"
  by (simp add: panic_def)

lemma run_gets [run_simps]: "gets f s = (Val (f s), s)"
  by (simp add: gets_def)

lemma run_modify [run_simps]: "modify f s = (Val (), f s)"
  by (simp add: modify_def)

lemma run_bind_Val [run_simps]: "m s = (Val x, s') \<Longrightarrow> bindP m f s = f x s'"
  by (simp add: bindP_def)

lemma run_bind_Panic [run_simps]: "m s = (Panic p, s') \<Longrightarrow> bindP m f s = (Panic p, s')"
  by (simp add: bindP_def)

lemma run_then_Val [run_simps]: "m s = (Val x, s') \<Longrightarrow> thenP m n s = n s'"
  by (simp add: thenP_def bindP_def)

lemma run_then_Panic [run_simps]: "m s = (Panic p, s') \<Longrightarrow> thenP m n s = (Panic p, s')"
  by (simp add: thenP_def bindP_def)

lemma unwrap_simps [simp]:
  "unwrap (Some v) = ret v" "unwrap None = panic UnwrapNone"
  by (simp_all add: unwrap_def)

lemma unwrap_res_simps [simp]:
  "unwrap_res (Inr v) = ret v" "unwrap_res (Inl e) = panic UnwrapErr"
  by (simp_all add: unwrap_res_def)

lemma bindP_assoc: "bindP (bindP m f) g = bindP m (\<lambda>x. bindP (f x) g)"
  by (rule ext) (simp add: bindP_def split: prod.splits outcome.splits)

lemma bindP_ret [simp]: "bindP (ret x) f = f x" "bindP m ret = m" "thenP (ret x) n = n"
  by (auto simp: bindP_def thenP_def ret_def fun_eq_iff split: prod.splits outcome.splits)

lemma bindP_panic [simp]: "bindP (panic p) f = panic p" "thenP (panic p) n = panic p"
  by (auto simp: bindP_def thenP_def panic_def fun_eq_iff)

lemma bindP_cases [consumes 1, case_names Panic Val]:
  assumes "bindP m f s = (r, t)"
  obtains p where "m s = (Panic p, t)" "r = Panic p"
  | x s' where "m s = (Val x, s')" "f x s' = (r, t)"
  using assms by (auto simp: bindP_def split: prod.splits outcome.splits)

section \<open>Weakest preconditions\<close>

text \<open>\<open>wp m Q E s\<close>: from \<open>s\<close>, \<open>m\<close> returns with \<open>Q\<close> or panics with \<open>E\<close>, both with the state they end in.\<close>

definition wp ::
  "('s, 'a) prog \<Rightarrow> ('a \<Rightarrow> 's \<Rightarrow> bool) \<Rightarrow> (panic \<Rightarrow> 's \<Rightarrow> bool) \<Rightarrow> 's \<Rightarrow> bool" where
  "wp m Q E s = (case m s of (Val x, s') \<Rightarrow> Q x s' | (Panic p, s') \<Rightarrow> E p s')"

lemma wp_ret [wp_simps]: "wp (ret x) Q E = Q x"
  by (rule ext) (simp add: wp_def ret_def)

lemma wp_panic [wp_simps]: "wp (panic p) Q E s = E p s"
  by (simp add: wp_def panic_def)

lemma wp_bind [wp_simps]: "wp (bindP m f) Q E = wp m (\<lambda>x. wp (f x) Q E) E"
  by (rule ext) (simp add: wp_def bindP_def split: prod.splits outcome.splits)

lemma wp_then [wp_simps]: "wp (thenP m n) Q E = wp m (\<lambda>_. wp n Q E) E"
  by (simp add: thenP_def wp_bind)

lemma wp_gets [wp_simps]: "wp (gets f) Q E s = Q (f s) s"
  by (simp add: wp_def gets_def)

lemma wp_modify [wp_simps]: "wp (modify f) Q E s = Q () (f s)"
  by (simp add: wp_def modify_def)

lemma wp_unwrap [wp_simps]:
  "wp (unwrap x) Q E s = (case x of Some v \<Rightarrow> Q v s | None \<Rightarrow> E UnwrapNone s)"
  by (simp add: unwrap_def wp_ret wp_panic split: option.splits)

lemma wp_unwrap_res [wp_simps]:
  "wp (unwrap_res x) Q E s = (case x of Inr v \<Rightarrow> Q v s | Inl _ \<Rightarrow> E UnwrapErr s)"
  by (simp add: unwrap_res_def wp_ret wp_panic split: sum.splits)

lemma wp_assert [wp_simps]: "wp (assertP b) Q E s = (if b then Q () s else E AssertFailed s)"
  by (simp add: assertP_def wp_ret wp_panic)

lemma wp_if [wp_simps]: "wp (if b then m else n) Q E s = (if b then wp m Q E s else wp n Q E s)"
  by simp

lemma wp_case_option [wp_simps]:
  "wp (case x of None \<Rightarrow> m | Some v \<Rightarrow> f v) Q E s =
     (case x of None \<Rightarrow> wp m Q E s | Some v \<Rightarrow> wp (f v) Q E s)"
  by (cases x) simp_all

lemma wp_case_sum [wp_simps]:
  "wp (case x of Inl e \<Rightarrow> g e | Inr v \<Rightarrow> f v) Q E s =
     (case x of Inl e \<Rightarrow> wp (g e) Q E s | Inr v \<Rightarrow> wp (f v) Q E s)"
  by (cases x) simp_all

lemma wp_case_prod [wp_simps]:
  "wp (case x of (a, b) \<Rightarrow> f a b) Q E s = (case x of (a, b) \<Rightarrow> wp (f a b) Q E s)"
  by (cases x) simp

lemma wp_mono:
  "wp m Q E s \<Longrightarrow> (\<And>x t. Q x t \<Longrightarrow> Q' x t) \<Longrightarrow> (\<And>p t. E p t \<Longrightarrow> E' p t) \<Longrightarrow> wp m Q' E' s"
  by (auto simp: wp_def split: prod.splits outcome.splits)

text \<open>Sequencing with an intermediate condition.\<close>

lemma wp_seq:
  "wp m Q' E s \<Longrightarrow> (\<And>x t. Q' x t \<Longrightarrow> wp (f x) Q E t) \<Longrightarrow> wp (bindP m f) Q E s"
  unfolding wp_bind by (erule wp_mono) simp_all

lemma wp_seq_then:
  "wp m Q' E s \<Longrightarrow> (\<And>x t. Q' x t \<Longrightarrow> wp n Q E t) \<Longrightarrow> wp (thenP m n) Q E s"
  unfolding thenP_def by (rule wp_seq)

text \<open>A loop with an invariant, and a loop with an invariant that speaks of the elements left.\<close>

lemma wp_forP:
  assumes "I s" and "\<And>x s. x \<in> set xs \<Longrightarrow> I s \<Longrightarrow> wp (f x) (\<lambda>_. I) E s"
  shows "wp (forP xs f) (\<lambda>_. I) E s"
  using assms
proof (induction xs arbitrary: s)
  case (Cons x xs)
  have "wp (f x) (\<lambda>_. wp (forP xs f) (\<lambda>_. I) E) E s"
    by (rule wp_mono [OF Cons.prems(2)]) (use Cons in auto)
  then show ?case by (simp add: wp_then)
qed (simp add: wp_ret)

lemma wp_forP_rest:
  assumes "I xs s" and "\<And>x xs s. I (x # xs) s \<Longrightarrow> wp (f x) (\<lambda>_. I xs) E s"
  shows "wp (forP xs f) (\<lambda>_. I []) E s"
  using assms(1)
proof (induction xs arbitrary: s)
  case (Cons x xs)
  then show ?case by (auto intro!: wp_seq_then [OF assms(2)])
qed (simp add: wp_ret)

section \<open>Invariants\<close>

text \<open>
  \<open>keeps I E m\<close>: from a state with \<open>I\<close>, \<open>m\<close> ends in one with \<open>I\<close>, or panics in one with \<open>E\<close>. With
  \<open>E = I\<close> the invariant holds also at the point the process dies; with \<open>E\<close> always true it is about
  runs that return.
\<close>

definition keeps :: "('s \<Rightarrow> bool) \<Rightarrow> ('s \<Rightarrow> bool) \<Rightarrow> ('s, 'a) prog \<Rightarrow> bool" where
  "keeps I E m \<longleftrightarrow> (\<forall>s. I s \<longrightarrow> wp m (\<lambda>_. I) (\<lambda>_. E) s)"

lemma keepsI: "(\<And>s. I s \<Longrightarrow> wp m (\<lambda>_. I) (\<lambda>_. E) s) \<Longrightarrow> keeps I E m"
  by (simp add: keeps_def)

lemma keeps_wp: "keeps I E m \<Longrightarrow> I s \<Longrightarrow> wp m (\<lambda>_. I) (\<lambda>_. E) s"
  by (simp add: keeps_def)

lemma keeps_Val: "keeps I E m \<Longrightarrow> I s \<Longrightarrow> m s = (Val x, t) \<Longrightarrow> I t"
  by (drule (1) keeps_wp) (simp add: wp_def)

lemma keeps_Panic: "keeps I E m \<Longrightarrow> I s \<Longrightarrow> m s = (Panic p, t) \<Longrightarrow> E t"
  by (drule (1) keeps_wp) (simp add: wp_def)

lemma keeps_both: "keeps I I m \<Longrightarrow> I s \<Longrightarrow> I (snd (m s))"
  by (drule (1) keeps_wp) (simp add: wp_def split: prod.splits outcome.splits)

lemma keeps_ret [keeps_intros]: "keeps I E (ret x)"
  by (simp add: keeps_def wp_ret)

lemma keeps_panic [keeps_intros]: "(\<And>s. I s \<Longrightarrow> E s) \<Longrightarrow> keeps I E (panic p)"
  by (simp add: keeps_def wp_panic)

lemma keeps_gets [keeps_intros]: "keeps I E (gets f)"
  by (simp add: keeps_def wp_gets)

lemma keeps_bind [keeps_intros]:
  assumes m: "keeps I E m" and f: "\<And>x. keeps I E (f x)"
  shows "keeps I E (bindP m f)"
proof (rule keepsI)
  fix s assume "I s"
  with m have "wp m (\<lambda>_. I) (\<lambda>_. E) s" by (rule keeps_wp)
  then show "wp (bindP m f) (\<lambda>_. I) (\<lambda>_. E) s"
    unfolding wp_bind by (rule wp_mono) (auto intro: keeps_wp [OF f])
qed

lemma keeps_then [keeps_intros]: "keeps I E m \<Longrightarrow> keeps I E n \<Longrightarrow> keeps I E (thenP m n)"
  by (simp add: thenP_def keeps_bind)

lemma keeps_unwrap [keeps_intros]: "(\<And>s. I s \<Longrightarrow> E s) \<Longrightarrow> keeps I E (unwrap x)"
  by (cases x) (simp_all add: keeps_ret keeps_panic)

lemma keeps_unwrap_res [keeps_intros]: "(\<And>s. I s \<Longrightarrow> E s) \<Longrightarrow> keeps I E (unwrap_res x)"
  by (cases x) (simp_all add: keeps_ret keeps_panic)

lemma keeps_assert [keeps_intros]: "(\<And>s. I s \<Longrightarrow> E s) \<Longrightarrow> keeps I E (assertP b)"
  by (simp add: assertP_def keeps_ret keeps_panic)

lemma keeps_if [keeps_intros]: "keeps I E m \<Longrightarrow> keeps I E n \<Longrightarrow> keeps I E (if b then m else n)"
  by simp

lemma keeps_case_option [keeps_intros]:
  "keeps I E m \<Longrightarrow> (\<And>v. keeps I E (f v)) \<Longrightarrow> keeps I E (case x of None \<Rightarrow> m | Some v \<Rightarrow> f v)"
  by (cases x) simp_all

lemma keeps_case_sum [keeps_intros]:
  "(\<And>e. keeps I E (g e)) \<Longrightarrow> (\<And>v. keeps I E (f v)) \<Longrightarrow>
   keeps I E (case x of Inl e \<Rightarrow> g e | Inr v \<Rightarrow> f v)"
  by (cases x) simp_all

lemma keeps_case_prod [keeps_intros]:
  "(\<And>a b. keeps I E (f a b)) \<Longrightarrow> keeps I E (case x of (a, b) \<Rightarrow> f a b)"
  by (cases x) simp

lemma keeps_case_list [keeps_intros]:
  "keeps I E m \<Longrightarrow> (\<And>v vs. keeps I E (f v vs)) \<Longrightarrow>
   keeps I E (case x of [] \<Rightarrow> m | v # vs \<Rightarrow> f v vs)"
  by (cases x) simp_all

lemma keeps_Let [keeps_intros]: "(\<And>v. keeps I E (f v)) \<Longrightarrow> keeps I E (let v = x in f v)"
  by simp

lemma keeps_forP [keeps_intros]: "(\<And>x. keeps I E (f x)) \<Longrightarrow> keeps I E (forP xs f)"
  by (induction xs) (simp_all add: keeps_ret keeps_then)

lemma keeps_modify: "(\<And>s. I s \<Longrightarrow> I (f s)) \<Longrightarrow> keeps I E (modify f)"
  by (simp add: keeps_def wp_modify)

section \<open>Reachable states\<close>

text \<open>
  A system that starts in one of the states \<open>init\<close> and moves by \<open>step\<close>, with a predicate that
  holds at the start and that every step keeps: it holds in every state a run reaches.
\<close>

locale invariant_system =
  fixes init :: "'s \<Rightarrow> bool"
    and step :: "'s \<Rightarrow> 's \<Rightarrow> bool"
    and inv :: "'s \<Rightarrow> bool"
  assumes inv_init: "init s \<Longrightarrow> inv s"
    and inv_step: "inv s \<Longrightarrow> step s t \<Longrightarrow> inv t"
begin

lemma inv_steps: "step\<^sup>*\<^sup>* s t \<Longrightarrow> inv s \<Longrightarrow> inv t"
  by (induction rule: rtranclp_induct) (auto intro: inv_step)

lemma inv_reachable: "init s \<Longrightarrow> step\<^sup>*\<^sup>* s t \<Longrightarrow> inv t"
  by (auto intro: inv_steps inv_init)

end

end
