(* ===== verification/Rust_Std.thy ===== *)
theory Rust_Std
  imports Prelude
begin

text \<open>
  The parts of the Rust language and standard library the program uses on text and integers:
  splitting (\<open>split\<close>, \<open>splitn\<close>, \<open>rsplitn\<close>, \<open>lines\<close>, \<open>split_whitespace\<close>, \<open>trim\<close>), parsing and
  printing unsigned integers, and \<open>Path::join\<close> on Unix. Strings are UTF-8 byte sequences, so the
  Unicode white space \<open>split_whitespace\<close> and \<open>trim\<close> look for is written as its encodings.
\<close>

section \<open>Splitting at a character\<close>

text \<open>\<open>s.splitn(n, c)\<close>: at most \<open>n\<close> parts, the last one the unsplit rest.\<close>

fun splitn :: "nat \<Rightarrow> char \<Rightarrow> string \<Rightarrow> string list" where
  "splitn 0 c s = []"
| "splitn (Suc 0) c s = [s]"
| "splitn (Suc (Suc n)) c s =
     (if c \<in> set s
      then takeWhile (\<lambda>x. x \<noteq> c) s # splitn (Suc n) c (tl (dropWhile (\<lambda>x. x \<noteq> c) s))
      else [s])"

text \<open>\<open>s.rsplitn(n, c)\<close>: the same from the end, the last part first.\<close>

definition rsplitn :: "nat \<Rightarrow> char \<Rightarrow> string \<Rightarrow> string list" where
  "rsplitn n c s = map rev (splitn n c (rev s))"

text \<open>\<open>s.split(c)\<close>: one part more than there are separators.\<close>

fun split_on :: "char \<Rightarrow> string \<Rightarrow> string list" where
  "split_on c [] = [[]]"
| "split_on c (x # xs) =
     (if x = c then [] # split_on c xs
      else (case split_on c xs of [] \<Rightarrow> [[x]] | p # ps \<Rightarrow> (x # p) # ps))"

lemma split_on_ne [simp]: "split_on c s \<noteq> []"
  by (induction s) (auto split: list.splits)

lemma split_on_none: "c \<notin> set s \<Longrightarrow> split_on c s = [s]"
  by (induction s) auto

lemma split_on_append: "c \<notin> set s \<Longrightarrow> split_on c (s @ c # t) = s # split_on c t"
  by (induction s) auto

lemma length_split_on: "length (split_on c s) = Suc (count_list s c)"
  by (induction s) (auto split: list.splits)

lemma split_on_parts_no_sep: "p \<in> set (split_on c s) \<Longrightarrow> c \<notin> set p"
  by (induction s arbitrary: p) (auto split: if_splits list.splits)

lemma splitn_2_none: "c \<notin> set s \<Longrightarrow> splitn 2 c s = [s]"
  by (simp add: numeral_2_eq_2)

lemma splitn_2_append: "c \<notin> set s \<Longrightarrow> splitn 2 c (s @ c # t) = [s, t]"
  by (auto simp: numeral_2_eq_2 takeWhile_append_neq dropWhile_append_neq)

lemma splitn_2_cases: "splitn 2 c s = [s] \<and> c \<notin> set s \<or>
    (\<exists>a b. s = a @ c # b \<and> c \<notin> set a \<and> splitn 2 c s = [a, b])"
proof (cases "c \<in> set s")
  case True
  then obtain a b where "s = a @ c # b" and "c \<notin> set a"
    by (meson split_list_first)
  then show ?thesis by (auto simp: splitn_2_append)
qed (simp add: splitn_2_none)

lemma rsplitn_2_none: "c \<notin> set s \<Longrightarrow> rsplitn 2 c s = [s]"
  by (simp add: rsplitn_def splitn_2_none)

lemma rsplitn_2_append: "c \<notin> set t \<Longrightarrow> rsplitn 2 c (s @ c # t) = [t, s]"
  by (simp add: rsplitn_def splitn_2_append)

lemma rsplitn_2_cases: "rsplitn 2 c s = [s] \<and> c \<notin> set s \<or>
    (\<exists>a b. s = a @ c # b \<and> c \<notin> set b \<and> rsplitn 2 c s = [b, a])"
proof (cases "c \<in> set s")
  case True
  then obtain a b where "s = a @ c # b" and "c \<notin> set b"
    by (meson split_list_last)
  then show ?thesis by (auto simp: rsplitn_2_append)
qed (simp add: rsplitn_2_none)

section \<open>Lines\<close>

text \<open>
  \<open>s.lines()\<close>: a line ends at a line feed, which a carriage return may precede; a final line
  without a line feed keeps its carriage return; a trailing line feed adds no empty line.
\<close>

definition strip_cr :: "string \<Rightarrow> string" where
  "strip_cr s = (if s \<noteq> [] \<and> last s = CHR 0x0D then butlast s else s)"

fun strip_crs :: "string list \<Rightarrow> string list" where
  "strip_crs [] = []"
| "strip_crs [l] = (if l = [] then [] else [l])"
| "strip_crs (l # m # ls) = strip_cr l # strip_crs (m # ls)"

definition lines :: "string \<Rightarrow> string list" where
  "lines s = strip_crs (split_on (CHR 0x0A) s)"

section \<open>White space\<close>

text \<open>
  The number of bytes of the white space character a string starts with, \<open>0\<close> when it starts with
  another character: the characters of Unicode property \<open>White_Space\<close>, by length of their UTF-8
  encoding.
\<close>

definition ws1 :: "nat \<Rightarrow> bool" where
  "ws1 a \<longleftrightarrow> (9 \<le> a \<and> a \<le> 13) \<or> a = 32"

definition ws2 :: "nat \<Rightarrow> nat \<Rightarrow> bool" where
  "ws2 a b \<longleftrightarrow> a = 0xC2 \<and> (b = 0x85 \<or> b = 0xA0)"

definition ws3 :: "nat \<Rightarrow> nat \<Rightarrow> nat \<Rightarrow> bool" where
  "ws3 a b c \<longleftrightarrow>
     a = 0xE1 \<and> b = 0x9A \<and> c = 0x80
   \<or> a = 0xE2 \<and> b = 0x80 \<and> (0x80 \<le> c \<and> c \<le> 0x8A \<or> c = 0xA8 \<or> c = 0xA9 \<or> c = 0xAF)
   \<or> a = 0xE2 \<and> b = 0x81 \<and> c = 0x9F
   \<or> a = 0xE3 \<and> b = 0x80 \<and> c = 0x80"

fun ws_len :: "string \<Rightarrow> nat" where
  "ws_len [] = 0"
| "ws_len (x # s) =
     (if ws1 (of_char x) then 1
      else (case s of [] \<Rightarrow> 0
        | y # t \<Rightarrow>
          if ws2 (of_char x) (of_char y) then 2
          else (case t of [] \<Rightarrow> 0
            | z # _ \<Rightarrow> if ws3 (of_char x) (of_char y) (of_char z) then 3 else 0)))"

text \<open>
  \<open>s.split_whitespace()\<close>: the non-empty parts between white space. \<open>skip\<close> counts the bytes left of
  a white space character of several bytes, \<open>w\<close> is the current word.
\<close>

fun words_acc :: "nat \<Rightarrow> string \<Rightarrow> string \<Rightarrow> string list" where
  "words_acc k w [] = (if w = [] then [] else [w])"
| "words_acc (Suc k) w (c # s) = words_acc k w s"
| "words_acc 0 w (c # s) =
     (if ws_len (c # s) = 0 then words_acc 0 (w @ [c]) s
      else (if w = [] then [] else [w]) @ words_acc (ws_len (c # s) - 1) [] s)"

definition split_whitespace :: "string \<Rightarrow> string list" where
  "split_whitespace s = words_acc 0 [] s"

fun trim_start_from :: "nat \<Rightarrow> string \<Rightarrow> string" where
  "trim_start_from k [] = []"
| "trim_start_from (Suc k) (c # s) = trim_start_from k s"
| "trim_start_from 0 (c # s) =
     (if ws_len (c # s) = 0 then c # s else trim_start_from (ws_len (c # s) - 1) s)"

text \<open>\<open>s.trim()\<close>: a suffix is dropped when it is white space throughout.\<close>

fun trim_end :: "string \<Rightarrow> string" where
  "trim_end [] = []"
| "trim_end (c # s) = (if trim_start_from 0 (c # s) = [] then [] else c # trim_end s)"

definition trim :: "string \<Rightarrow> string" where
  "trim s = trim_end (trim_start_from 0 s)"

text \<open>\<open>s.starts_with(p)\<close>.\<close>

definition starts_with :: "string \<Rightarrow> string \<Rightarrow> bool" where
  "starts_with s p \<longleftrightarrow> take (length p) s = p"

declare ws_len.simps [simp del]

lemmas ws_eval = ws_len.simps ws1_def ws2_def ws3_def

text \<open>A character of a word: an ASCII character that is not white space.\<close>

definition word_char :: "char \<Rightarrow> bool" where
  "word_char c \<longleftrightarrow> (of_char c :: nat) < 128 \<and> \<not> ws1 (of_char c)"

lemma ws_len_word_char: "word_char c \<Longrightarrow> ws_len (c # s) = 0"
  by (auto simp: word_char_def ws_len.simps ws2_def ws3_def split: list.splits)

lemma ws_len_space [simp]: "ws_len (CHR '' '' # s) = 1"
  by (simp add: ws_len.simps ws1_def)

lemma words_acc_append:
  "\<forall>c \<in> set s. word_char c \<Longrightarrow> words_acc 0 w (s @ t) = words_acc 0 (w @ s) t"
  by (induction s arbitrary: w) (simp_all add: ws_len_word_char)

lemma words_acc_space:
  "w \<noteq> [] \<Longrightarrow> words_acc 0 w (CHR '' '' # t) = w # words_acc 0 [] t"
  by (simp)

text \<open>A word, and a word followed by a space, as \<open>split_whitespace\<close> reads them.\<close>

lemma split_whitespace_word:
  "\<forall>c \<in> set s. word_char c \<Longrightarrow> s \<noteq> [] \<Longrightarrow> split_whitespace s = [s]"
  using words_acc_append [of s "[]" "[]"] by (simp add: split_whitespace_def)

lemma split_whitespace_Cons:
  "\<forall>c \<in> set s. word_char c \<Longrightarrow> s \<noteq> [] \<Longrightarrow>
   split_whitespace (s @ CHR '' '' # t) = s # split_whitespace t"
  by (simp add: split_whitespace_def words_acc_append words_acc_space)

lemma words_acc_ne: "x \<in> set (words_acc k w s) \<Longrightarrow> x \<noteq> []"
  by (induction k w s rule: words_acc.induct) (auto split: if_splits)

lemma split_whitespace_ne: "x \<in> set (split_whitespace s) \<Longrightarrow> x \<noteq> []"
  by (simp add: split_whitespace_def words_acc_ne)

end
