(* ===== verification/Rust_Num.thy ===== *)
theory Rust_Num
  imports Rust_Std
begin

text \<open>
  Unsigned integers and their text: \<open>str::parse\<close> for \<open>u16\<close>, \<open>u32\<close> and \<open>u64\<close> with its error kinds,
  \<open>Display\<close> of an unsigned integer, and the proof that the two are inverse.
\<close>

section \<open>Parsing\<close>

datatype int_error = Empty | InvalidDigit | PosOverflow

text \<open>\<open>Display\<close> of \<open>ParseIntError\<close>.\<close>

fun show_int_error :: "int_error \<Rightarrow> string" where
  "show_int_error Empty = ''cannot parse integer from empty string''"
| "show_int_error InvalidDigit = ''invalid digit found in string''"
| "show_int_error PosOverflow = ''number too large to fit in target type''"

definition digit_val :: "char \<Rightarrow> nat option" where
  "digit_val c = (let n = of_char c in if 48 \<le> n \<and> n \<le> 57 then Some (n - 48) else None)"

text \<open>
  The loop of \<open>from_str_radix\<close> for an unsigned type of \<open>w\<close> bits: the digit is checked before the
  multiplication, the multiplication before the addition.
\<close>

fun parse_digits :: "nat \<Rightarrow> nat \<Rightarrow> string \<Rightarrow> int_error + nat" where
  "parse_digits w acc [] = Inr acc"
| "parse_digits w acc (c # cs) =
     (case digit_val c of
        None \<Rightarrow> Inl InvalidDigit
      | Some x \<Rightarrow>
          if acc * 10 \<ge> 2 ^ w then Inl PosOverflow
          else if acc * 10 + x \<ge> 2 ^ w then Inl PosOverflow
          else parse_digits w (acc * 10 + x) cs)"

definition parse_uint :: "nat \<Rightarrow> string \<Rightarrow> int_error + nat" where
  "parse_uint w s =
     (case s of
        [] \<Rightarrow> Inl Empty
      | c # cs \<Rightarrow>
          if cs = [] \<and> (c = CHR ''+'' \<or> c = CHR ''-'') then Inl InvalidDigit
          else if c = CHR ''+'' then parse_digits w 0 cs
          else parse_digits w 0 s)"

definition parse_u16 :: "string \<Rightarrow> int_error + u16" where
  "parse_u16 s = map_sum id of_nat (parse_uint 16 s)"

definition parse_u32 :: "string \<Rightarrow> int_error + u32" where
  "parse_u32 s = map_sum id of_nat (parse_uint 32 s)"

definition parse_u64 :: "string \<Rightarrow> int_error + u64" where
  "parse_u64 s = map_sum id of_nat (parse_uint 64 s)"

section \<open>Printing\<close>

definition digit_char :: "nat \<Rightarrow> char" where
  "digit_char d = char_of (48 + d)"

fun show_nat :: "nat \<Rightarrow> string" where
  "show_nat n = (if n < 10 then [digit_char n] else show_nat (n div 10) @ [digit_char (n mod 10)])"

declare show_nat.simps [simp del]

definition show_u16 :: "u16 \<Rightarrow> string" where
  "show_u16 x = show_nat (unat x)"

definition show_u32 :: "u32 \<Rightarrow> string" where
  "show_u32 x = show_nat (unat x)"

definition show_u64 :: "u64 \<Rightarrow> string" where
  "show_u64 x = show_nat (unat x)"

section \<open>Round trip\<close>

lemma digit_val_char: "d < 10 \<Longrightarrow> digit_val (digit_char d) = Some d"
  by (simp add: digit_val_def digit_char_def)

lemma digit_val_SomeD: "digit_val c = Some x \<Longrightarrow> x < 10 \<and> c = digit_char x"
  by (auto simp: digit_val_def digit_char_def Let_def split: if_splits)

lemma parse_digits_append:
  "parse_digits w a (s @ t) =
     (case parse_digits w a s of Inl e \<Rightarrow> Inl e | Inr v \<Rightarrow> parse_digits w v t)"
  by (induction s arbitrary: a) (auto split: option.splits)

lemma parse_digits_show_nat: "n < 2 ^ w \<Longrightarrow> parse_digits w 0 (show_nat n) = Inr n"
proof (induction n rule: show_nat.induct)
  case (1 n)
  show ?case
  proof (cases "n < 10")
    case True
    with "1.prems" show ?thesis by (simp add: show_nat.simps digit_val_char)
  next
    case False
    from "1.prems" have lt: "n div 10 < 2 ^ w" and m: "n div 10 * 10 < 2 ^ w"
      by (meson div_le_dividend le_less_trans, linarith)
    have "parse_digits w 0 (show_nat (n div 10)) = Inr (n div 10)"
      using "1.IH" False lt by blast
    moreover have "n div 10 * 10 + n mod 10 = n" by simp
    ultimately show ?thesis
      using False "1.prems" m
      by (subst show_nat.simps) (simp add: parse_digits_append digit_val_char)
  qed
qed

lemma show_nat_ne [simp]: "show_nat n \<noteq> []"
  by (subst show_nat.simps) simp

lemma show_nat_digits: "c \<in> set (show_nat n) \<Longrightarrow> \<exists>d < 10. c = digit_char d"
proof (induction n rule: show_nat.induct)
  case (1 n)
  show ?case
  proof (cases "n < 10")
    case True
    with "1.prems" show ?thesis by (auto simp: show_nat.simps)
  next
    case False
    with "1.prems" consider "c \<in> set (show_nat (n div 10))" | "c = digit_char (n mod 10)"
      by (auto simp: show_nat.simps [of n])
    then show ?thesis
    proof cases
      case 1
      then show ?thesis by (rule "1.IH" [OF False])
    next
      case 2
      then show ?thesis by (intro exI [of _ "n mod 10"]) simp
    qed
  qed
qed

lemma of_char_digit_char: "d < 10 \<Longrightarrow> (of_char (digit_char d) :: nat) = 48 + d"
  by (simp add: digit_char_def)

lemma show_nat_char_range: "c \<in> set (show_nat n) \<Longrightarrow> 48 \<le> (of_char c :: nat) \<and> (of_char c :: nat) \<le> 57"
  using show_nat_digits [of c n] by (auto simp: of_char_digit_char)

lemma show_nat_not_in:
  "(of_char c :: nat) < 48 \<or> 57 < (of_char c :: nat) \<Longrightarrow> c \<notin> set (show_nat n)"
  using show_nat_char_range by fastforce

lemma show_nat_hd_not_sign: "hd (show_nat n) \<noteq> CHR ''+'' \<and> hd (show_nat n) \<noteq> CHR ''-''"
proof -
  have "hd (show_nat n) \<in> set (show_nat n)" by simp
  then show ?thesis using show_nat_char_range by fastforce
qed

lemma parse_uint_show_nat: "n < 2 ^ w \<Longrightarrow> parse_uint w (show_nat n) = Inr n"
  using show_nat_hd_not_sign [of n] show_nat_ne [of n] parse_digits_show_nat [of n w]
  by (cases "show_nat n") (auto simp: parse_uint_def)

lemma parse_u16_show [simp]: "parse_u16 (show_u16 x) = Inr x"
  using unat_less_pow [of x] by (simp add: parse_u16_def show_u16_def parse_uint_show_nat)

lemma parse_u32_show [simp]: "parse_u32 (show_u32 x) = Inr x"
  using unat_less_pow [of x] by (simp add: parse_u32_def show_u32_def parse_uint_show_nat)

lemma parse_u64_show [simp]: "parse_u64 (show_u64 x) = Inr x"
  using unat_less_pow [of x] by (simp add: parse_u64_def show_u64_def parse_uint_show_nat)

definition ok :: "'e + 'a \<Rightarrow> 'a option" where
  "ok r = (case r of Inl _ \<Rightarrow> None | Inr x \<Rightarrow> Some x)"

lemma ok_simps [simp]: "ok (Inl e) = None" "ok (Inr x) = Some x"
  by (simp_all add: ok_def)

lemma ok_eq_Some [simp]: "ok r = Some x \<longleftrightarrow> r = Inr x"
  by (cases r) simp_all

lemma ok_eq_None: "ok r = None \<longleftrightarrow> (\<exists>e. r = Inl e)"
  by (cases r) simp_all

interpretation u64_text: codec show_u64 "\<lambda>s. ok (parse_u64 s)"
  by unfold_locales simp

interpretation u16_text: codec show_u16 "\<lambda>s. ok (parse_u16 s)"
  by unfold_locales simp

section \<open>What parsing accepts\<close>

fun dec_val :: "nat \<Rightarrow> string \<Rightarrow> nat" where
  "dec_val acc [] = acc"
| "dec_val acc (c # cs) = dec_val (acc * 10 + (of_char c - 48)) cs"

lemma dec_val_ge: "acc \<le> dec_val acc s"
proof (induction s arbitrary: acc)
  case (Cons c s)
  have "acc \<le> acc * 10 + (of_char c - 48)" by simp
  also have "\<dots> \<le> dec_val (acc * 10 + (of_char c - 48)) s" by (rule Cons.IH)
  finally show ?case by simp
qed simp

lemma parse_digits_Inr_iff:
  "acc < 2 ^ w \<Longrightarrow> parse_digits w acc s = Inr n \<longleftrightarrow>
     (\<forall>c \<in> set s. digit_val c \<noteq> None) \<and> dec_val acc s = n \<and> n < 2 ^ w"
proof (induction s arbitrary: acc)
  case (Cons c s)
  show ?case
  proof (cases "digit_val c")
    case (Some x)
    then have x: "of_char c - 48 = x"
      by (auto simp: digit_val_def Let_def split: if_splits)
    show ?thesis
    proof (cases "acc * 10 + x < 2 ^ w")
      case True
      with Cons.IH [OF True] Some x show ?thesis by auto
    next
      case False
      moreover have "acc * 10 + x \<le> dec_val (acc * 10 + x) s" by (rule dec_val_ge)
      ultimately show ?thesis using Some x by auto
    qed
  qed simp
qed auto

lemma parse_uint_bound: "parse_uint w s = Inr n \<Longrightarrow> n < 2 ^ w"
  by (auto simp: parse_uint_def parse_digits_Inr_iff simp del: parse_digits.simps
      split: list.splits if_splits)

end
