(* ===== verification/Hex_Utils.thy ===== *)
theory Hex_Utils
  imports Rust_Num
begin

text \<open>
  \<open>src/hex_utils.rs\<close>: the hexadecimal decoder (a loop over bytes with an accumulator), the encoder
  and the parser of a compressed public key. The public key type of \<open>secp256k1\<close> is represented by
  its serialised bytes and its parser \<open>PublicKey::from_slice\<close> is a parameter.
\<close>

section \<open>The code\<close>

text \<open>The arms of the \<open>match\<close> on a byte, as the value or-ed into the accumulator.\<close>

definition hex_arm :: "byte \<Rightarrow> byte option" where
  "hex_arm c =
     (if 0x41 \<le> c \<and> c \<le> 0x46 then Some (c - 0x41 + 10)
      else if 0x61 \<le> c \<and> c \<le> 0x66 then Some (c - 0x61 + 10)
      else if 0x30 \<le> c \<and> c \<le> 0x39 then Some (c - 0x30)
      else None)"

fun to_vec_loop :: "nat \<Rightarrow> byte \<Rightarrow> bytes \<Rightarrow> bytes \<Rightarrow> bytes option" where
  "to_vec_loop idx b out [] = Some out"
| "to_vec_loop idx b out (c # cs) =
     (let b = push_bit 4 b in
      case hex_arm c of
        None \<Rightarrow> None
      | Some d \<Rightarrow>
          (let b = b OR d in
           if idx AND 1 = 1 then to_vec_loop (idx + 1) 0 (out @ [b]) cs
           else to_vec_loop (idx + 1) b out cs))"

definition to_vec :: "string \<Rightarrow> bytes option" where
  "to_vec hex = to_vec_loop 0 0 [] (as_bytes hex)"

text \<open>\<open>{:02x}\<close> of a byte: two lower-case digits.\<close>

definition hex_char :: "nat \<Rightarrow> char" where
  "hex_char d = (if d < 10 then char_of (48 + d) else char_of (87 + d))"

definition fmt_02x :: "byte \<Rightarrow> string" where
  "fmt_02x b = [hex_char (unat b div 16), hex_char (unat b mod 16)]"

definition hex_str :: "bytes \<Rightarrow> string" where
  "hex_str value = foldl (\<lambda>res v. res @ fmt_02x v) [] value"

type_synonym pubkey = bytes

definition to_compressed_pubkey :: "(bytes \<Rightarrow> pubkey option) \<Rightarrow> string \<Rightarrow> pubkey option" where
  "to_compressed_pubkey from_slice hex =
     (if length hex \<noteq> 33 * 2 then None
      else (case to_vec (take (33 * 2) hex) of
          None \<Rightarrow> None
        | Some data \<Rightarrow> (case from_slice data of Some pk \<Rightarrow> Some pk | None \<Rightarrow> None)))"

section \<open>Reference decoder\<close>

text \<open>Pairs of digits, most significant first; a last unpaired digit must still be a digit.\<close>

definition nibble :: "char \<Rightarrow> nat option" where
  "nibble c = (let n = of_char c in
     if 48 \<le> n \<and> n \<le> 57 then Some (n - 48)
     else if 65 \<le> n \<and> n \<le> 70 then Some (n - 55)
     else if 97 \<le> n \<and> n \<le> 102 then Some (n - 87)
     else None)"

fun decode_pairs :: "string \<Rightarrow> bytes option" where
  "decode_pairs [] = Some []"
| "decode_pairs [c] = (case nibble c of None \<Rightarrow> None | Some _ \<Rightarrow> Some [])"
| "decode_pairs (c # d # s) =
     (case (nibble c, nibble d, decode_pairs s) of
        (Some x, Some y, Some bs) \<Rightarrow> Some (of_nat (16 * x + y) # bs)
      | _ \<Rightarrow> None)"

definition is_hex :: "char \<Rightarrow> bool" where
  "is_hex c \<longleftrightarrow> nibble c \<noteq> None"

lemma nibble_less: "nibble c = Some x \<Longrightarrow> x < 16"
  by (auto simp: nibble_def Let_def split: if_splits)

lemma hex_arm_nibble: "hex_arm (byte_of_char c) = map_option of_nat (nibble c)"
proof -
  have le: "(k :: byte) \<le> byte_of_char c \<longleftrightarrow> unat k \<le> of_char c"
    "byte_of_char c \<le> k \<longleftrightarrow> of_char c \<le> unat k" for k
    by (simp_all add: word_le_nat_alt)
  have sub: "byte_of_char c - k = of_nat (of_char c - unat k)" if "unat k \<le> of_char c" for k
    using that by (simp add: byte_of_char_def of_nat_diff)
  show ?thesis
    by (auto simp: hex_arm_def nibble_def Let_def le sub of_nat_diff)
qed

lemma or_shift: "y < 16 \<Longrightarrow> push_bit 4 (of_nat x) OR of_nat y = (of_nat (16 * x + y) :: byte)"
proof -
  assume "y < 16"
  then have y: "take_bit 4 y = y" by (simp add: take_bit_nat_eq_self)
  have "push_bit 4 x AND y = 0"
    by (rule bit_eqI) (metis bit_and_iff bit_push_bit_iff_nat bit_take_bit_iff bot_nat_0.not_eq_extremum
        leD y bit_0_eq bot_apply bot_bool_def)
  then have "push_bit 4 x OR y = 16 * x + y"
    by (simp add: disjunctive_add_eq_or [symmetric] push_bit_eq_mult)
  then show ?thesis
    by (metis of_nat_or_eq push_bit_of_nat)
qed

section \<open>Correctness of the decoder\<close>

lemma to_vec_loop_pairs:
  "even idx \<Longrightarrow> to_vec_loop idx 0 out (as_bytes s) = map_option (\<lambda>bs. out @ bs) (decode_pairs s)"
proof (induction s arbitrary: idx out rule: decode_pairs.induct)
  case (2 c)
  then show ?case
    by (auto simp: as_bytes_Cons hex_arm_nibble and_one_eq even_iff_mod_2_eq_zero split: option.splits)
next
  case (3 c d s)
  have one: "idx AND Suc 0 = 0" "Suc idx AND Suc 0 = Suc 0"
    using "3.prems" by (simp_all add: and_one_eq [of idx, simplified] and_one_eq [of "Suc idx", simplified]
        mod_Suc even_iff_mod_2_eq_zero)
  show ?case
  proof (cases "nibble c"; cases "nibble d")
    fix x y
    assume n: "nibble c = Some x" "nibble d = Some y"
    have "to_vec_loop idx 0 out (as_bytes (c # d # s)) =
        to_vec_loop (Suc (Suc idx)) 0 (out @ [of_nat (16 * x + y)]) (as_bytes s)"
      using one nibble_less [OF n(2)]
      by (simp add: as_bytes_Cons hex_arm_nibble n or_shift [of y x, simplified])
    moreover have "even (Suc (Suc idx))" using "3.prems" by simp
    ultimately show ?thesis
      using "3.IH" n by (auto split: option.splits)
  qed (use one in \<open>auto simp: as_bytes_Cons hex_arm_nibble\<close>)
qed simp

lemma to_vec_pairs: "to_vec s = decode_pairs s"
  by (simp add: to_vec_def to_vec_loop_pairs option.map_ident)

lemma decode_pairs_Some_iff:
  "(\<exists>bs. decode_pairs s = Some bs) \<longleftrightarrow> (\<forall>c \<in> set s. is_hex c)"
  by (induction s rule: decode_pairs.induct) (auto simp: is_hex_def split: option.splits)

lemma decode_pairs_length: "decode_pairs s = Some bs \<Longrightarrow> length bs = length s div 2"
  by (induction s arbitrary: bs rule: decode_pairs.induct) (auto split: option.splits)

lemma decode_pairs_butlast:
  "odd (length s) \<Longrightarrow> is_hex (last s) \<Longrightarrow> decode_pairs s = decode_pairs (butlast s)"
proof (induction s rule: decode_pairs.induct)
  case (3 c d s)
  then show ?case by (cases "s = []") (auto split: option.splits)
qed (auto simp: is_hex_def)

section \<open>The encoder\<close>

lemma hex_str_concat: "hex_str v = concat (map fmt_02x v)"
proof -
  have "foldl (\<lambda>res v. res @ fmt_02x v) acc v = acc @ concat (map fmt_02x v)" for acc
    by (induction v arbitrary: acc) simp_all
  then show ?thesis by (simp add: hex_str_def)
qed

lemma hex_str_simps [simp]: "hex_str [] = []" "hex_str (b # bs) = fmt_02x b @ hex_str bs"
  by (simp_all add: hex_str_concat)

lemma length_hex_str [simp]: "length (hex_str v) = 2 * length v"
  by (induction v) (simp_all add: fmt_02x_def)

lemma nibble_hex_char: "d < 16 \<Longrightarrow> nibble (hex_char d) = Some d"
  by (auto simp: nibble_def hex_char_def)

lemma decode_pairs_hex_str: "decode_pairs (hex_str v) = Some v"
proof (induction v)
  case (Cons b v)
  have "unat b div 16 < 16" using unat_byte_less [of b] by linarith
  then show ?case
    using Cons by (simp add: fmt_02x_def nibble_hex_char)
qed simp

interpretation hex_text: codec hex_str to_vec
  by unfold_locales (simp add: to_vec_pairs decode_pairs_hex_str)

text \<open>The digits \<open>hex_str\<close> writes: lower case, one for each given digit.\<close>

definition lower_hex :: "char \<Rightarrow> char" where
  "lower_hex c = hex_char (the (nibble c))"

lemma hex_str_decode:
  "even (length s) \<Longrightarrow> decode_pairs s = Some bs \<Longrightarrow> hex_str bs = map lower_hex s"
proof (induction s arbitrary: bs rule: decode_pairs.induct)
  case (3 c d s)
  then obtain x y bs' where n: "nibble c = Some x" "nibble d = Some y" "decode_pairs s = Some bs'"
    and bs: "bs = of_nat (16 * x + y) # bs'"
    by (auto split: option.splits)
  have "16 * x + y < 256" using nibble_less [OF n(1)] nibble_less [OF n(2)] by simp
  then have "unat (of_nat (16 * x + y) :: byte) = 16 * x + y"
    by (simp add: unat_of_nat del: of_nat_add of_nat_mult)
  then show ?case
    using 3 n bs nibble_less [OF n(2)]
    by (simp add: fmt_02x_def lower_hex_def del: of_nat_add of_nat_mult)
qed auto

section \<open>Properties\<close>

text \<open>C39: the byte loop of \<open>to_vec\<close> computes the pairwise reference decoder.\<close>

theorem to_vec_eq_decode_pairs: "to_vec s = decode_pairs s"
  by (rule to_vec_pairs)

text \<open>C40: decoding what \<open>hex_str\<close> printed gives back the bytes, for every byte vector.\<close>

theorem to_vec_hex_str: "to_vec (hex_str v) = Some v"
  by (rule hex_text.decode_encode)

text \<open>
  \<open>to_vec\<close> succeeds exactly on strings of hexadecimal digits of either case, and then returns
  half as many bytes as there are digits, rounded down.
\<close>

lemma to_vec_accepts:
  "(\<exists>bs. to_vec s = Some bs \<and> length bs = length s div 2) \<longleftrightarrow> list_all is_hex s"
  unfolding list_all_iff using decode_pairs_Some_iff [of s] decode_pairs_length [of s]
  by (auto simp: to_vec_pairs)

text \<open>
  On a string of odd length \<open>to_vec\<close> does not fail: it drops the last digit and decodes the
  rest.
\<close>

lemma to_vec_odd_drops_digit:
  "odd (length s) \<Longrightarrow> list_all is_hex s \<Longrightarrow> to_vec s = to_vec (butlast s) \<and> to_vec s \<noteq> None"
  unfolding list_all_iff using decode_pairs_Some_iff [of s] decode_pairs_butlast [of s]
  by (cases "s = []") (auto simp: to_vec_pairs)

text \<open>
  Re-encoding a decoded string of even length gives the string in lower case, so two strings
  decode to the same bytes exactly when they differ in letter case only.
\<close>

lemma hex_str_to_vec:
  "even (length s) \<Longrightarrow> to_vec s = Some bs \<Longrightarrow> hex_str bs = map lower_hex s"
  by (simp add: to_vec_pairs hex_str_decode)

text \<open>
  \<open>to_compressed_pubkey\<close> accepts exactly 66 hexadecimal digits whose 33 bytes are a public
  key, and it accepts every printed 33-byte key.
\<close>

lemma to_compressed_pubkey_iff:
  "to_compressed_pubkey from_slice h = Some pk \<longleftrightarrow>
     (\<exists>data. length data = 33 \<and> map lower_hex h = hex_str data \<and> list_all is_hex h
        \<and> from_slice data = Some pk)"
  (is "?L \<longleftrightarrow> ?R")
proof
  assume ?L
  then obtain data where d: "length h = 66" "to_vec h = Some data" "from_slice data = Some pk"
    by (auto simp: to_compressed_pubkey_def split: if_splits option.splits)
  then have "length data = 33" "hex_str data = map lower_hex h" "list_all is_hex h"
    unfolding list_all_iff using decode_pairs_length [of h data] hex_str_decode [of h data] decode_pairs_Some_iff [of h]
    by (auto simp: to_vec_pairs)
  with d show ?R by auto
next
  assume ?R
  then obtain data where d: "length data = 33" "map lower_hex h = hex_str data"
    "list_all is_hex h" "from_slice data = Some pk" by blast
  then have len: "length h = 66"
    by (metis length_hex_str length_map mult_2 numeral_Bit0)
  then obtain bs where bs: "to_vec h = Some bs"
    using d(3) decode_pairs_Some_iff [of h] unfolding list_all_iff by (auto simp: to_vec_pairs)
  then have "hex_str bs = hex_str data"
    using d(2) len hex_str_decode [of h bs] by (simp add: to_vec_pairs)
  then have "bs = data" by (simp add: hex_text.encode_eq_iff)
  with bs len d(4) show ?L by (simp add: to_compressed_pubkey_def)
qed

end
