(* ===== verification/Float64.thy ===== *)
theory Float64
  imports Complex_Main "HOL-Library.Log_Nat" Prelude
begin

text \<open>
  The \<open>f64\<close> arithmetic of the Rust code: IEEE 754 binary64 with rounding to nearest, ties to even.
  A finite value is the rational number it denotes; the sign of zero is not kept, which none of the
  operations the program applies can observe (multiplication, division by a non-zero constant,
  \<open>round\<close> and the saturating cast \<open>as u32\<close>).
\<close>

section \<open>Rounding to binary64\<close>

text \<open>\<open>ilog2 x\<close> is the exponent of a positive \<open>x\<close>: \<open>2 powi ilog2 x \<le> x < 2 powi (ilog2 x + 1)\<close>.\<close>

definition ilog2 :: "rat \<Rightarrow> int" where
  "ilog2 x = (if 1 \<le> x then bitlen \<lfloor>x\<rfloor> - 1 else - bitlen (\<lceil>1 / x\<rceil> - 1))"

definition round_even :: "rat \<Rightarrow> int" where
  "round_even x =
     (let f = \<lfloor>x\<rfloor>; r = x - of_int f in
      if r < 1 / 2 then f else if 1 / 2 < r then f + 1 else if even f then f else f + 1)"

text \<open>The exponent of the last place: 53 significant bits, and no smaller than \<open>-1074\<close>.\<close>

definition lsb :: "rat \<Rightarrow> int" where
  "lsb x = max (ilog2 x - 52) (- 1074)"

definition fl_pos :: "rat \<Rightarrow> rat" where
  "fl_pos x = of_int (round_even (x / 2 powi lsb x)) * 2 powi lsb x"

definition fl :: "rat \<Rightarrow> rat" where
  "fl x = (if x = 0 then 0 else if 0 < x then fl_pos x else - fl_pos (- x))"

datatype f64 = NaN | Infinite bool | Finite rat

definition f64_of :: "rat \<Rightarrow> f64" where
  "f64_of x = (let y = fl x in if 2 ^ 1024 \<le> \<bar>y\<bar> then Infinite (y < 0) else Finite y)"

section \<open>Operations\<close>

fun f64_mul :: "f64 \<Rightarrow> f64 \<Rightarrow> f64" where
  "f64_mul (Finite a) (Finite b) = f64_of (a * b)"
| "f64_mul (Infinite s) (Finite b) = (if b = 0 then NaN else Infinite (s \<noteq> (b < 0)))"
| "f64_mul (Finite a) (Infinite s) = (if a = 0 then NaN else Infinite (s \<noteq> (a < 0)))"
| "f64_mul (Infinite s) (Infinite t) = Infinite (s \<noteq> t)"
| "f64_mul _ _ = NaN"

fun f64_div :: "f64 \<Rightarrow> f64 \<Rightarrow> f64" where
  "f64_div (Finite a) (Finite b) =
     (if b = 0 then (if a = 0 then NaN else Infinite (a < 0)) else f64_of (a / b))"
| "f64_div (Infinite s) (Finite b) = Infinite (s \<noteq> (b < 0))"
| "f64_div (Finite a) (Infinite s) = Finite 0"
| "f64_div _ _ = NaN"

text \<open>\<open>f64::round\<close>: to the nearest integer, half away from zero.\<close>

definition round_away :: "rat \<Rightarrow> int" where
  "round_away x = (if 0 \<le> x then \<lfloor>x + 1 / 2\<rfloor> else - \<lfloor>- x + 1 / 2\<rfloor>)"

fun f64_round :: "f64 \<Rightarrow> f64" where
  "f64_round (Finite a) = Finite (of_int (round_away a))"
| "f64_round x = x"

text \<open>\<open>as u32\<close>: saturating, \<open>NaN\<close> to \<open>0\<close>, otherwise towards zero.\<close>

fun f64_as_u32 :: "f64 \<Rightarrow> u32" where
  "f64_as_u32 NaN = 0"
| "f64_as_u32 (Infinite s) = (if s then 0 else - 1)"
| "f64_as_u32 (Finite a) =
     (if a < 0 then 0 else if 2 ^ 32 \<le> a then - 1 else of_int \<lfloor>a\<rfloor>)"

text \<open>\<open>as f64\<close> of an unsigned integer.\<close>

definition u64_as_f64 :: "u64 \<Rightarrow> f64" where
  "u64_as_f64 x = f64_of (of_nat (unat x))"

definition u32_as_f64 :: "u32 \<Rightarrow> f64" where
  "u32_as_f64 x = f64_of (of_nat (unat x))"

section \<open>Exponents\<close>

lemma ilog2_bounds:
  assumes "0 < x"
  shows "2 powi ilog2 x \<le> x" and "x < 2 powi (ilog2 x + 1)"
proof -
  have "2 powi ilog2 x \<le> x \<and> x < 2 powi (ilog2 x + 1)"
  proof (cases "1 \<le> x")
    case True
    then have f: "0 < \<lfloor>x\<rfloor>" by simp
    define b where "b = bitlen \<lfloor>x\<rfloor>"
    have b: "1 \<le> b" using f by (simp add: b_def bitlen_alt_def)
    have "2 ^ nat (b - 1) \<le> \<lfloor>x\<rfloor>" "\<lfloor>x\<rfloor> < 2 ^ nat b"
      using bitlen_bounds [OF f] by (auto simp: b_def)
    then have "of_int (2 ^ nat (b - 1)) \<le> x" "x < of_int (2 ^ nat b)"
      by (simp_all add: le_floor_iff floor_less_iff)
    with b True show ?thesis
      by (simp add: ilog2_def b_def [symmetric] power_int_def)
  next
    case False
    define k where "k = \<lceil>1 / x\<rceil>"
    have "1 < 1 / x" using assms False by simp
    then have k: "1 < k" unfolding k_def by (simp add: less_ceiling_iff)
    define b where "b = bitlen (k - 1)"
    have b: "1 \<le> b" using k by (simp add: b_def bitlen_alt_def)
    have "2 ^ nat (b - 1) \<le> k - 1" "k - 1 < 2 ^ nat b"
      using bitlen_bounds [of "k - 1"] k by (auto simp: b_def)
    then have "2 ^ nat (b - 1) < k" "k \<le> 2 ^ nat b" by auto
    then have "of_int (2 ^ nat (b - 1)) < 1 / x" "1 / x \<le> of_int (2 ^ nat b)"
      unfolding k_def by (simp_all add: less_ceiling_iff ceiling_le_iff)
    then have "x < 1 / 2 ^ nat (b - 1)" "1 / 2 ^ nat b \<le> x"
      using assms by (simp_all add: field_simps)
    moreover have "(2 :: rat) powi (- b) = 1 / 2 ^ nat b" "(2 :: rat) powi (- b + 1) = 1 / 2 ^ nat (b - 1)"
      using b by (simp_all add: power_int_def field_simps nat_diff_distrib)
    ultimately show ?thesis
      using False by (simp add: ilog2_def b_def [symmetric] k_def [symmetric])
  qed
  then show "2 powi ilog2 x \<le> x" and "x < 2 powi (ilog2 x + 1)" by simp_all
qed

lemma round_even_error: "\<bar>of_int (round_even x) - x\<bar> \<le> 1 / 2"
proof -
  define f where "f = \<lfloor>x\<rfloor>"
  have "of_int f \<le> x" "x < of_int f + 1" unfolding f_def by linarith+
  then show ?thesis unfolding round_even_def Let_def f_def [symmetric] by auto
qed

lemma fl_pos_error: "\<bar>fl_pos x - x\<bar> \<le> 2 powi lsb x / 2"
proof -
  define u :: rat where "u = 2 powi lsb x"
  have u: "0 < u" by (simp add: u_def)
  have "fl_pos x - x = (of_int (round_even (x / u)) - x / u) * u"
    using u by (simp add: fl_pos_def u_def [symmetric] algebra_simps)
  then have "\<bar>fl_pos x - x\<bar> = \<bar>of_int (round_even (x / u)) - x / u\<bar> * u"
    using u by (simp add: abs_mult)
  also have "\<dots> \<le> 1 / 2 * u"
    using u round_even_error by (intro mult_right_mono) auto
  finally show ?thesis by (simp add: u_def)
qed

text \<open>The relative error of rounding a normal number.\<close>

lemma fl_error:
  assumes "1 / 2 ^ 1022 \<le> x"
  shows "\<bar>fl x - x\<bar> \<le> x / 2 ^ 53"
proof -
  have x: "0 < x" using assms by (rule less_le_trans [rotated]) simp
  have e: "- 1022 \<le> ilog2 x"
  proof (rule ccontr)
    assume "\<not> - 1022 \<le> ilog2 x"
    then have "ilog2 x + 1 \<le> - 1022" by simp
    then have "(2 :: rat) powi (ilog2 x + 1) \<le> 2 powi (- 1022)"
      by (intro power_int_increasing) auto
    then have "x < 1 / 2 ^ 1022"
      using ilog2_bounds(2) [OF x] by (simp add: power_int_minus field_simps)
    with assms show False by simp
  qed
  then have "lsb x = ilog2 x - 52" by (simp add: lsb_def)
  then have "2 powi lsb x = 2 powi ilog2 x / (2 ^ 52 :: rat)"
    by (simp add: power_int_diff)
  also have "\<dots> \<le> x / 2 ^ 52"
    using ilog2_bounds(1) [OF x] by (intro divide_right_mono) auto
  finally have "2 powi lsb x / 2 \<le> x / 2 ^ 53" by simp
  then show ?thesis
    using fl_pos_error [of x] x by (simp add: fl_def)
qed

lemma fl_0 [simp]: "fl 0 = 0"
  by (simp add: fl_def)

lemma fl_nonneg: "0 \<le> x \<Longrightarrow> 0 \<le> fl x"
proof -
  assume "0 \<le> x"
  have "0 \<le> round_even y" if "0 \<le> y" for y
    using that by (auto simp: round_even_def Let_def)
  with \<open>0 \<le> x\<close> show ?thesis by (auto simp: fl_def fl_pos_def)
qed

section \<open>Integers are exact\<close>

lemma round_even_of_int [simp]: "round_even (of_int m) = m"
  by (simp add: round_even_def)

lemma fl_of_nat:
  assumes "n < 2 ^ 53"
  shows "fl (of_nat n) = of_nat n"
proof (cases "n = 0")
  case False
  define x :: rat where "x = of_nat n"
  have x: "1 \<le> x" using False by (simp add: x_def)
  have "bitlen (int n) \<le> 53"
  proof (rule ccontr)
    assume "\<not> bitlen (int n) \<le> 53"
    then have "53 \<le> nat (bitlen (int n) - 1)" by simp
    then have "(2 :: int) ^ 53 \<le> 2 ^ nat (bitlen (int n) - 1)"
      by (rule power_increasing) simp
    also have "\<dots> \<le> int n" using bitlen_bounds [of "int n"] False by simp
    finally have "(2 :: int) ^ 53 \<le> int n" .
    moreover have "int n < int (2 ^ 53)" using assms by (simp only: of_nat_less_iff)
    ultimately show False by simp
  qed
  then have "ilog2 x \<le> 52" using x by (simp add: ilog2_def x_def)
  then have e: "lsb x \<le> 0" by (simp add: lsb_def)
  define k where "k = nat (- lsb x)"
  have "lsb x = - int k" using e by (simp add: k_def)
  then have p: "(2 :: rat) powi lsb x = 1 / 2 ^ k" by (simp add: power_int_minus field_simps)
  have "x / (1 / 2 ^ k) = of_int (int n * 2 ^ k)" by (simp add: x_def)
  then have "fl_pos x = of_int (int n * 2 ^ k) * (1 / 2 ^ k)"
    unfolding fl_pos_def p by (simp only: round_even_of_int)
  then show ?thesis using x by (simp add: fl_def x_def)
qed simp

lemma f64_of_Finite: "0 \<le> fl x \<Longrightarrow> fl x < 2 ^ 1024 \<Longrightarrow> f64_of x = Finite (fl x)"
  by (simp add: f64_of_def Let_def)

lemma less_2_1024: "x \<le> 2 ^ 64 \<Longrightarrow> x < (2 :: rat) ^ 1024"
proof -
  have "(2 :: rat) ^ 64 < 2 ^ 1024" by (rule power_strict_increasing) simp_all
  then show "x \<le> 2 ^ 64 \<Longrightarrow> x < (2 :: rat) ^ 1024" by (rule le_less_trans [rotated])
qed

lemma f64_of_nat: "n < 2 ^ 53 \<Longrightarrow> f64_of (of_nat n) = Finite (of_nat n)"
proof -
  assume n: "n < 2 ^ 53"
  then have "of_nat n < (of_nat (2 ^ 53) :: rat)" by (simp only: of_nat_less_iff)
  then have "of_nat n \<le> (2 :: rat) ^ 64" by simp
  then show ?thesis using n by (simp add: f64_of_Finite fl_of_nat less_2_1024)
qed

lemma u32_as_f64_exact: "u32_as_f64 x = Finite (of_nat (unat x))"
  unfolding u32_as_f64_def
  by (rule f64_of_nat) (use unat_less_pow [of x] in simp)

lemma u64_as_f64_exact: "unat x < 2 ^ 53 \<Longrightarrow> u64_as_f64 x = Finite (of_nat (unat x))"
  unfolding u64_as_f64_def by (rule f64_of_nat)

text \<open>
  A rounded quotient or product of moderate size is finite and within one part in \<open>2 ^ 53\<close> of the
  exact value.
\<close>

lemma f64_of_close:
  assumes "1 / 2 ^ 1022 \<le> x" and "x \<le> 2 ^ 63"
  shows "\<exists>q. f64_of x = Finite q \<and> \<bar>q - x\<bar> \<le> x / 2 ^ 53 \<and> 0 \<le> q"
proof -
  have x: "0 \<le> x" using assms(1) by (rule order_trans [rotated]) simp
  have e: "\<bar>fl x - x\<bar> \<le> x / 2 ^ 53" by (rule fl_error [OF assms(1)])
  then have "fl x \<le> x + x / 2 ^ 53" by linarith
  also have "\<dots> \<le> 2 ^ 63 + 2 ^ 63" using assms(2) x by simp
  finally have "fl x \<le> 2 ^ 64" by simp
  then have "f64_of x = Finite (fl x)"
    using x by (simp add: f64_of_Finite fl_nonneg less_2_1024)
  with e x fl_nonneg show ?thesis by blast
qed

end
