(* ===== verification/Ldk_Types.thy ===== *)
theory Ldk_Types
  imports Prog Hex_Utils Float64 "HOL-Library.Finite_Map"
begin

text \<open>
  The values the program exchanges with the libraries it is built on (LDK, \<open>bitcoin\<close>, the RPC
  client), with the fields and cases the program looks at, and the actions a run performs on them.
  Keys, hashes and identifiers are their bytes; an opaque value that is only passed on is its text.

  A run records what it does in a trace. Every question the program asks of a library is an action
  too, and the answer is a parameter of the model, a function of the trace so far: the libraries may
  answer a later question differently, whether or not the program did anything in between.
\<close>

section \<open>Data of the libraries\<close>

type_synonym payment_id = bytes
type_synonym payment_hash = bytes
type_synonym payment_preimage = bytes
type_synonym payment_secret = bytes
type_synonym channel_id = bytes
type_synonym node_id = bytes
type_synonym sock_addr = string

datatype network = Bitcoin | Testnet | Testnet4 | Signet | Regtest

text \<open>\<open>lightning::ln::msgs::SocketAddress\<close>: the onion cases are the ones the code tells apart.\<close>

datatype socket_address = OnionV2 string | OnionV3 string | ClearNet string

text \<open>\<open>ChannelDetails\<close>, the fields that are read.\<close>

record channel_details =
  cd_channel_id :: channel_id
  cd_funding_txid :: "string option"
  cd_node_id :: pubkey
  cd_scid :: "u64 option"
  cd_is_ready :: bool
  cd_value_sat :: u64
  cd_outbound_msat :: u64
  cd_inbound_msat :: u64
  cd_is_usable :: bool
  cd_is_announced :: bool

text \<open>\<open>NodeAnnouncementInfo\<close> of the network graph.\<close>

record announcement =
  ann_alias :: string
  ann_addresses :: "socket_address list"
  ann_dns_resolution :: bool
  ann_onion_messages :: bool

text \<open>\<open>channelmonitor::Balance\<close>: the cases with fields that are read, and the rest.\<close>

datatype balance =
    ClaimableOnChannelClose "u64 list" nat
      \<comment> \<open>\<open>transaction_fee_satoshis\<close> of each candidate and \<open>confirmed_balance_candidate_index\<close>\<close>
  | MaybeTimeoutClaimableHTLC u64 bool \<comment> \<open>\<open>amount_satoshis\<close>, \<open>outbound_payment\<close>\<close>
  | OtherBalance string

datatype offer_amount = BitcoinAmount u64 | CurrencyAmount string

record offer =
  offer_text :: string
  offer_amount_of :: "offer_amount option"

record invoice =
  inv_text :: string
  inv_payment_hash :: payment_hash
  inv_payment_secret :: payment_secret
  inv_amount_msat :: "u64 option"
  inv_payee :: pubkey

text \<open>The fields of \<open>UserConfig\<close> that \<open>open_channel\<close> sets; the others keep their defaults.\<close>

record open_config =
  their_to_self_delay :: u16
  announce_for_forwarding :: bool
  negotiate_anchors :: bool

text \<open>Values \<open>serde_json::json!\<close> is applied to.\<close>

datatype json_arg = JText string | JInt int | JFloat f64 | JBool bool
  | JArray "json_arg list" | JObject "(string \<times> json_arg) list"

section \<open>Actions and traces\<close>

text \<open>Sending a payment, with the retry time in seconds.\<close>

datatype pay_call =
    PayForOffer offer "u64 option" payment_id nat
  | PayForHrn string u64 payment_id nat "pubkey list"
  | PayForBolt11 invoice payment_id "u64 option" nat
  | SendSpontaneous payment_preimage payment_id pubkey nat u64 nat
      \<comment> \<open>with the payee's \<open>final_cltv_expiry_delta\<close>\<close>

fun pay_id :: "pay_call \<Rightarrow> payment_id" where
  "pay_id (PayForOffer _ _ i _) = i"
| "pay_id (PayForHrn _ _ i _ _) = i"
| "pay_id (PayForBolt11 _ i _ _) = i"
| "pay_id (SendSpontaneous _ i _ _ _ _) = i"

datatype channel_call =
    CreateChannel pubkey u64 u64 nat open_config
  | CloseChannel channel_id pubkey
  | ForceCloseChannel channel_id pubkey string
  | FundingGenerated channel_id pubkey bytes
  | AcceptInbound channel_id pubkey nat
  | ClaimFunds payment_preimage
  | CreateBolt11 "u64 option" "u32 option"
  | BuildOffer "u64 option"
  | LoadMonitor channel_id

datatype peer_call =
    ConnectOutbound pubkey sock_addr
  | DisconnectPeer pubkey
  | DisconnectAllPeers
  | BroadcastAnnouncement bytes bytes "socket_address list"

datatype action =
    Query
  | Print string
  | RandomBytes
  | KvWrite string string string bytes \<comment> \<open>\<open>fs_store.write\<close>: two namespaces, key, value\<close>
  | Pay pay_call
  | Channel channel_call
  | Peer peer_call
  | Rpc string "json_arg list"
  | TrackOutputs "bytes list" "channel_id option" bool "u32 option"
  | HandleBump string
  | SleepMillis nat
  | Spawn string
  | SigAction string \<comment> \<open>\<open>libc::sigaction\<close> with a handler that does nothing\<close>
  | StopBackground \<comment> \<open>the exit signal to the background processor\<close>
  | Log string \<comment> \<open>a line for the log file\<close>
  | ReadDir string \<comment> \<open>\<open>fs::read_dir\<close> of a directory that exists\<close>

type_synonym hist = "action list"

record world =
  trace :: "action list"

definition emit :: "action \<Rightarrow> ('a world_scheme, unit) prog" where
  "emit a = modify (\<lambda>s. s\<lparr>trace := trace s @ [a]\<rparr>)"

text \<open>A question to a library: it is recorded, and answered from the trace before it.\<close>

definition ask :: "(hist \<Rightarrow> 'r) \<Rightarrow> ('a world_scheme, 'r) prog" where
  "ask f = bindP (gets (\<lambda>s. f (trace s))) (\<lambda>r. thenP (emit Query) (ret r))"

text \<open>A call that acts on a library and returns its answer.\<close>

definition call :: "action \<Rightarrow> (hist \<Rightarrow> 'r) \<Rightarrow> ('a world_scheme, 'r) prog" where
  "call a f = bindP (gets (\<lambda>s. f (trace s))) (\<lambda>r. thenP (emit a) (ret r))"

definition nl :: string where
  "nl = [CHR 0x0A]"

definition tab :: string where
  "tab = [CHR 0x09]"

text \<open>\<open>print!\<close> and \<open>println!\<close>.\<close>

definition print :: "string \<Rightarrow> ('a world_scheme, unit) prog" where
  "print s = emit (Print s)"

definition println :: "string \<Rightarrow> ('a world_scheme, unit) prog" where
  "println s = emit (Print (s @ nl))"

text \<open>The text a run wrote to standard output.\<close>

fun stdout_of :: "action list \<Rightarrow> string" where
  "stdout_of [] = []"
| "stdout_of (Print s # as) = s @ stdout_of as"
| "stdout_of (_ # as) = stdout_of as"

section \<open>Rules\<close>

lemma run_emit [run_simps]: "emit a s = (Val (), s\<lparr>trace := trace s @ [a]\<rparr>)"
  by (simp add: emit_def run_simps)

lemma run_ask [run_simps]: "ask f s = (Val (f (trace s)), s\<lparr>trace := trace s @ [Query]\<rparr>)"
  by (simp add: ask_def run_simps)

lemma run_call [run_simps]: "call a f s = (Val (f (trace s)), s\<lparr>trace := trace s @ [a]\<rparr>)"
  by (simp add: call_def run_simps)

lemma run_print [run_simps]: "print t s = (Val (), s\<lparr>trace := trace s @ [Print t]\<rparr>)"
  by (simp add: print_def run_simps)

lemma run_println [run_simps]: "println t s = (Val (), s\<lparr>trace := trace s @ [Print (t @ nl)]\<rparr>)"
  by (simp add: println_def run_simps)

lemma wp_emit [wp_simps]: "wp (emit a) Q E s = Q () (s\<lparr>trace := trace s @ [a]\<rparr>)"
  by (simp add: wp_def run_simps)

lemma wp_ask [wp_simps]: "wp (ask f) Q E s = Q (f (trace s)) (s\<lparr>trace := trace s @ [Query]\<rparr>)"
  by (simp add: wp_def run_simps)

lemma wp_call [wp_simps]: "wp (call a f) Q E s = Q (f (trace s)) (s\<lparr>trace := trace s @ [a]\<rparr>)"
  by (simp add: wp_def run_simps)

lemma wp_print [wp_simps]: "wp (print t) Q E s = Q () (s\<lparr>trace := trace s @ [Print t]\<rparr>)"
  by (simp add: wp_def run_simps)

lemma wp_println [wp_simps]: "wp (println t) Q E s = Q () (s\<lparr>trace := trace s @ [Print (t @ nl)]\<rparr>)"
  by (simp add: wp_def run_simps)

text \<open>An invariant that recording an action cannot break.\<close>

lemma keeps_emit: "(\<And>s. I s \<Longrightarrow> I (s\<lparr>trace := trace s @ [a]\<rparr>)) \<Longrightarrow> keeps I E (emit a)"
  by (simp add: keeps_def wp_simps)

lemma keeps_ask: "(\<And>s. I s \<Longrightarrow> I (s\<lparr>trace := trace s @ [Query]\<rparr>)) \<Longrightarrow> keeps I E (ask f)"
  by (simp add: keeps_def wp_simps)

lemma keeps_call: "(\<And>s. I s \<Longrightarrow> I (s\<lparr>trace := trace s @ [a]\<rparr>)) \<Longrightarrow> keeps I E (call a f)"
  by (simp add: keeps_def wp_simps)

lemma keeps_print: "(\<And>s. I s \<Longrightarrow> I (s\<lparr>trace := trace s @ [Print t]\<rparr>)) \<Longrightarrow> keeps I E (print t)"
  by (simp add: keeps_def wp_simps)

lemma keeps_println:
  "(\<And>s. I s \<Longrightarrow> I (s\<lparr>trace := trace s @ [Print (t @ nl)]\<rparr>)) \<Longrightarrow> keeps I E (println t)"
  by (simp add: keeps_def wp_simps)

lemma stdout_of_append [simp]: "stdout_of (xs @ ys) = stdout_of xs @ stdout_of ys"
  by (induction xs rule: stdout_of.induct) simp_all

section \<open>Programs that only talk\<close>

text \<open>The actions that pay, and those that write to the store.\<close>

fun is_pay :: "action \<Rightarrow> bool" where
  "is_pay (Pay p) = True"
| "is_pay _ = False"

fun is_write :: "action \<Rightarrow> bool" where
  "is_write (KvWrite p s k v) = True"
| "is_write _ = False"

text \<open>
  A program whose only effect is to append to the trace, and neither pays nor writes: most commands and
  event handlers are, so what they keep follows from what appending keeps.
\<close>

definition trace_only :: "('b world_scheme, 'a) prog \<Rightarrow> bool" where
  "trace_only m \<longleftrightarrow> (\<forall>s. \<exists>as. snd (m s) = s\<lparr>trace := trace s @ as\<rparr>
     \<and> list_all (\<lambda>a. \<not> is_pay a \<and> \<not> is_write a) as)"

named_theorems trace_only_intros

lemma trace_onlyI:
  "(\<And>s. \<exists>as. snd (m s) = s\<lparr>trace := trace s @ as\<rparr> \<and> list_all (\<lambda>a. \<not> is_pay a \<and> \<not> is_write a) as)
   \<Longrightarrow> trace_only m"
  by (simp add: trace_only_def)

lemma trace_only_ret [trace_only_intros]: "trace_only (ret x)"
  by (rule trace_onlyI, rule exI [of _ "[]"]) (simp add: run_simps)

lemma trace_only_panic [trace_only_intros]: "trace_only (panic p)"
  by (rule trace_onlyI, rule exI [of _ "[]"]) (simp add: run_simps)

lemma trace_only_gets [trace_only_intros]: "trace_only (gets f)"
  by (rule trace_onlyI, rule exI [of _ "[]"]) (simp add: run_simps)

lemma trace_only_emit [trace_only_intros]: "\<not> is_pay a \<Longrightarrow> \<not> is_write a \<Longrightarrow> trace_only (emit a)"
  by (rule trace_onlyI, rule exI [of _ "[a]"]) (simp add: run_simps)

lemma trace_only_call [trace_only_intros]: "\<not> is_pay a \<Longrightarrow> \<not> is_write a \<Longrightarrow> trace_only (call a f)"
  by (rule trace_onlyI, rule exI [of _ "[a]"]) (simp add: run_simps)

lemma trace_only_ask [trace_only_intros]: "trace_only (ask f)"
  by (rule trace_onlyI, rule exI [of _ "[Query]"]) (simp add: run_simps)

lemma trace_only_print [trace_only_intros]: "trace_only (print t)"
  by (simp add: print_def trace_only_emit)

lemma trace_only_println [trace_only_intros]: "trace_only (println t)"
  by (simp add: println_def trace_only_emit)

lemma trace_only_bind [trace_only_intros]:
  assumes m: "trace_only m" and f: "\<And>x. trace_only (f x)"
  shows "trace_only (bindP m f)"
proof (rule trace_onlyI)
  fix s
  obtain as where as: "snd (m s) = s\<lparr>trace := trace s @ as\<rparr>"
    "list_all (\<lambda>a. \<not> is_pay a \<and> \<not> is_write a) as"
    using m by (auto simp: trace_only_def)
  obtain r s' where run: "m s = (r, s')" by fastforce
  show "\<exists>as. snd (bindP m f s) = s\<lparr>trace := trace s @ as\<rparr> \<and> list_all (\<lambda>a. \<not> is_pay a \<and> \<not> is_write a) as"
  proof (cases r)
    case (Val x)
    obtain bs where "snd (f x s') = s'\<lparr>trace := trace s' @ bs\<rparr>"
      "list_all (\<lambda>a. \<not> is_pay a \<and> \<not> is_write a) bs"
      using f [of x] unfolding trace_only_def by blast
    with as run Val show ?thesis
      by (intro exI [of _ "as @ bs"]) (simp add: run_simps)
  next
    case (Panic p)
    with as run show ?thesis
      by (intro exI [of _ as]) (simp add: run_simps)
  qed
qed

lemma trace_only_then [trace_only_intros]: "trace_only m \<Longrightarrow> trace_only n \<Longrightarrow> trace_only (thenP m n)"
  by (simp add: thenP_def trace_only_bind)

lemma trace_only_unwrap [trace_only_intros]: "trace_only (unwrap x)" "trace_only (unwrap_res r)"
  by (cases x; simp add: trace_only_ret trace_only_panic) (cases r; simp add: trace_only_ret trace_only_panic)

lemma trace_only_assert [trace_only_intros]: "trace_only (assertP b)"
  by (simp add: assertP_def trace_only_ret trace_only_panic)

lemma trace_only_if [trace_only_intros]:
  "trace_only m \<Longrightarrow> trace_only n \<Longrightarrow> trace_only (if b then m else n)"
  by simp

lemma trace_only_case_option [trace_only_intros]:
  "trace_only m \<Longrightarrow> (\<And>v. trace_only (f v)) \<Longrightarrow> trace_only (case x of None \<Rightarrow> m | Some v \<Rightarrow> f v)"
  by (cases x) simp_all

lemma trace_only_case_sum [trace_only_intros]:
  "(\<And>e. trace_only (g e)) \<Longrightarrow> (\<And>v. trace_only (f v)) \<Longrightarrow>
   trace_only (case x of Inl e \<Rightarrow> g e | Inr v \<Rightarrow> f v)"
  by (cases x) simp_all

lemma trace_only_case_prod [trace_only_intros]:
  "(\<And>a b. trace_only (f a b)) \<Longrightarrow> trace_only (case x of (a, b) \<Rightarrow> f a b)"
  by (cases x) simp

lemma trace_only_case_list [trace_only_intros]:
  "trace_only m \<Longrightarrow> (\<And>v vs. trace_only (f v vs)) \<Longrightarrow>
   trace_only (case x of [] \<Rightarrow> m | v # vs \<Rightarrow> f v vs)"
  by (cases x) simp_all

lemma trace_only_Let [trace_only_intros]: "(\<And>v. trace_only (f v)) \<Longrightarrow> trace_only (let v = x in f v)"
  by simp

lemma trace_only_forP [trace_only_intros]: "(\<And>x. trace_only (f x)) \<Longrightarrow> trace_only (forP xs f)"
  by (induction xs) (simp_all add: trace_only_ret trace_only_then)

text \<open>What such a program keeps.\<close>

lemma keeps_trace_only:
  assumes "trace_only m"
    and "\<And>s as. I s \<Longrightarrow> list_all (\<lambda>a. \<not> is_pay a \<and> \<not> is_write a) as \<Longrightarrow> I (s\<lparr>trace := trace s @ as\<rparr>)"
    and "\<And>s. I s \<Longrightarrow> E s"
  shows "keeps I E m"
proof (rule keepsI)
  fix s assume s: "I s"
  obtain as where "snd (m s) = s\<lparr>trace := trace s @ as\<rparr>"
    "list_all (\<lambda>a. \<not> is_pay a \<and> \<not> is_write a) as"
    using assms(1) by (auto simp: trace_only_def)
  then have "I (snd (m s))" using assms(2) [OF s] by simp
  with assms(3) show "wp m (\<lambda>_. I) (\<lambda>_. E) s"
    by (auto simp: wp_def split: prod.splits outcome.splits)
qed

end
