(* ===== verification/Convert.thy ===== *)
theory Convert
  imports Ldk_Types
begin

text \<open>
  \<open>src/convert.rs\<close>: the answers of bitcoind as Rust structs. The JSON value and its accessors are
  \<open>serde_json\<close>'s, a parameter \<open>'j json_ops\<close> of every conversion, and so are the parsers of the
  \<open>bitcoin\<close> crate. A conversion never returns an error: a field that is missing or of another type
  is a panic.
\<close>

section \<open>JSON and the parsers of the bitcoin crate\<close>

record 'j json_ops =
  j_index :: "'j \<Rightarrow> string \<Rightarrow> 'j"
  j_is_null :: "'j \<Rightarrow> bool"
  j_as_i64 :: "'j \<Rightarrow> int option"
  j_as_u64 :: "'j \<Rightarrow> u64 option"
  j_as_f64 :: "'j \<Rightarrow> f64 option"
  j_as_str :: "'j \<Rightarrow> string option"
  j_as_bool :: "'j \<Rightarrow> bool option"
  j_as_array :: "'j \<Rightarrow> 'j list option"

text \<open>An \<open>Address\<close>: its witness program, if it has one, and its script.\<close>

datatype program_kind = P2wpkh | P2tr | OtherProgram

record address =
  addr_program :: "(program_kind \<times> bytes) option"
  addr_script :: bytes

record bitcoin_lib =
  parse_txid :: "string \<Rightarrow> bytes option"
  parse_block_hash :: "string \<Rightarrow> bytes option"
  parse_address :: "string \<Rightarrow> address option"
  amount_from_btc :: "f64 \<Rightarrow> u64 option"

section \<open>The structs\<close>

record funded_tx =
  changepos :: int
  funded_hex :: string

datatype raw_tx = RawTx string

record signed_tx =
  complete :: bool
  signed_hex :: string

datatype new_address = NewAddress string

text \<open>\<open>FeeResponse\<close>, and \<open>MempoolMinFeeResponse\<close>, which has the same fields.\<close>

record fee_response =
  feerate_sat_per_kw :: "u32 option"
  errored :: bool

record blockchain_info =
  latest_height :: u64
  latest_blockhash :: bytes
  chain :: string

record list_unspent_utxo =
  utxo_txid :: bytes
  utxo_vout :: u32
  utxo_amount :: u64
  utxo_address :: address

section \<open>The conversions\<close>

definition funded_tx_of :: "'j json_ops \<Rightarrow> 'j \<Rightarrow> ('s, funded_tx) prog" where
  "funded_tx_of J r =
    bindP (unwrap (j_as_i64 J (j_index J r ''changepos''))) (\<lambda>c.
    bindP (unwrap (j_as_str J (j_index J r ''hex''))) (\<lambda>h.
    ret \<lparr>changepos = c, funded_hex = h\<rparr>))"

definition raw_tx_of :: "'j json_ops \<Rightarrow> 'j \<Rightarrow> ('s, raw_tx) prog" where
  "raw_tx_of J r = bindP (unwrap (j_as_str J r)) (\<lambda>h. ret (RawTx h))"

definition signed_tx_of :: "'j json_ops \<Rightarrow> 'j \<Rightarrow> ('s, signed_tx) prog" where
  "signed_tx_of J r =
    bindP (unwrap (j_as_str J (j_index J r ''hex''))) (\<lambda>h.
    bindP (unwrap (j_as_bool J (j_index J r ''complete''))) (\<lambda>c.
    ret \<lparr>complete = c, signed_hex = h\<rparr>))"

definition new_address_of :: "'j json_ops \<Rightarrow> 'j \<Rightarrow> ('s, new_address) prog" where
  "new_address_of J r = bindP (unwrap (j_as_str J r)) (\<lambda>a. ret (NewAddress a))"

text \<open>
  BTC per 1000 virtual bytes to satoshi per 1000 weight units:
  \<open>(feerate_btc_per_kvbyte * 100_000_000.0 / 4.0).round() as u32\<close>.
\<close>

definition sat_per_kw :: "f64 \<Rightarrow> u32" where
  "sat_per_kw feerate = f64_as_u32 (f64_round (f64_div (f64_mul feerate (Finite 100000000)) (Finite 4)))"

definition fee_response_of :: "'j json_ops \<Rightarrow> 'j \<Rightarrow> ('s, fee_response) prog" where
  "fee_response_of J r =
    (let err = \<not> j_is_null J (j_index J r ''errors'') in
     ret \<lparr>feerate_sat_per_kw = map_option sat_per_kw (j_as_f64 J (j_index J r ''feerate'')),
          errored = err\<rparr>)"

definition mempool_min_fee_of :: "'j json_ops \<Rightarrow> 'j \<Rightarrow> ('s, fee_response) prog" where
  "mempool_min_fee_of J r =
    (let err = \<not> j_is_null J (j_index J r ''errors'') in
     thenP (assertP (j_as_u64 J (j_index J r ''maxmempool'') = Some 300000000))
     (ret \<lparr>feerate_sat_per_kw = map_option sat_per_kw (j_as_f64 J (j_index J r ''mempoolminfee'')),
           errored = err\<rparr>))"

definition blockchain_info_of ::
  "bitcoin_lib \<Rightarrow> 'j json_ops \<Rightarrow> 'j \<Rightarrow> ('s, blockchain_info) prog" where
  "blockchain_info_of B J r =
    bindP (unwrap (j_as_u64 J (j_index J r ''blocks''))) (\<lambda>h.
    bindP (unwrap (j_as_str J (j_index J r ''bestblockhash''))) (\<lambda>s.
    bindP (unwrap (parse_block_hash B s)) (\<lambda>b.
    bindP (unwrap (j_as_str J (j_index J r ''chain''))) (\<lambda>c.
    ret \<lparr>latest_height = h, latest_blockhash = b, chain = c\<rparr>))))"

definition utxo_of :: "bitcoin_lib \<Rightarrow> 'j json_ops \<Rightarrow> 'j \<Rightarrow> ('s, list_unspent_utxo) prog" where
  "utxo_of B J u =
    bindP (unwrap (j_as_str J (j_index J u ''txid''))) (\<lambda>ts.
    bindP (unwrap (parse_txid B ts)) (\<lambda>t.
    bindP (unwrap (j_as_u64 J (j_index J u ''vout''))) (\<lambda>v.
    bindP (unwrap (j_as_f64 J (j_index J u ''amount''))) (\<lambda>f.
    bindP (unwrap (amount_from_btc B f)) (\<lambda>a.
    bindP (unwrap (j_as_str J (j_index J u ''address''))) (\<lambda>as.
    bindP (unwrap (parse_address B as)) (\<lambda>addr.
    ret \<lparr>utxo_txid = t, utxo_vout = ucast v, utxo_amount = a, utxo_address = addr\<rparr>)))))))"

fun mapP :: "('a \<Rightarrow> ('s, 'b) prog) \<Rightarrow> 'a list \<Rightarrow> ('s, 'b list) prog" where
  "mapP f [] = ret []"
| "mapP f (x # xs) = bindP (f x) (\<lambda>y. bindP (mapP f xs) (\<lambda>ys. ret (y # ys)))"

definition list_unspent_of ::
  "bitcoin_lib \<Rightarrow> 'j json_ops \<Rightarrow> 'j \<Rightarrow> ('s, list_unspent_utxo list) prog" where
  "list_unspent_of B J r = bindP (unwrap (j_as_array J r)) (\<lambda>us. mapP (utxo_of B J) us)"

section \<open>Conversions do not touch the state\<close>

text \<open>A program that leaves the state alone, whatever its outcome.\<close>

definition pure_prog :: "('s, 'a) prog \<Rightarrow> bool" where
  "pure_prog m \<longleftrightarrow> (\<forall>s. snd (m s) = s)"

named_theorems pure_intros

lemma pure_ret [pure_intros]: "pure_prog (ret x)"
  by (simp add: pure_prog_def run_simps)

lemma pure_unwrap [pure_intros]: "pure_prog (unwrap x)"
  by (cases x) (simp_all add: pure_prog_def run_simps)

lemma pure_assert [pure_intros]: "pure_prog (assertP b)"
  by (simp add: pure_prog_def assertP_def run_simps)

lemma pure_bind [pure_intros]: "pure_prog m \<Longrightarrow> (\<And>x. pure_prog (f x)) \<Longrightarrow> pure_prog (bindP m f)"
  unfolding pure_prog_def bindP_def
  by (auto split: prod.splits outcome.splits) (metis snd_conv)+

lemma pure_then [pure_intros]: "pure_prog m \<Longrightarrow> pure_prog n \<Longrightarrow> pure_prog (thenP m n)"
  by (simp add: thenP_def pure_bind)

lemma pure_mapP [pure_intros]: "(\<And>x. pure_prog (f x)) \<Longrightarrow> pure_prog (mapP f xs)"
  by (induction xs) (auto intro!: pure_intros)

lemma keeps_pure:
  assumes "pure_prog m" and "\<And>s. I s \<Longrightarrow> E s"
  shows "keeps I E m"
proof (rule keepsI)
  fix s assume "I s"
  moreover have "snd (m s) = s" using assms(1) by (simp add: pure_prog_def)
  ultimately show "wp m (\<lambda>_. I) (\<lambda>_. E) s"
    using assms(2) by (auto simp: wp_def split: prod.splits outcome.splits)
qed

lemma pure_conversions:
  "pure_prog (funded_tx_of J r)" "pure_prog (raw_tx_of J r)" "pure_prog (signed_tx_of J r)"
  "pure_prog (new_address_of J r)" "pure_prog (fee_response_of J r)"
  "pure_prog (mempool_min_fee_of J r)" "pure_prog (blockchain_info_of B J r)"
  "pure_prog (list_unspent_of B J r)"
  unfolding funded_tx_of_def raw_tx_of_def signed_tx_of_def new_address_of_def fee_response_of_def
    mempool_min_fee_of_def blockchain_info_of_def list_unspent_of_def utxo_of_def Let_def
  by (intro pure_intros)+

section \<open>Accuracy of the feerate conversion\<close>

lemma sat_per_kw_rounded:
  assumes "1 / 2 ^ 1000 \<le> r" and "r \<le> 170"
  shows "\<exists>q. sat_per_kw (Finite r) = f64_as_u32 (Finite (of_int (round_away q)))
    \<and> \<bar>q - r * 25000000\<bar> \<le> 1 / 1000 \<and> 0 \<le> q"
proof -
  have tiny: "(1 / 2 ^ 1022 :: rat) \<le> 1 / 2 ^ 1002" "(1 / 2 ^ 1002 :: rat) \<le> 1 / 2 ^ 1001"
    "(1 / 2 ^ 1001 :: rat) \<le> 1 / 2 ^ 1000" "(0 :: rat) < 1 / 2 ^ 1000"
    by (simp_all add: divide_simps power_increasing)
  have r0: "0 \<le> r" using assms(1) tiny(4) by linarith
  have "r * 1 \<le> r * 100000000" using r0 by (intro mult_left_mono) auto
  then have lo: "1 / 2 ^ 1022 \<le> r * 100000000" using assms(1) tiny by linarith
  have hi: "r * 100000000 \<le> 2 ^ 63" using assms(2) by simp
  obtain a where a: "f64_of (r * 100000000) = Finite a" "\<bar>a - r * 100000000\<bar> \<le> r * 100000000 / 2 ^ 53"
    using f64_of_close [OF lo hi] by blast
  have a_lo: "r \<le> a / 4" and a_hi: "a / 4 \<le> r * 25000001"
    using a(2) r0 by (simp_all add: abs_if field_simps split: if_splits)
  have lo': "1 / 2 ^ 1022 \<le> a / 4" using assms(1) tiny a_lo by linarith
  have hi': "a / 4 \<le> 2 ^ 63" using a_hi assms(2) by simp
  obtain q where q: "f64_of (a / 4) = Finite q" "\<bar>q - a / 4\<bar> \<le> a / 4 / 2 ^ 53" "0 \<le> q"
    using f64_of_close [OF lo' hi'] by blast
  have "\<bar>a / 4 - r * 25000000\<bar> \<le> 1 / 2000" using a(2) assms(2) by (simp add: abs_if split: if_splits)
  moreover have "\<bar>q - a / 4\<bar> \<le> 1 / 2000"
  proof -
    have "a / 4 / 2 ^ 53 \<le> r * 25000001 / 2 ^ 53" using a_hi by (intro divide_right_mono) auto
    then show ?thesis using q(2) assms(2) by simp
  qed
  ultimately have "\<bar>q - r * 25000000\<bar> \<le> 1 / 1000" by linarith
  moreover have "sat_per_kw (Finite r) = f64_as_u32 (Finite (of_int (round_away q)))"
    using a(1) q(1) by (simp add: sat_per_kw_def)
  ultimately show ?thesis using q(3) by blast
qed

lemma round_away_near: "\<bar>q - of_nat n\<bar> < 1 / 2 \<Longrightarrow> 0 \<le> q \<Longrightarrow> round_away q = int n"
  unfolding round_away_def by (simp add: floor_eq_iff abs_if split: if_splits)

lemma f64_as_u32_of_nat: "n < 2 ^ 32 \<Longrightarrow> unat (f64_as_u32 (Finite (of_int (int n)))) = n"
  by (simp add: unsigned_of_nat take_bit_nat_eq_self)

text \<open>
  C38: the feerate conversion of \<open>FeeResponse\<close> gives the nearest number of satoshi per 1000 weight
  units: a feerate (in BTC per 1000 virtual bytes, up to 170) whose exact value in satoshi per 1000
  weight units is within 0.498 of an integer converts to that integer, although the source scales it by
  two roundings in binary floating point.
\<close>

theorem sat_per_kw_nearest:
  assumes "1 / 2 ^ 1000 \<le> r" and "r \<le> 170" and "\<bar>r * 25000000 - of_nat n\<bar> \<le> 498 / 1000"
  shows "unat (sat_per_kw (Finite r)) = n"
proof -
  obtain q where q: "sat_per_kw (Finite r) = f64_as_u32 (Finite (of_int (round_away q)))"
    "\<bar>q - r * 25000000\<bar> \<le> 1 / 1000" "0 \<le> q"
    using sat_per_kw_rounded [OF assms(1,2)] by blast
  have "\<bar>q - of_nat n\<bar> \<le> 1 / 1000 + 498 / 1000" using q(2) assms(3) by linarith
  then have "\<bar>q - of_nat n\<bar> < 1 / 2" by simp
  then have r: "round_away q = int n" using q(3) by (rule round_away_near)
  have "(of_nat n :: rat) \<le> of_nat 4250000001" using assms(2,3) unfolding of_nat_numeral by linarith
  then have "n < 2 ^ 32" unfolding of_nat_le_iff by simp
  then show ?thesis unfolding q(1) r by (rule f64_as_u32_of_nat)
qed

theorem sat_per_kw_nearest_witness:
  "unat (sat_per_kw (Finite (1 / 100000))) = 250"
  by (rule sat_per_kw_nearest) (simp_all add: divide_simps)

end
