(* ===== verification/Bitcoind_Client.thy ===== *)
theory Bitcoind_Client
  imports Convert
begin

text \<open>
  \<open>src/bitcoind_client.rs\<close>: the client of bitcoind's RPC interface. It keeps one fee estimate per
  confirmation target, which a background task refreshes, and serves LDK as fee estimator,
  broadcaster, wallet and change destination. The RPC server's answers and the functions of the
  \<open>bitcoin\<close> crate are parameters.
\<close>

section \<open>State and parameters\<close>

datatype confirmation_target =
    MaximumFeeEstimate
  | UrgentOnChainSweep
  | MinAllowedAnchorChannelRemoteFee
  | MinAllowedNonAnchorChannelRemoteFee
  | AnchorChannelFee
  | NonAnchorChannelFee
  | ChannelCloseMinimum
  | OutputSpendingFee

text \<open>The targets can be listed, so that a statement about all of them can be evaluated.\<close>

instantiation confirmation_target :: enum
begin

definition
  "enum_class.enum = [MaximumFeeEstimate, UrgentOnChainSweep, MinAllowedAnchorChannelRemoteFee,
     MinAllowedNonAnchorChannelRemoteFee, AnchorChannelFee, NonAnchorChannelFee, ChannelCloseMinimum, OutputSpendingFee]"

definition
  "enum_class.enum_all P \<longleftrightarrow> list_all P (enum_class.enum :: confirmation_target list)"

definition
  "enum_class.enum_ex P \<longleftrightarrow> list_ex P (enum_class.enum :: confirmation_target list)"

instance
proof
  show all: "(UNIV :: confirmation_target set) = set enum_class.enum"
    by (auto simp: enum_confirmation_target_def intro: confirmation_target.exhaust)
  show "distinct (enum_class.enum :: confirmation_target list)"
    by (simp add: enum_confirmation_target_def)
  show "enum_class.enum_all P \<longleftrightarrow> Ball UNIV P" for P :: "confirmation_target \<Rightarrow> bool"
    by (simp only: enum_all_confirmation_target_def list_all_iff all)
  show "enum_class.enum_ex P \<longleftrightarrow> Bex UNIV P" for P :: "confirmation_target \<Rightarrow> bool"
    by (simp only: enum_ex_confirmation_target_def list_ex_iff all)
qed

end

text \<open>The atomics behind \<open>fees\<close>, by target.\<close>

record client_state = world +
  fees :: "confirmation_target \<Rightarrow> u32 option"

text \<open>\<open>lightning::events::bump_transaction::Utxo\<close>.\<close>

record utxo =
  outpoint :: "bytes \<times> u32"
  out_value :: u64
  out_script :: bytes
  satisfaction_weight :: u64

text \<open>
  An \<open>std::io::Error\<close>, as far as it is looked at: the text of the error inside it (\<open>get_ref\<close>), which an
  error of the operating system does not have.
\<close>

type_synonym io_error = "string option"

record 'j rpc_lib =
  rpc :: "hist \<Rightarrow> string \<Rightarrow> json_arg list \<Rightarrow> io_error + 'j"
  json :: "'j json_ops"
  btc :: bitcoin_lib
  txid_of :: "'j \<Rightarrow> string + bytes"
  on_network :: "network \<Rightarrow> address \<Rightarrow> bool"
  wpkh_of :: "bytes \<Rightarrow> bytes option"
  xonly_of :: "bytes \<Rightarrow> bytes option"
  new_v0_p2wpkh :: "bytes \<times> u32 \<Rightarrow> u64 \<Rightarrow> bytes \<Rightarrow> utxo"
  serialize_hex :: "bytes \<Rightarrow> string"
  encode_unsigned :: "bytes \<Rightarrow> bytes"
  decode_tx :: "bytes \<Rightarrow> bytes option"
  base64 :: "string \<Rightarrow> string"
  witness_scale_factor :: u64

text \<open>The fields of \<open>BitcoindClient\<close> that do not change.\<close>

record client =
  cl_network :: network
  cl_host :: string
  cl_port :: u16
  cl_rpc_user :: string
  cl_rpc_password :: string

text \<open>\<open>call_method::<T>\<close>: the request, and the conversion of a successful answer.\<close>

definition call_method ::
  "('j, 'l) rpc_lib_scheme \<Rightarrow> string \<Rightarrow> json_arg list \<Rightarrow> ('j \<Rightarrow> ('b world_scheme, 't) prog) \<Rightarrow>
   ('b world_scheme, io_error + 't) prog" where
  "call_method R m args conv =
    bindP (call (Rpc m args) (\<lambda>h. rpc R h m args)) (\<lambda>r.
      case r of Inl e \<Rightarrow> ret (Inl e) | Inr j \<Rightarrow> bindP (conv j) (\<lambda>t. ret (Inr t)))"

section \<open>Fees\<close>

definition MIN_FEERATE :: u32 where
  "MIN_FEERATE = 253"

text \<open>The table \<open>new\<close> builds, one \<open>insert\<close> per target.\<close>

definition initial_fees :: "confirmation_target \<Rightarrow> u32 option" where
  "initial_fees = Map.empty(
     MaximumFeeEstimate \<mapsto> 50000,
     UrgentOnChainSweep \<mapsto> 5000,
     MinAllowedAnchorChannelRemoteFee \<mapsto> MIN_FEERATE,
     MinAllowedNonAnchorChannelRemoteFee \<mapsto> MIN_FEERATE,
     AnchorChannelFee \<mapsto> MIN_FEERATE,
     NonAnchorChannelFee \<mapsto> 2000,
     ChannelCloseMinimum \<mapsto> MIN_FEERATE,
     OutputSpendingFee \<mapsto> MIN_FEERATE)"

definition get_est_sat_per_1000_weight ::
  "confirmation_target \<Rightarrow> ('b client_state_scheme, u32) prog" where
  "get_est_sat_per_1000_weight t = bindP (gets (\<lambda>s. fees s t)) unwrap"

text \<open>\<open>fees.get(&t).unwrap().store(v, Ordering::Release)\<close>: the argument is evaluated last.\<close>

definition store_fee ::
  "confirmation_target \<Rightarrow> ('b client_state_scheme, u32) prog \<Rightarrow> ('b client_state_scheme, unit) prog" where
  "store_fee t m =
    bindP (gets (\<lambda>s. fees s t)) (\<lambda>e. bindP (unwrap e) (\<lambda>_.
      bindP m (\<lambda>v. modify (\<lambda>s. s\<lparr>fees := (fees s)(t \<mapsto> v)\<rparr>))))"

text \<open>The \<open>match\<close> after each request: at least the minimum, or the default without an estimate.\<close>

definition estimate :: "u32 \<Rightarrow> fee_response \<Rightarrow> u32" where
  "estimate dflt resp =
    (case feerate_sat_per_kw resp of Some feerate \<Rightarrow> max feerate MIN_FEERATE | None \<Rightarrow> dflt)"

definition smart_fee ::
  "('j, 'l) rpc_lib_scheme \<Rightarrow> int \<Rightarrow> string \<Rightarrow> u32 \<Rightarrow> ('b client_state_scheme, u32) prog" where
  "smart_fee R conf_target mode dflt =
    bindP (call_method R ''estimatesmartfee'' [JInt conf_target, JText mode]
        (fee_response_of (json R))) (\<lambda>r.
    bindP (unwrap_res r) (\<lambda>resp. ret (estimate dflt resp)))"

text \<open>Subtraction of \<open>u32\<close>, which panics below zero where overflow checks are on.\<close>

definition sub_u32 :: "u32 \<Rightarrow> u32 \<Rightarrow> ('s, u32) prog" where
  "sub_u32 a b = (if b \<le> a then ret (a - b) else panic Overflow)"

text \<open>One round of the loop of \<open>poll_for_fee_estimates\<close>.\<close>

definition poll_once :: "('j, 'l) rpc_lib_scheme \<Rightarrow> ('b client_state_scheme, unit) prog" where
  "poll_once R =
    bindP (bindP (call_method R ''getmempoolinfo'' [] (mempool_min_fee_of (json R))) (\<lambda>r.
      bindP (unwrap_res r) (\<lambda>resp. ret (estimate MIN_FEERATE resp)))) (\<lambda>mempoolmin_estimate.
    bindP (smart_fee R 144 ''ECONOMICAL'' MIN_FEERATE) (\<lambda>background_estimate.
    bindP (smart_fee R 18 ''ECONOMICAL'' 2000) (\<lambda>normal_estimate.
    bindP (smart_fee R 6 ''CONSERVATIVE'' 5000) (\<lambda>high_prio_estimate.
    bindP (smart_fee R 2 ''CONSERVATIVE'' 50000) (\<lambda>very_high_prio_estimate.
    thenP (store_fee MaximumFeeEstimate (ret very_high_prio_estimate))
    (thenP (store_fee UrgentOnChainSweep (ret high_prio_estimate))
    (thenP (store_fee MinAllowedAnchorChannelRemoteFee (ret mempoolmin_estimate))
    (thenP (store_fee MinAllowedNonAnchorChannelRemoteFee (sub_u32 background_estimate 250))
    (thenP (store_fee AnchorChannelFee (ret background_estimate))
    (thenP (store_fee NonAnchorChannelFee (ret normal_estimate))
    (thenP (store_fee ChannelCloseMinimum (ret background_estimate))
    (thenP (store_fee OutputSpendingFee (ret background_estimate))
    (emit (SleepMillis 60000))))))))))))))"

section \<open>Requests\<close>

definition rpc_credentials :: "('j, 'l) rpc_lib_scheme \<Rightarrow> string \<Rightarrow> string \<Rightarrow> string" where
  "rpc_credentials R user password = base64 R (user @ '':'' @ password)"

text \<open>\<open>get_new_rpc_client\<close>: the credentials and the endpoint it connects with.\<close>

definition get_new_rpc_client :: "('j, 'l) rpc_lib_scheme \<Rightarrow> client \<Rightarrow> string \<times> string \<times> u16" where
  "get_new_rpc_client R c =
    (rpc_credentials R (cl_rpc_user c) (cl_rpc_password c), cl_host c, cl_port c)"

definition create_raw_transaction ::
  "('j, 'l) rpc_lib_scheme \<Rightarrow> (string \<times> f64) list list \<Rightarrow> ('b world_scheme, raw_tx) prog" where
  "create_raw_transaction R outputs =
    bindP (call_method R ''createrawtransaction''
        [JArray [], JArray (map (\<lambda>o'. JObject (map (\<lambda>(a, v). (a, JFloat v)) o')) outputs)]
        (raw_tx_of (json R))) unwrap_res"

definition fund_raw_transaction ::
  "('j, 'l) rpc_lib_scheme \<Rightarrow> raw_tx \<Rightarrow> ('b client_state_scheme, funded_tx) prog" where
  "fund_raw_transaction R tx =
    (case tx of RawTx hex \<Rightarrow>
      bindP (get_est_sat_per_1000_weight NonAnchorChannelFee) (\<lambda>est.
      bindP (call_method R ''fundrawtransaction''
        [JText hex,
         JObject [(''fee_rate'', JFloat (f64_div (u32_as_f64 est) (Finite 250))),
                  (''replaceable'', JBool False)]]
        (funded_tx_of (json R))) unwrap_res))"

definition send_raw_transaction ::
  "('j, 'l) rpc_lib_scheme \<Rightarrow> raw_tx \<Rightarrow> ('b world_scheme, unit) prog" where
  "send_raw_transaction R tx =
    (case tx of RawTx hex \<Rightarrow>
      bindP (call_method R ''sendrawtransaction'' [JText hex] (\<lambda>j. ret (txid_of R j))) (\<lambda>r.
      bindP (unwrap_res r) (\<lambda>t. bindP (unwrap_res t) (\<lambda>_. ret ()))))"

definition sign_raw_transaction_with_wallet ::
  "('j, 'l) rpc_lib_scheme \<Rightarrow> string \<Rightarrow> ('b world_scheme, signed_tx) prog" where
  "sign_raw_transaction_with_wallet R tx_hex =
    bindP (call_method R ''signrawtransactionwithwallet'' [JText tx_hex] (signed_tx_of (json R)))
      unwrap_res"

definition get_new_address ::
  "('j, 'l) rpc_lib_scheme \<Rightarrow> client \<Rightarrow> ('b world_scheme, address) prog" where
  "get_new_address R c =
    bindP (call_method R ''getnewaddress'' [JText ''LDK output address''] (new_address_of (json R)))
      (\<lambda>r. bindP (unwrap_res r) (\<lambda>na. case na of NewAddress a \<Rightarrow>
        bindP (unwrap (parse_address (btc R) a)) (\<lambda>addr.
        if on_network R (cl_network c) addr then ret addr else panic UnwrapErr)))"

definition get_blockchain_info ::
  "('j, 'l) rpc_lib_scheme \<Rightarrow> ('b world_scheme, blockchain_info) prog" where
  "get_blockchain_info R =
    bindP (call_method R ''getblockchaininfo'' [] (blockchain_info_of (btc R) (json R))) unwrap_res"

definition list_unspent ::
  "('j, 'l) rpc_lib_scheme \<Rightarrow> ('b world_scheme, list_unspent_utxo list) prog" where
  "list_unspent R =
    bindP (call_method R ''listunspent'' [] (list_unspent_of (btc R) (json R))) unwrap_res"

text \<open>
  \<open>BitcoindClient::new\<close>: one request checks the credentials; then the table of fees is filled and
  the task that refreshes it is started.
\<close>

definition client_new ::
  "('j, 'l) rpc_lib_scheme \<Rightarrow> string \<Rightarrow> u16 \<Rightarrow> string \<Rightarrow> string \<Rightarrow> network \<Rightarrow>
   ('b client_state_scheme, string + client) prog" where
  "client_new R host port rpc_user rpc_password network =
    bindP (call_method R ''getblockchaininfo'' [] (blockchain_info_of (btc R) (json R))) (\<lambda>dummy.
      case dummy of
        Inl _ \<Rightarrow> ret (Inl ''Failed to make initial call to bitcoind - please check your RPC user/password and access settings'')
      | Inr _ \<Rightarrow>
          thenP (modify (\<lambda>s. s\<lparr>fees := initial_fees\<rparr>))
          (thenP (emit (Spawn ''poll_for_fee_estimates''))
          (ret (Inr \<lparr>cl_network = network, cl_host = host, cl_port = port, cl_rpc_user = rpc_user,
             cl_rpc_password = rpc_password\<rparr>))))"

section \<open>Broadcaster and wallet\<close>

text \<open>The \<open>Debug\<close> text of a vector of strings of hexadecimal digits.\<close>

definition show_strings :: "string list \<Rightarrow> string" where
  "show_strings ss =
    ''['' @ concat (map (\<lambda>(i, s). (if i = 0 then [] else '', '') @ [CHR 0x22] @ s @ [CHR 0x22])
      (enumerate 0 ss)) @ '']''"

definition broadcast_warning :: string where
  "broadcast_warning = ''Warning, failed to broadcast a transaction, this is likely okay but may indicate an error: ''"

text \<open>The task \<open>broadcast_transactions\<close> spawns.\<close>

definition broadcast_transactions ::
  "('j, 'l) rpc_lib_scheme \<Rightarrow> bytes list \<Rightarrow> ('b world_scheme, unit) prog" where
  "broadcast_transactions R txs =
    (let txn = map (serialize_hex R) txs in
     bindP (if length txn = 1
            then call_method R ''sendrawtransaction'' [JText (hd txn)] ret
            else call_method R ''submitpackage'' [JArray (map JText txn)] ret) (\<lambda>res.
       case res of
         Inr _ \<Rightarrow> ret ()
       | Inl e \<Rightarrow>
           bindP (unwrap e) (\<lambda>err_str.
           thenP (emit (Log (broadcast_warning @ err_str @ nl @ ''Transactions: '' @ show_strings txn)))
           (print (broadcast_warning @ err_str @ nl @ ''> '')))))"

text \<open>Satisfaction weight of a key spend: empty script, one witness item of 64 bytes.\<close>

definition p2tr_weight :: "('j, 'l) rpc_lib_scheme \<Rightarrow> u64" where
  "p2tr_weight R = 1 * witness_scale_factor R + 1 + 1 + 64"

definition spendable_utxo :: "('j, 'l) rpc_lib_scheme \<Rightarrow> list_unspent_utxo \<Rightarrow> utxo option" where
  "spendable_utxo R u =
    (let op = (utxo_txid u, utxo_vout u); value = utxo_amount u in
     case addr_program (utxo_address u) of
       Some (P2wpkh, prog) \<Rightarrow> map_option (new_v0_p2wpkh R op value) (wpkh_of R prog)
     | Some (P2tr, prog) \<Rightarrow>
         map_option (\<lambda>_. \<lparr>outpoint = op, out_value = value,
             out_script = addr_script (utxo_address u), satisfaction_weight = p2tr_weight R\<rparr>)
           (xonly_of R prog)
     | _ \<Rightarrow> None)"

definition list_confirmed_utxos :: "('j, 'l) rpc_lib_scheme \<Rightarrow> ('b world_scheme, utxo list) prog" where
  "list_confirmed_utxos R =
    bindP (list_unspent R) (\<lambda>utxos. ret (List.map_filter (spendable_utxo R) utxos))"

definition get_change_script ::
  "('j, 'l) rpc_lib_scheme \<Rightarrow> client \<Rightarrow> ('b world_scheme, bytes) prog" where
  "get_change_script R c = bindP (get_new_address R c) (\<lambda>a. ret (addr_script a))"

definition get_change_destination_script ::
  "('j, 'l) rpc_lib_scheme \<Rightarrow> client \<Rightarrow> ('b world_scheme, bytes) prog" where
  "get_change_destination_script R c = bindP (get_new_address R c) (\<lambda>a. ret (addr_script a))"

definition sign_psbt ::
  "('j, 'l) rpc_lib_scheme \<Rightarrow> bytes \<Rightarrow> ('b world_scheme, bytes option) prog" where
  "sign_psbt R psbt =
    (let tx_bytes = encode_unsigned R psbt; tx_hex = hex_str tx_bytes in
     bindP (sign_raw_transaction_with_wallet R tx_hex) (\<lambda>signed_tx.
       case to_vec (signed_hex signed_tx) of
         None \<Rightarrow> ret None
       | Some signed_tx_bytes \<Rightarrow> ret (decode_tx R signed_tx_bytes)))"

section \<open>Blocks\<close>

text \<open>
  \<open>impl BlockSource for BitcoindClient\<close>: the three requests are those of the RPC client of
  \<open>lightning-block-sync\<close>, whose headers and blocks are only passed on.
\<close>

record ('hdr, 'blk) block_rpc =
  rpc_get_header :: "hist \<Rightarrow> bytes \<Rightarrow> u32 option \<Rightarrow> string + 'hdr"
  rpc_get_block :: "hist \<Rightarrow> bytes \<Rightarrow> string + 'blk"
  rpc_get_best_block :: "hist \<Rightarrow> string + bytes \<times> u32 option"

definition get_header ::
  "('hdr, 'blk, 'l) block_rpc_scheme \<Rightarrow> bytes \<Rightarrow> u32 option \<Rightarrow> ('b world_scheme, string + 'hdr) prog" where
  "get_header B header_hash height_hint = ask (\<lambda>h. rpc_get_header B h header_hash height_hint)"

definition get_block :: "('hdr, 'blk, 'l) block_rpc_scheme \<Rightarrow> bytes \<Rightarrow> ('b world_scheme, string + 'blk) prog" where
  "get_block B header_hash = ask (\<lambda>h. rpc_get_block B h header_hash)"

definition get_best_block :: "('hdr, 'blk, 'l) block_rpc_scheme \<Rightarrow> ('b world_scheme, string + bytes \<times> u32 option) prog" where
  "get_best_block B = ask (rpc_get_best_block B)"

section \<open>Lemmas on requests\<close>

lemma wp_pure:
  assumes "pure_prog m" and "\<And>x. m s = (Val x, s) \<Longrightarrow> Q x s" and "\<And>p. m s = (Panic p, s) \<Longrightarrow> E p s"
  shows "wp m Q E s"
proof -
  have "snd (m s) = s" using assms(1) by (simp add: pure_prog_def)
  with assms(2,3) show ?thesis
    by (auto simp: wp_def split: prod.splits outcome.splits)
qed

lemma wp_call_method [wp_simps]:
  "wp (call_method R m args conv) Q E s =
     (let s' = s\<lparr>trace := trace s @ [Rpc m args]\<rparr> in
      case rpc R (trace s) m args of
        Inl e \<Rightarrow> Q (Inl e) s'
      | Inr j \<Rightarrow> wp (conv j) (\<lambda>x. Q (Inr x)) E s')"
  by (simp add: call_method_def wp_simps Let_def split: sum.splits)

lemma wp_fee_response [wp_simps]:
  "wp (fee_response_of J r) Q E s =
     Q \<lparr>feerate_sat_per_kw = map_option sat_per_kw (j_as_f64 J (j_index J r ''feerate'')),
        errored = \<not> j_is_null J (j_index J r ''errors'')\<rparr> s"
  by (simp add: fee_response_of_def wp_simps Let_def)

lemma wp_mempool_min_fee [wp_simps]:
  "wp (mempool_min_fee_of J r) Q E s =
     (if j_as_u64 J (j_index J r ''maxmempool'') = Some 300000000
      then Q \<lparr>feerate_sat_per_kw = map_option sat_per_kw (j_as_f64 J (j_index J r ''mempoolminfee'')),
              errored = \<not> j_is_null J (j_index J r ''errors'')\<rparr> s
      else E AssertFailed s)"
  by (simp add: mempool_min_fee_of_def wp_simps Let_def)

lemma wp_store_fee [wp_simps]:
  "wp (store_fee t (ret v)) Q E s =
     (if fees s t = None then E UnwrapNone s else Q () (s\<lparr>fees := (fees s)(t \<mapsto> v)\<rparr>))"
  by (simp add: store_fee_def wp_simps split: option.splits)

lemma wp_store_fee_sub [wp_simps]:
  "wp (store_fee t (sub_u32 a b)) Q E s =
     (if fees s t = None then E UnwrapNone s
      else if b \<le> a then Q () (s\<lparr>fees := (fees s)(t \<mapsto> a - b)\<rparr>) else E Overflow s)"
  by (simp add: store_fee_def sub_u32_def wp_simps split: option.splits)

lemma wp_get_est [wp_simps]:
  "wp (get_est_sat_per_1000_weight t) Q E s =
     (case fees s t of None \<Rightarrow> E UnwrapNone s | Some v \<Rightarrow> Q v s)"
  by (simp add: get_est_sat_per_1000_weight_def wp_simps)

lemma estimate_ge: "MIN_FEERATE \<le> d \<Longrightarrow> MIN_FEERATE \<le> estimate d r"
  by (simp add: estimate_def split: option.splits)

section \<open>The fee table\<close>

text \<open>The least value each target may have: LDK's minimum, less 250 for the one target that lowers it.\<close>

definition fee_floor :: "confirmation_target \<Rightarrow> u32" where
  "fee_floor t = (if t = MinAllowedNonAnchorChannelRemoteFee then MIN_FEERATE - 250 else MIN_FEERATE)"

definition fees_ok :: "(confirmation_target \<Rightarrow> u32 option) \<Rightarrow> bool" where
  "fees_ok f \<longleftrightarrow> (\<forall>t. case f t of Some v \<Rightarrow> fee_floor t \<le> v | None \<Rightarrow> False)"

lemma fees_ok_iff: "fees_ok f \<longleftrightarrow> (\<forall>t. \<exists>v. f t = Some v \<and> fee_floor t \<le> v)"
  unfolding fees_ok_def by (rule arg_cong [where f = All], rule ext) (simp split: option.split)

lemma fees_okD: "fees_ok f \<Longrightarrow> f t \<noteq> None"
  by (auto simp: fees_ok_iff dest: spec [where x = t])

lemma fees_ok_initial: "fees_ok initial_fees"
  by code_simp

text \<open>The table after a round with the five estimates.\<close>

fun fee_table :: "u32 \<Rightarrow> u32 \<Rightarrow> u32 \<Rightarrow> u32 \<Rightarrow> u32 \<Rightarrow> confirmation_target \<Rightarrow> u32 option" where
  "fee_table mp bg no hi vh MaximumFeeEstimate = Some vh"
| "fee_table mp bg no hi vh UrgentOnChainSweep = Some hi"
| "fee_table mp bg no hi vh MinAllowedAnchorChannelRemoteFee = Some mp"
| "fee_table mp bg no hi vh MinAllowedNonAnchorChannelRemoteFee = Some (bg - 250)"
| "fee_table mp bg no hi vh AnchorChannelFee = Some bg"
| "fee_table mp bg no hi vh NonAnchorChannelFee = Some no"
| "fee_table mp bg no hi vh ChannelCloseMinimum = Some bg"
| "fee_table mp bg no hi vh OutputSpendingFee = Some bg"

lemma min_sub_250: "MIN_FEERATE \<le> bg \<Longrightarrow> MIN_FEERATE - 250 \<le> bg - 250 \<and> 250 \<le> bg"
  unfolding MIN_FEERATE_def by (simp add: word_le_nat_alt unat_sub)

lemma fee_table_ok:
  "MIN_FEERATE \<le> mp \<Longrightarrow> MIN_FEERATE \<le> bg \<Longrightarrow> MIN_FEERATE \<le> no \<Longrightarrow> MIN_FEERATE \<le> hi \<Longrightarrow>
   MIN_FEERATE \<le> vh \<Longrightarrow> fees_ok (fee_table mp bg no hi vh)"
  unfolding fees_ok_iff
proof
  fix t assume "MIN_FEERATE \<le> mp" "MIN_FEERATE \<le> bg" "MIN_FEERATE \<le> no" "MIN_FEERATE \<le> hi" "MIN_FEERATE \<le> vh"
  then show "\<exists>v. fee_table mp bg no hi vh t = Some v \<and> fee_floor t \<le> v"
    using min_sub_250 [of bg] by (cases t) (simp_all add: fee_floor_def)
qed

lemma smart_fee_spec:
  "MIN_FEERATE \<le> d \<Longrightarrow>
   wp (smart_fee R n mode d) (\<lambda>v s'. MIN_FEERATE \<le> v \<and> fees s' = fees s)
     (\<lambda>p s'. p \<noteq> Overflow \<and> fees s' = fees s) s"
  by (simp add: smart_fee_def wp_simps Let_def estimate_ge split: sum.splits)

lemma mempool_min_spec:
  "wp (bindP (call_method R ''getmempoolinfo'' [] (mempool_min_fee_of (json R)))
        (\<lambda>r. bindP (unwrap_res r) (\<lambda>resp. ret (estimate MIN_FEERATE resp))))
     (\<lambda>v s'. MIN_FEERATE \<le> v \<and> fees s' = fees s) (\<lambda>p s'. p \<noteq> Overflow \<and> fees s' = fees s) s"
  by (simp add: wp_simps Let_def estimate_ge split: sum.splits)

text \<open>Sequencing an estimate with the rest of the round.\<close>

lemma wp_estimate_then:
  assumes "wp m (\<lambda>v s'. MIN_FEERATE \<le> v \<and> fees s' = fees s) (\<lambda>p s'. p \<noteq> Overflow \<and> fees s' = fees s) s"
    and "fees s = f"
    and "\<And>v s'. MIN_FEERATE \<le> v \<Longrightarrow> fees s' = f \<Longrightarrow> wp (k v) Q (\<lambda>p s'. p \<noteq> Overflow \<and> fees s' = f) s'"
  shows "wp (bindP m k) Q (\<lambda>p s'. p \<noteq> Overflow \<and> fees s' = f) s"
  unfolding wp_bind by (rule wp_mono [OF assms(1)]) (simp_all add: assms(2,3))

lemma poll_once_spec:
  assumes "fees_ok (fees s)"
  shows "wp (poll_once R)
    (\<lambda>_ s'. \<exists>mp bg no hi vh. MIN_FEERATE \<le> mp \<and> MIN_FEERATE \<le> bg \<and> MIN_FEERATE \<le> no \<and>
        MIN_FEERATE \<le> hi \<and> MIN_FEERATE \<le> vh \<and> fees s' = fee_table mp bg no hi vh)
    (\<lambda>p s'. p \<noteq> Overflow \<and> fees s' = fees s) s"
  unfolding poll_once_def
proof (intro wp_estimate_then [OF mempool_min_spec refl] wp_estimate_then [OF smart_fee_spec])
  fix mp bg no hi vh s'
  assume ge: "MIN_FEERATE \<le> mp" "MIN_FEERATE \<le> bg" "MIN_FEERATE \<le> no" "MIN_FEERATE \<le> hi" "MIN_FEERATE \<le> vh"
    and f: "fees s' = fees s"
  have table: "(fees s)(MaximumFeeEstimate \<mapsto> vh, UrgentOnChainSweep \<mapsto> hi,
      MinAllowedAnchorChannelRemoteFee \<mapsto> mp, MinAllowedNonAnchorChannelRemoteFee \<mapsto> bg - 250,
      AnchorChannelFee \<mapsto> bg, NonAnchorChannelFee \<mapsto> no, ChannelCloseMinimum \<mapsto> bg,
      OutputSpendingFee \<mapsto> bg) = fee_table mp bg no hi vh"
  proof
    fix t show "((fees s)(MaximumFeeEstimate \<mapsto> vh, UrgentOnChainSweep \<mapsto> hi,
      MinAllowedAnchorChannelRemoteFee \<mapsto> mp, MinAllowedNonAnchorChannelRemoteFee \<mapsto> bg - 250,
      AnchorChannelFee \<mapsto> bg, NonAnchorChannelFee \<mapsto> no, ChannelCloseMinimum \<mapsto> bg,
      OutputSpendingFee \<mapsto> bg)) t = fee_table mp bg no hi vh t"
      by (cases t) simp_all
  qed
  have "fees s = (\<lambda>t. Some (the (fees s t)))" using fees_okD [OF assms] by auto
  then obtain g where g: "fees s = (\<lambda>t. Some (g t))" by (rule that)
  show "wp (thenP (store_fee MaximumFeeEstimate (ret vh))
      (thenP (store_fee UrgentOnChainSweep (ret hi))
      (thenP (store_fee MinAllowedAnchorChannelRemoteFee (ret mp))
      (thenP (store_fee MinAllowedNonAnchorChannelRemoteFee (sub_u32 bg 250))
      (thenP (store_fee AnchorChannelFee (ret bg))
      (thenP (store_fee NonAnchorChannelFee (ret no))
      (thenP (store_fee ChannelCloseMinimum (ret bg))
      (thenP (store_fee OutputSpendingFee (ret bg)) (emit (SleepMillis 60000))))))))))
    (\<lambda>_ s'. \<exists>mp bg no hi vh. MIN_FEERATE \<le> mp \<and> MIN_FEERATE \<le> bg \<and> MIN_FEERATE \<le> no \<and>
        MIN_FEERATE \<le> hi \<and> MIN_FEERATE \<le> vh \<and> fees s' = fee_table mp bg no hi vh)
    (\<lambda>p s'. p \<noteq> Overflow \<and> fees s' = fees s) s'"
    using ge min_sub_250 [OF ge(2)]
    by (simp add: wp_simps f g table [unfolded g]) blast
qed (simp_all add: MIN_FEERATE_def)

definition poll_step :: "('j, 'l) rpc_lib_scheme \<Rightarrow> 'b client_state_scheme \<Rightarrow> 'b client_state_scheme \<Rightarrow> bool" where
  "poll_step R s s' \<longleftrightarrow> (\<exists>r. poll_once R s = (r, s'))"

lemma poll_step_ok:
  assumes "fees_ok (fees s)" and "poll_step R s s'"
  shows "fees_ok (fees s')"
proof -
  from assms(2) obtain r where "poll_once R s = (r, s')" by (auto simp: poll_step_def)
  then show ?thesis
    using poll_once_spec [OF assms(1), of R] assms(1)
    by (cases r) (auto simp: wp_def intro: fee_table_ok)
qed

interpretation polling: invariant_system "\<lambda>s. fees s = initial_fees" "poll_step R" "\<lambda>s. fees_ok (fees s)" for R
  by unfold_locales (auto simp: fees_ok_initial poll_step_ok)

end
