(* ===== verification/Payments.thy ===== *)
theory Payments
  imports Bitcoind_Client
begin

text \<open>
  Payment records and their storage: the types of \<open>src/main.rs\<close> (\<open>HTLCStatus\<close>, \<open>MillisatAmount\<close>,
  \<open>PaymentInfo\<close> and the two storages), the reading of the stored maps at startup (\<open>src/disk.rs\<close>) and
  the operations by which the CLI and the event handler update a map and write it to the store. The
  TLV encoding of the storages comes from macros of the \<open>lightning\<close> crate and is a parameter.
\<close>

section \<open>Types\<close>

datatype htlc_status = Pending | Succeeded | Failed

text \<open>The TLV type numbers \<open>impl_writeable_tlv_based_enum!\<close> is given.\<close>

fun htlc_status_type :: "htlc_status \<Rightarrow> nat" where
  "htlc_status_type Pending = 0"
| "htlc_status_type Succeeded = 1"
| "htlc_status_type Failed = 2"

datatype millisat_amount = MillisatAmount "u64 option"

text \<open>\<open>impl fmt::Display for MillisatAmount\<close>.\<close>

fun show_millisat :: "millisat_amount \<Rightarrow> string" where
  "show_millisat (MillisatAmount (Some amt)) = show_u64 amt"
| "show_millisat (MillisatAmount None) = ''unknown''"

record payment_info =
  preimage :: "payment_preimage option"
  secret :: "payment_secret option"
  status :: htlc_status
  amt_msat :: millisat_amount

type_synonym payments = "(bytes, payment_info) fmap"

definition INBOUND_PAYMENTS_FNAME :: string where
  "INBOUND_PAYMENTS_FNAME = ''inbound_payments''"

definition OUTBOUND_PAYMENTS_FNAME :: string where
  "OUTBOUND_PAYMENTS_FNAME = ''outbound_payments''"

section \<open>The node's state and the libraries\<close>

text \<open>
  What the tasks of the node share: the two storages (each behind a \<open>Mutex\<close> in the code) and the
  key-value store.
\<close>

type_synonym kv_key = "string \<times> string \<times> string"

record node = client_state +
  inbound :: payments
  outbound :: payments
  store :: "kv_key \<Rightarrow> bytes option"

text \<open>
  The libraries, as answers to calls. \<open>enc\<close> and \<open>dec\<close> are \<open>Writeable::encode\<close> and \<open>Readable::read\<close>
  of a payment storage; the encoding of a hash map follows its iteration order, so it may differ
  between calls on equal maps.
\<close>

record ldk =
  kv_write_ok :: "hist \<Rightarrow> bool"
  enc :: "hist \<Rightarrow> payments \<Rightarrow> bytes"
  dec :: "bytes \<Rightarrow> payments option"
  iter :: "hist \<Rightarrow> payments \<Rightarrow> (bytes \<times> payment_info) list"
  random_bytes :: "hist \<Rightarrow> bytes"
  sha256 :: "bytes \<Rightarrow> bytes"
  show_hash :: "bytes \<Rightarrow> string"
  show_pubkey :: "pubkey \<Rightarrow> string"
  pay_result :: "hist \<Rightarrow> string + unit"
  create_bolt11 :: "hist \<Rightarrow> string + invoice"

text \<open>The documented contract of the encoding: what was written reads back.\<close>

definition codec_ok :: "'a ldk_scheme \<Rightarrow> bool" where
  "codec_ok L \<longleftrightarrow> (\<forall>h m. dec L (enc L h m) = Some m)"

text \<open>Iterating a hash map visits every entry once, in some order.\<close>

definition iter_ok :: "'a ldk_scheme \<Rightarrow> bool" where
  "iter_ok L \<longleftrightarrow> (\<forall>h m. set (iter L h m) = {(k, v). fmlookup m k = Some v} \<and> distinct (iter L h m))"

section \<open>The store\<close>

definition kv_put :: "kv_key \<Rightarrow> bytes \<Rightarrow> (kv_key \<Rightarrow> bytes option) \<Rightarrow> (kv_key \<Rightarrow> bytes option)" where
  "kv_put k v m = m(k \<mapsto> v)"

definition kv_get :: "(kv_key \<Rightarrow> bytes option) \<Rightarrow> kv_key \<Rightarrow> bytes option" where
  "kv_get m k = m k"

text \<open>
  \<open>fs_store.write(p, s, k, v).await.unwrap()\<close>: a write that fails leaves the old value (the store
  writes a temporary file and renames it) and panics.
\<close>

definition kv_write ::
  "'a ldk_scheme \<Rightarrow> string \<Rightarrow> string \<Rightarrow> string \<Rightarrow> bytes \<Rightarrow> ('b node_scheme, unit) prog" where
  "kv_write L p s k v =
     bindP (call (KvWrite p s k v) (kv_write_ok L)) (\<lambda>ok.
       if ok then modify (\<lambda>n. n\<lparr>store := kv_put (p, s, k) v (store n)\<rparr>)
       else panic UnwrapErr)"

definition write_outbound :: "'a ldk_scheme \<Rightarrow> ('b node_scheme, unit) prog" where
  "write_outbound L =
     bindP (gets (\<lambda>n. enc L (trace n) (outbound n))) (\<lambda>v.
       kv_write L [] [] OUTBOUND_PAYMENTS_FNAME v)"

definition write_inbound :: "'a ldk_scheme \<Rightarrow> ('b node_scheme, unit) prog" where
  "write_inbound L =
     bindP (gets (\<lambda>n. enc L (trace n) (inbound n))) (\<lambda>v.
       kv_write L [] [] INBOUND_PAYMENTS_FNAME v)"

section \<open>Operations on the storages\<close>

text \<open>The entry every outgoing payment starts with.\<close>

definition new_payment :: "payment_secret option \<Rightarrow> u64 \<Rightarrow> payment_info" where
  "new_payment sec amt =
     \<lparr>preimage = None, secret = sec, status = Pending, amt_msat = MillisatAmount (Some amt)\<rparr>"

text \<open>Insert an entry and write the map, as \<open>sendpayment\<close> and \<open>keysend\<close> do before they pay.\<close>

definition record_outbound ::
  "'a ldk_scheme \<Rightarrow> payment_id \<Rightarrow> payment_info \<Rightarrow> ('b node_scheme, unit) prog" where
  "record_outbound L i info =
     thenP (modify (\<lambda>n. n\<lparr>outbound := fmupd i info (outbound n)\<rparr>)) (write_outbound L)"

text \<open>\<open>payments.get_mut(&payment_id).unwrap().status = Failed\<close>, then write the map.\<close>

definition fail_outbound :: "'a ldk_scheme \<Rightarrow> payment_id \<Rightarrow> ('b node_scheme, unit) prog" where
  "fail_outbound L i =
     thenP (bindP (gets (\<lambda>n. fmlookup (outbound n) i)) (\<lambda>e.
       bindP (unwrap e) (\<lambda>info.
         modify (\<lambda>n. n\<lparr>outbound := fmupd i (info\<lparr>status := Failed\<rparr>) (outbound n)\<rparr>))))
     (write_outbound L)"

section \<open>Reading at startup\<close>

text \<open>
  \<open>read_inbound_payment_info\<close> and \<open>read_outbound_payment_info\<close>: the file's bytes if it could be
  opened and read; anything else, a missing file, an unreadable one or one that does not decode, is
  an empty storage.
\<close>

definition read_inbound_payment_info :: "'a ldk_scheme \<Rightarrow> bytes option \<Rightarrow> payments" where
  "read_inbound_payment_info L file =
     (case file of
        Some b \<Rightarrow> (case dec L b of Some info \<Rightarrow> info | None \<Rightarrow> fmempty)
      | None \<Rightarrow> fmempty)"

definition read_outbound_payment_info :: "'a ldk_scheme \<Rightarrow> bytes option \<Rightarrow> payments" where
  "read_outbound_payment_info L file =
     (case file of
        Some b \<Rightarrow> (case dec L b of Some info \<Rightarrow> info | None \<Rightarrow> fmempty)
      | None \<Rightarrow> fmempty)"

section \<open>The store as an interface\<close>

text \<open>What a client of a key-value store relies on.\<close>

locale kv_store =
  fixes put :: "'k \<Rightarrow> 'v \<Rightarrow> 'm \<Rightarrow> 'm"
    and get :: "'m \<Rightarrow> 'k \<Rightarrow> 'v option"
  assumes get_put: "get (put k v m) k = Some v"
    and get_put_other: "k' \<noteq> k \<Longrightarrow> get (put k v m) k' = get m k'"
begin

lemma get_put_if: "get (put k v m) k' = (if k' = k then Some v else get m k')"
  by (simp add: get_put get_put_other)

text \<open>After a sequence of writes a key holds the last value written to it.\<close>

lemma get_puts:
  "get (fold (\<lambda>(k, v). put k v) ws m) k =
     (case map_of (rev ws) k of Some v \<Rightarrow> Some v | None \<Rightarrow> get m k)"
proof (induction ws rule: rev_induct)
  case (snoc w ws)
  then show ?case by (cases w) (simp add: get_put_if)
qed simp

end

interpretation kv: kv_store kv_put kv_get
  by unfold_locales (simp_all add: kv_put_def kv_get_def)

section \<open>Running the storage operations\<close>

definition outbound_key :: kv_key where
  "outbound_key = ([], [], OUTBOUND_PAYMENTS_FNAME)"

definition inbound_key :: kv_key where
  "inbound_key = ([], [], INBOUND_PAYMENTS_FNAME)"

lemma keys_distinct [simp]: "inbound_key \<noteq> outbound_key" "outbound_key \<noteq> inbound_key"
  by (simp_all add: inbound_key_def outbound_key_def INBOUND_PAYMENTS_FNAME_def OUTBOUND_PAYMENTS_FNAME_def)

lemma wp_kv_write [wp_simps]:
  "wp (kv_write L p s k v) Q E n =
     (let n' = n\<lparr>trace := trace n @ [KvWrite p s k v]\<rparr> in
      if kv_write_ok L (trace n) then Q () (n'\<lparr>store := kv_put (p, s, k) v (store n)\<rparr>) else E UnwrapErr n')"
  by (simp add: kv_write_def wp_simps Let_def)

lemma run_kv_write [run_simps]:
  "kv_write L p s k v n =
     (let n' = n\<lparr>trace := trace n @ [KvWrite p s k v]\<rparr> in
      if kv_write_ok L (trace n) then (Val (), n'\<lparr>store := kv_put (p, s, k) v (store n)\<rparr>)
      else (Panic UnwrapErr, n'))"
  by (simp add: kv_write_def run_simps Let_def)

lemma wp_write_outbound [wp_simps]:
  "wp (write_outbound L) Q E n =
     (let v = enc L (trace n) (outbound n);
          n' = n\<lparr>trace := trace n @ [KvWrite [] [] OUTBOUND_PAYMENTS_FNAME v]\<rparr> in
      if kv_write_ok L (trace n) then Q () (n'\<lparr>store := kv_put outbound_key v (store n)\<rparr>) else E UnwrapErr n')"
  by (simp add: write_outbound_def wp_simps outbound_key_def Let_def)

lemma run_write_outbound [run_simps]:
  "write_outbound L n =
     (let v = enc L (trace n) (outbound n);
          n' = n\<lparr>trace := trace n @ [KvWrite [] [] OUTBOUND_PAYMENTS_FNAME v]\<rparr> in
      if kv_write_ok L (trace n) then (Val (), n'\<lparr>store := kv_put outbound_key v (store n)\<rparr>)
      else (Panic UnwrapErr, n'))"
  by (simp add: write_outbound_def run_simps outbound_key_def Let_def)

lemma wp_write_inbound [wp_simps]:
  "wp (write_inbound L) Q E n =
     (let v = enc L (trace n) (inbound n);
          n' = n\<lparr>trace := trace n @ [KvWrite [] [] INBOUND_PAYMENTS_FNAME v]\<rparr> in
      if kv_write_ok L (trace n) then Q () (n'\<lparr>store := kv_put inbound_key v (store n)\<rparr>) else E UnwrapErr n')"
  by (simp add: write_inbound_def wp_simps inbound_key_def Let_def)

lemma run_write_inbound [run_simps]:
  "write_inbound L n =
     (let v = enc L (trace n) (inbound n);
          n' = n\<lparr>trace := trace n @ [KvWrite [] [] INBOUND_PAYMENTS_FNAME v]\<rparr> in
      if kv_write_ok L (trace n) then (Val (), n'\<lparr>store := kv_put inbound_key v (store n)\<rparr>)
      else (Panic UnwrapErr, n'))"
  by (simp add: write_inbound_def run_simps inbound_key_def Let_def)

section \<open>Memory and disk agree\<close>

text \<open>
  The value stored for the outgoing payments decodes to the map in memory. A new entry breaks this
  until the map is written, so it is an invariant of whole operations.
\<close>

definition synced :: "'a ldk_scheme \<Rightarrow> 'b node_scheme \<Rightarrow> bool" where
  "synced L n \<longleftrightarrow> (\<exists>b. kv_get (store n) outbound_key = Some b \<and> dec L b = Some (outbound n))"

lemma synced_trace [simp]: "synced L (n\<lparr>trace := h\<rparr>) = synced L n"
  by (simp add: synced_def)

lemma synced_inbound [simp]: "synced L (n\<lparr>inbound := m\<rparr>) = synced L n"
  by (simp add: synced_def)

lemma synced_put_inbound [simp]:
  "synced L (n\<lparr>store := kv_put inbound_key v (store n)\<rparr>) = synced L n"
  by (simp add: synced_def kv.get_put_if)

lemma write_outbound_syncs: "codec_ok L \<Longrightarrow> wp (write_outbound L) (\<lambda>_. synced L) (\<lambda>_ _. True) n"
  by (simp add: wp_simps Let_def synced_def kv.get_put codec_ok_def)

lemma keeps_write_outbound_synced: "codec_ok L \<Longrightarrow> keeps (synced L) (\<lambda>_. True) (write_outbound L)"
  by (simp add: keeps_def write_outbound_syncs)

lemma keeps_record_outbound_synced:
  "codec_ok L \<Longrightarrow> keeps (synced L) (\<lambda>_. True) (record_outbound L i info)"
  by (simp add: keeps_def record_outbound_def wp_then wp_modify write_outbound_syncs)

lemma keeps_fail_outbound_synced:
  "codec_ok L \<Longrightarrow> keeps (synced L) (\<lambda>_. True) (fail_outbound L i)"
  by (simp add: keeps_def fail_outbound_def wp_then wp_bind wp_gets wp_unwrap wp_modify
      write_outbound_syncs split: option.splits)

lemma keeps_write_inbound_synced: "keeps (synced L) (\<lambda>_. True) (write_inbound L)"
  by (simp add: keeps_def wp_write_inbound Let_def synced_def kv.get_put_if)

section \<open>Payments are recorded before they are sent\<close>

text \<open>The value the last write to a key gave it, in a trace.\<close>

definition last_write :: "kv_key \<Rightarrow> hist \<Rightarrow> bytes option" where
  "last_write key h =
     foldl (\<lambda>acc a. case a of KvWrite p s k v \<Rightarrow> if (p, s, k) = key then Some v else acc | _ \<Rightarrow> acc) None h"

lemma last_write_Nil [simp]: "last_write key [] = None"
  by (simp add: last_write_def)

lemma last_write_snoc:
  "last_write key (h @ [a]) =
     (case a of KvWrite p s k v \<Rightarrow> if (p, s, k) = key then Some v else last_write key h
      | _ \<Rightarrow> last_write key h)"
  by (cases a) (simp_all add: last_write_def)

definition recorded_pending :: "'a ldk_scheme \<Rightarrow> hist \<Rightarrow> payment_id \<Rightarrow> bool" where
  "recorded_pending L h i \<longleftrightarrow>
     (\<exists>b m info. last_write outbound_key h = Some b \<and> dec L b = Some m
        \<and> fmlookup m i = Some info \<and> status info = Pending)"

definition pay_logged :: "'a ldk_scheme \<Rightarrow> hist \<Rightarrow> bool" where
  "pay_logged L h \<longleftrightarrow>
     (\<forall>pre p post. h = pre @ Pay p # post \<longrightarrow> recorded_pending L pre (pay_id p))"

lemma pay_logged_Nil [simp]: "pay_logged L []"
  by (simp add: pay_logged_def)

lemma pay_logged_snoc:
  "pay_logged L (h @ [a]) \<longleftrightarrow>
     pay_logged L h \<and> (\<forall>p. a = Pay p \<longrightarrow> recorded_pending L h (pay_id p))"
proof
  assume l: "pay_logged L (h @ [a])"
  have "recorded_pending L pre (pay_id p)" if "h = pre @ Pay p # post" for pre p post
    using l that by (auto simp: pay_logged_def)
  moreover have "recorded_pending L h (pay_id p)" if "a = Pay p" for p
    using l that by (auto simp: pay_logged_def)
  ultimately show "pay_logged L h \<and> (\<forall>p. a = Pay p \<longrightarrow> recorded_pending L h (pay_id p))"
    by (auto simp: pay_logged_def)
next
  assume r: "pay_logged L h \<and> (\<forall>p. a = Pay p \<longrightarrow> recorded_pending L h (pay_id p))"
  show "pay_logged L (h @ [a])"
    unfolding pay_logged_def
  proof (intro allI impI)
    fix pre p post
    assume "h @ [a] = pre @ Pay p # post"
    then show "recorded_pending L pre (pay_id p)"
      using r by (cases post rule: rev_cases) (auto simp: pay_logged_def)
  qed
qed

lemma pay_logged_other [simp]: "\<not> is_pay a \<Longrightarrow> pay_logged L (h @ [a]) = pay_logged L h"
  by (auto simp: pay_logged_snoc)

definition logged :: "'a ldk_scheme \<Rightarrow> 'b node_scheme \<Rightarrow> bool" where
  "logged L n \<longleftrightarrow> pay_logged L (trace n)"

lemma keeps_kv_write_logged: "keeps (logged L) (logged L) (kv_write L p s k v)"
  by (simp add: keeps_def wp_simps Let_def logged_def)

lemma keeps_write_outbound_logged: "keeps (logged L) (logged L) (write_outbound L)"
  by (simp add: keeps_def wp_simps Let_def logged_def)

lemma keeps_write_inbound_logged: "keeps (logged L) (logged L) (write_inbound L)"
  by (simp add: keeps_def wp_simps Let_def logged_def)

lemma keeps_fail_outbound_logged: "keeps (logged L) (logged L) (fail_outbound L i)"
  by (simp add: keeps_def fail_outbound_def wp_simps Let_def logged_def split: option.splits)

text \<open>After recording a pending payment, sending it is covered.\<close>

lemma record_outbound_covers:
  assumes "codec_ok L" and "logged L n" and "status info = Pending"
  shows "wp (record_outbound L i info)
    (\<lambda>_ n'. logged L n' \<and> recorded_pending L (trace n') i) (\<lambda>_. logged L) n"
  using assms
  by (simp add: record_outbound_def wp_simps Let_def logged_def recorded_pending_def last_write_snoc
      outbound_key_def codec_ok_def)

text \<open>The whole pattern: record, send, and go on without sending anything uncovered.\<close>

lemma keeps_record_then_pay:
  fixes f :: "_ \<Rightarrow> ('b node_scheme, 'c) prog"
  assumes "codec_ok L" and "status info = Pending" and "pay_id p = i"
    and "\<And>r. keeps (logged L) (logged L) (f r)"
  shows "keeps (logged L) (logged L)
    (thenP (record_outbound L i info) (bindP (call (Pay p) g) f))"
proof (rule keepsI)
  fix n :: "'b node_scheme"
  assume "logged L n"
  then have "wp (record_outbound L i info)
      (\<lambda>_ n'. logged L n' \<and> recorded_pending L (trace n') i) (\<lambda>_. logged L) n"
    using assms(1,2) by (intro record_outbound_covers)
  then show "wp (thenP (record_outbound L i info) (bindP (call (Pay p) g) f))
      (\<lambda>_. logged L) (\<lambda>_. logged L) n"
    unfolding wp_then
    by (rule wp_mono)
      (auto simp: wp_simps logged_def pay_logged_snoc assms(3)
        intro!: keeps_wp [OF assms(4)])
qed

end
