(* ===== verification/Cli_Pay.thy ===== *)
theory Cli_Pay
  imports Payments
begin

text \<open>
  The payment commands of \<open>src/cli.rs\<close>: \<open>send_payment\<close>, \<open>keysend\<close>, \<open>get_invoice\<close>, and the two
  branches of the \<open>sendpayment\<close> command for an offer and for a human-readable name. Each records an
  outgoing payment as pending, writes the map, and only then asks the channel manager to pay.
\<close>

section \<open>Standard input\<close>

text \<open>
  The items \<open>input.next_line()\<close> delivers: a line or an error; the end of the list is the end of the
  input.
\<close>

datatype stdin_item = Line string | ReadError string

record cli_node = node +
  stdin :: "stdin_item list"

text \<open>
  What a command does to the loop that reads commands: it goes on, it ends, or it is still waiting for a
  connection to be made or to fail.
\<close>

datatype control = Continue | Break | Blocked

record pay_lib = ldk +
  parse_offer :: "string \<Rightarrow> offer option"
  parse_hrn :: "string \<Rightarrow> string option"
  parse_bolt11 :: "string \<Rightarrow> string + invoice"
  graph_nodes :: "hist \<Rightarrow> (node_id \<times> announcement option) list"
  as_pubkey :: "node_id \<Rightarrow> pubkey option"

section \<open>Invoices\<close>

datatype amount_choice = AmountMismatch u64 | AmountMissing | PayAmount u64

text \<open>The \<open>match\<close> on the invoice's amount and the one the user gave.\<close>

fun choose_amount :: "u64 option \<Rightarrow> u64 option \<Rightarrow> amount_choice" where
  "choose_amount (Some inv_amt) (Some req_amt) =
     (if inv_amt \<noteq> req_amt then AmountMismatch inv_amt else PayAmount inv_amt)"
| "choose_amount (Some inv_amt) None = PayAmount inv_amt"
| "choose_amount None (Some req_amt) = PayAmount req_amt"
| "choose_amount None None = AmountMissing"

definition prompt :: "('a world_scheme, unit) prog" where
  "prompt = print ''> ''"

definition retry_secs :: nat where
  "retry_secs = 10"

definition send_payment ::
  "'l ldk_scheme \<Rightarrow> invoice \<Rightarrow> u64 option \<Rightarrow> ('b node_scheme, unit) prog" where
  "send_payment L invoice required_amount_msat =
    (let payment_id = inv_payment_hash invoice;
         payment_secret = Some (inv_payment_secret invoice) in
     case choose_amount (inv_amount_msat invoice) required_amount_msat of
       AmountMismatch inv_amt \<Rightarrow>
         thenP (println (''Amount didn't match invoice value of '' @ show_u64 inv_amt @ ''msat'')) prompt
     | AmountMissing \<Rightarrow>
         thenP (println ''Need an amount to pay an amountless invoice'') prompt
     | PayAmount amt \<Rightarrow>
         thenP (record_outbound L payment_id (new_payment payment_secret amt))
         (bindP (call (Pay (PayForBolt11 invoice payment_id required_amount_msat retry_secs))
             (pay_result L)) (\<lambda>r.
            case r of
              Inr _ \<Rightarrow>
                thenP (println (''EVENT: initiated sending '' @ show_u64 amt @ '' msats to ''
                  @ show_pubkey L (inv_payee invoice))) prompt
            | Inl e \<Rightarrow>
                thenP (println (''ERROR: failed to send payment: '' @ e))
                (thenP prompt (fail_outbound L payment_id)))))"

section \<open>Spontaneous payments\<close>

definition keysend ::
  "'l ldk_scheme \<Rightarrow> pubkey \<Rightarrow> u64 \<Rightarrow> ('b node_scheme, unit) prog" where
  "keysend L payee_pubkey amt =
    bindP (call RandomBytes (random_bytes L)) (\<lambda>payment_preimage.
      let payment_id = sha256 L payment_preimage in
      thenP (record_outbound L payment_id (new_payment None amt))
      (bindP (call (Pay (SendSpontaneous payment_preimage payment_id payee_pubkey 40 amt retry_secs))
          (pay_result L)) (\<lambda>r.
         case r of
           Inr _ \<Rightarrow>
             thenP (println (''EVENT: initiated sending '' @ show_u64 amt @ '' msats to ''
               @ show_pubkey L payee_pubkey)) prompt
         | Inl e \<Rightarrow>
             thenP (println (''ERROR: failed to send payment: '' @ e))
             (thenP prompt (fail_outbound L payment_id)))))"

section \<open>Incoming payments\<close>

definition get_invoice ::
  "'l ldk_scheme \<Rightarrow> u64 \<Rightarrow> u32 \<Rightarrow> ('b node_scheme, unit) prog" where
  "get_invoice L amt expiry_secs =
    bindP (call (Channel (CreateBolt11 (Some amt) (Some expiry_secs))) (create_bolt11 L)) (\<lambda>r.
      case r of
        Inr invoice \<Rightarrow>
          thenP (println (''SUCCESS: generated invoice: '' @ inv_text invoice))
          (modify (\<lambda>n. n\<lparr>inbound := fmupd (inv_payment_hash invoice)
             (new_payment (Some (inv_payment_secret invoice)) amt) (inbound n)\<rparr>))
      | Inl e \<Rightarrow> println (''ERROR: failed to create invoice: '' @ e))"

text \<open>The end of the \<open>getinvoice\<close> command: the map is written whether or not an invoice was made.\<close>

definition getinvoice_write ::
  "'l ldk_scheme \<Rightarrow> u64 \<Rightarrow> u32 \<Rightarrow> ('b node_scheme, unit) prog" where
  "getinvoice_write L amt expiry_secs = thenP (get_invoice L amt expiry_secs) (write_inbound L)"

section \<open>Offers\<close>

datatype confirmation = Confirmed | Declined | InputEnded

text \<open>
  The loop that asks for confirmation when the user gave no amount: it prints the question, reads a
  line, and asks again until the line starts with \<open>Y\<close> or \<open>N\<close> or the input ends. The result is what
  it printed, how it ended, and the input left.
\<close>

fun confirm_lines :: "string \<Rightarrow> stdin_item list \<Rightarrow> action list \<times> confirmation \<times> stdin_item list" where
  "confirm_lines q [] = ([Print q, Print (''ERROR: End of stdin'' @ nl)], InputEnded, [])"
| "confirm_lines q (ReadError e # ls) = ([Print q, Print (''ERROR: '' @ e @ nl)], InputEnded, ls)"
| "confirm_lines q (Line l # ls) =
     (if starts_with l ''Y'' then ([Print q], Confirmed, ls)
      else if starts_with l ''N'' then ([Print q], Declined, ls)
      else (let (as, c, rest) = confirm_lines q ls in (Print q # as, c, rest)))"

definition confirm :: "u64 \<Rightarrow> ('b cli_node_scheme, confirmation) prog" where
  "confirm amt =
    bindP (gets stdin) (\<lambda>ls.
      let (as, c, rest) =
        confirm_lines (''Paying offer for '' @ show_u64 amt @ '' msat. Continue (Y/N)? >'') ls in
      thenP (modify (\<lambda>n. n\<lparr>trace := trace n @ as, stdin := rest\<rparr>)) (ret c))"

fun show_offer_amount :: "offer_amount option \<Rightarrow> string" where
  "show_offer_amount None = ''None''"
| "show_offer_amount (Some (BitcoinAmount a)) =
     ''Some(Bitcoin { amount_msats: '' @ show_u64 a @ '' })''"
| "show_offer_amount (Some (CurrencyAmount c)) = ''Some('' @ c @ '')''"

text \<open>The amount of an offer, from the offer and the user; \<open>None\<close> where neither gives one.\<close>

fun offer_msat :: "offer_amount option \<Rightarrow> u64 option \<Rightarrow> u64 option" where
  "offer_msat (Some (BitcoinAmount amount_msats)) _ = Some amount_msats"
| "offer_msat _ (Some amt) = Some amt"
| "offer_msat _ None = None"

definition pay_offer_now ::
  "'l ldk_scheme \<Rightarrow> offer \<Rightarrow> payment_id \<Rightarrow> u64 \<Rightarrow> ('b node_scheme, control) prog" where
  "pay_offer_now L off payment_id amt =
    thenP (record_outbound L payment_id (new_payment None amt))
    (bindP (call (Pay (PayForOffer off (Some amt) payment_id retry_secs)) (pay_result L)) (\<lambda>pay.
       thenP (case pay of
           Inr _ \<Rightarrow> println ''Payment in flight''
         | Inl e \<Rightarrow> println (''ERROR: Failed to pay: Err('' @ e @ '')''))
       (ret Continue)))"

definition pay_offer ::
  "'l ldk_scheme \<Rightarrow> offer \<Rightarrow> u64 option \<Rightarrow> ('b cli_node_scheme, control) prog" where
  "pay_offer L off user_provided_amt =
    bindP (call RandomBytes (random_bytes L)) (\<lambda>payment_id.
      case offer_msat (offer_amount_of off) user_provided_amt of
        None \<Rightarrow>
          thenP (println (''ERROR: Cannot process non-Bitcoin-denominated offer value ''
            @ show_offer_amount (offer_amount_of off))) (ret Continue)
      | Some amt \<Rightarrow>
          if user_provided_amt \<noteq> None \<and> user_provided_amt \<noteq> Some amt then
            thenP (println (''Amount didn't match offer of '' @ show_u64 amt @ ''msat'')) (ret Continue)
          else if user_provided_amt = None then
            bindP (confirm amt) (\<lambda>c.
              case c of
                InputEnded \<Rightarrow> ret Break
              | Declined \<Rightarrow> ret Continue
              | Confirmed \<Rightarrow> pay_offer_now L off payment_id amt)
          else pay_offer_now L off payment_id amt)"

section \<open>Human-readable names\<close>

text \<open>
  The nodes asked to resolve a name: those that announce both features, in the graph's order, until
  more than five are found.
\<close>

fun dns_resolvers ::
  "(node_id \<Rightarrow> pubkey option) \<Rightarrow> (node_id \<times> announcement option) list \<Rightarrow> pubkey list \<Rightarrow> pubkey list" where
  "dns_resolvers aspk [] acc = acc"
| "dns_resolvers aspk ((node_id, node) # ns) acc =
     (let acc' = (case node of
          Some info \<Rightarrow>
            if ann_dns_resolution info \<and> ann_onion_messages info then
              (case aspk node_id of Some pubkey \<Rightarrow> acc @ [pubkey] | None \<Rightarrow> acc)
            else acc
        | None \<Rightarrow> acc) in
      if length acc' > 5 then acc' else dns_resolvers aspk ns acc')"

definition pay_hrn ::
  "'l pay_lib_scheme \<Rightarrow> string \<Rightarrow> u64 option \<Rightarrow> ('b node_scheme, control) prog" where
  "pay_hrn L hrn user_provided_amt =
    bindP (call RandomBytes (random_bytes L)) (\<lambda>payment_id.
      case user_provided_amt of
        None \<Rightarrow> thenP (println ''Can't pay to a human-readable-name without an amount'') (ret Continue)
      | Some amt \<Rightarrow>
          bindP (ask (graph_nodes L)) (\<lambda>nodes.
            let resolvers = dns_resolvers (as_pubkey L) nodes [] in
            if resolvers = [] then
              thenP (println ''Failed to find any DNS resolving nodes, check your network graph is synced'')
                (ret Continue)
            else
              thenP (record_outbound L payment_id (new_payment None amt))
              (bindP (call (Pay (PayForHrn hrn amt payment_id retry_secs resolvers)) (pay_result L))
                (\<lambda>pay.
                 thenP (case pay of
                     Inr _ \<Rightarrow> println ''Payment in flight''
                   | Inl _ \<Rightarrow> println ''ERROR: Failed to pay'')
                 (ret Continue)))))"

text \<open>
  The whole \<open>sendpayment\<close> command, from its arguments: the amount is parsed first, then the text is
  tried as an offer, as a human-readable name and as an invoice.
\<close>

definition cmd_sendpayment ::
  "'l pay_lib_scheme \<Rightarrow> string list \<Rightarrow> ('b cli_node_scheme, control) prog" where
  "cmd_sendpayment L words =
    (case words of
       [] \<Rightarrow>
         thenP (println ''ERROR: sendpayment requires an invoice: `sendpayment <invoice> [amount_msat]`'')
           (ret Continue)
     | invoice_str # rest \<Rightarrow>
         (let go = (\<lambda>user_provided_amt.
            case parse_offer L invoice_str of
              Some off \<Rightarrow> pay_offer L off user_provided_amt
            | None \<Rightarrow>
                (case parse_hrn L invoice_str of
                   Some hrn \<Rightarrow> pay_hrn L hrn user_provided_amt
                 | None \<Rightarrow>
                     (case parse_bolt11 L invoice_str of
                        Inr invoice \<Rightarrow> thenP (send_payment L invoice user_provided_amt) (ret Continue)
                      | Inl e \<Rightarrow> thenP (println (''ERROR: invalid invoice: '' @ e)) (ret Continue)))) in
          case rest of
            [] \<Rightarrow> go None
          | amt_msat_str # _ \<Rightarrow>
              (case parse_u64 amt_msat_str of
                 Inr amt \<Rightarrow> go (Some amt)
               | Inl e \<Rightarrow>
                   thenP (println (''ERROR: couldn't parse amount_msat: '' @ show_int_error e))
                     (ret Continue))))"

section \<open>The pay-after-record invariant\<close>

lemma keeps_call_logged: "\<not> is_pay a \<Longrightarrow> keeps (logged L) (logged L) (call a f)"
  by (rule keeps_call) (simp add: logged_def)

lemma keeps_print_logged: "keeps (logged L) (logged L) (print t)"
  by (rule keeps_print) (simp add: logged_def)

lemma keeps_println_logged: "keeps (logged L) (logged L) (println t)"
  by (rule keeps_println) (simp add: logged_def)

lemma keeps_prompt_logged: "keeps (logged L) (logged L) prompt"
  unfolding prompt_def by (rule keeps_print_logged)

lemma keeps_ask_logged: "keeps (logged L) (logged L) (ask f)"
  by (rule keeps_ask) (simp add: logged_def)

lemma keeps_modify_logged: "(\<And>n. trace (f n) = trace n) \<Longrightarrow> keeps (logged L) (logged L) (modify f)"
  by (rule keeps_modify) (simp add: logged_def)

lemmas logged_rules = keeps_call_logged keeps_print_logged keeps_println_logged keeps_prompt_logged keeps_ask_logged keeps_fail_outbound_logged
  keeps_write_inbound_logged keeps_write_outbound_logged keeps_modify_logged

lemma confirm_lines_not_pay: "confirm_lines q ls = (as, c, rest) \<Longrightarrow> \<forall>a \<in> set as. \<not> is_pay a"
  by (induction q ls arbitrary: as c rest rule: confirm_lines.induct)
    (auto split: if_splits prod.splits)

lemma pay_logged_append: "\<forall>a \<in> set as. \<not> is_pay a \<Longrightarrow> pay_logged L (h @ as) = pay_logged L h"
  by (induction as rule: rev_induct) (auto simp flip: append_assoc)

lemma keeps_confirm_logged: "keeps (logged L) (logged L) (confirm amt)"
  by (auto simp: keeps_def confirm_def wp_simps logged_def Let_def pay_logged_append
      dest: confirm_lines_not_pay split: prod.splits)

lemma new_payment_simps [simp]:
  "status (new_payment sec amt) = Pending" "preimage (new_payment sec amt) = None"
  "secret (new_payment sec amt) = sec" "amt_msat (new_payment sec amt) = MillisatAmount (Some amt)"
  by (simp_all add: new_payment_def)

lemma keeps_send_payment_logged:
  "codec_ok L \<Longrightarrow> keeps (logged L) (logged L) (send_payment L invoice req)"
  unfolding send_payment_def Let_def
  by (cases "choose_amount (inv_amount_msat invoice) req")
    ((simp, (rule keeps_record_then_pay logged_rules keeps_intros | simp)+)+)

lemma keeps_keysend_logged: "codec_ok L \<Longrightarrow> keeps (logged L) (logged L) (keysend L pk amt)"
  unfolding keysend_def Let_def
  by (rule keeps_record_then_pay logged_rules keeps_intros | simp)+

lemma keeps_getinvoice_logged: "keeps (logged L) (logged L) (getinvoice_write L amt expiry)"
  unfolding getinvoice_write_def get_invoice_def
  by (rule logged_rules keeps_intros | simp)+

lemma keeps_pay_offer_now_logged:
  "codec_ok L \<Longrightarrow> keeps (logged L) (logged L) (pay_offer_now L off i amt)"
  unfolding pay_offer_now_def
  by (rule keeps_record_then_pay logged_rules keeps_intros | simp)+

lemma keeps_case_confirmation [keeps_intros]:
  "keeps I E a \<Longrightarrow> keeps I E b \<Longrightarrow> keeps I E d \<Longrightarrow>
   keeps I E (case c of Confirmed \<Rightarrow> a | Declined \<Rightarrow> b | InputEnded \<Rightarrow> d)"
  by (cases c) simp_all

lemma keeps_pay_offer_logged:
  "codec_ok L \<Longrightarrow> keeps (logged L) (logged L) (pay_offer L off amt)"
  unfolding pay_offer_def
  by (rule keeps_pay_offer_now_logged keeps_confirm_logged logged_rules keeps_intros | simp)+

lemma keeps_pay_hrn_logged: "codec_ok L \<Longrightarrow> keeps (logged L) (logged L) (pay_hrn L hrn amt)"
  unfolding pay_hrn_def Let_def
  by (rule keeps_record_then_pay logged_rules keeps_intros | simp)+

lemma keeps_sendpayment_logged:
  "codec_ok L \<Longrightarrow> keeps (logged L) (logged L) (cmd_sendpayment L words)"
  unfolding cmd_sendpayment_def Let_def
  by (rule keeps_pay_offer_logged keeps_pay_hrn_logged keeps_send_payment_logged logged_rules
      keeps_intros | simp)+

section \<open>Memory and store after a payment command\<close>

lemma keeps_call_synced: "keeps (synced L) (\<lambda>_. True) (call a f)"
  by (rule keeps_call) simp

lemma keeps_print_synced: "keeps (synced L) (\<lambda>_. True) (print t)"
  by (rule keeps_print) simp

lemma keeps_println_synced: "keeps (synced L) (\<lambda>_. True) (println t)"
  by (rule keeps_println) simp

lemma keeps_prompt_synced: "keeps (synced L) (\<lambda>_. True) prompt"
  unfolding prompt_def by (rule keeps_print_synced)

lemma keeps_ask_synced: "keeps (synced L) (\<lambda>_. True) (ask f)"
  by (rule keeps_ask) simp

lemma keeps_confirm_synced: "keeps (synced L) (\<lambda>_. True) (confirm amt)"
  by (auto simp: keeps_def confirm_def wp_simps synced_def Let_def split: prod.splits)

lemma keeps_modify_synced:
  "(\<And>n. outbound (f n) = outbound n \<and> store (f n) = store n) \<Longrightarrow>
   keeps (synced L) (\<lambda>_. True) (modify f)"
  by (rule keeps_modify) (simp add: synced_def)

lemmas synced_rules = keeps_call_synced keeps_print_synced keeps_println_synced keeps_prompt_synced keeps_ask_synced keeps_confirm_synced
  keeps_fail_outbound_synced keeps_record_outbound_synced keeps_write_inbound_synced
  keeps_write_outbound_synced keeps_modify_synced

lemma keeps_send_payment_synced:
  "codec_ok L \<Longrightarrow> keeps (synced L) (\<lambda>_. True) (send_payment L invoice req)"
  unfolding send_payment_def Let_def
  by (cases "choose_amount (inv_amount_msat invoice) req")
    ((simp, (rule synced_rules keeps_intros | simp)+)+)

lemma keeps_keysend_synced: "codec_ok L \<Longrightarrow> keeps (synced L) (\<lambda>_. True) (keysend L pk amt)"
  unfolding keysend_def Let_def by (rule synced_rules keeps_intros | simp)+

lemma keeps_getinvoice_synced: "keeps (synced L) (\<lambda>_. True) (getinvoice_write L amt expiry)"
  unfolding getinvoice_write_def get_invoice_def by (rule synced_rules keeps_intros | simp)+

lemma keeps_sendpayment_synced:
  "codec_ok L \<Longrightarrow> keeps (synced L) (\<lambda>_. True) (cmd_sendpayment L words)"
  unfolding cmd_sendpayment_def pay_offer_def pay_offer_now_def pay_hrn_def Let_def
  by (rule keeps_send_payment_synced synced_rules keeps_intros | simp)+

end
