(* ===== verification/Cli.thy ===== *)
theory Cli
  imports Cli_Pay
begin

text \<open>
  The command line of \<open>src/cli.rs\<close>: every command of \<open>poll_for_user_input\<close>, the functions they call on
  the peer manager and the channel manager, and the loop that reads commands from standard input.
\<close>

section \<open>Libraries\<close>

text \<open>
  What LDK, the operating system and the crypto library answer. \<open>resolve_addr\<close> is the first address of
  \<open>to_socket_addrs\<close>, \<open>select_closed\<close> says which branch a \<open>select!\<close> between a closed connection and a
  timer took, and \<open>connect_fuel\<close> bounds how often a run of the model looks whether a handshake is done.
\<close>

record peer_lib = pay_lib +
  key_from_slice :: "bytes \<Rightarrow> pubkey option"
  key_from_str :: "string \<Rightarrow> string + pubkey"
  resolve_addr :: "hist \<Rightarrow> string \<Rightarrow> sock_addr option"
  peer_connected :: "hist \<Rightarrow> pubkey \<Rightarrow> bool"
  connect_outbound :: "hist \<Rightarrow> bool"
  select_closed :: "hist \<Rightarrow> bool"
  connect_fuel :: nat
  peers_of :: "hist \<Rightarrow> pubkey list"

record cli_lib = peer_lib +
  channels_of :: "hist \<Rightarrow> channel_details list"
  create_channel :: "hist \<Rightarrow> string + unit"
  close_result :: "hist \<Rightarrow> string + unit"
  offer_builder :: "hist \<Rightarrow> string + unit"
  build_offer :: "hist \<Rightarrow> string + string"
  our_node_id :: pubkey
  balances_of :: "hist \<Rightarrow> balance list"
  claimable_amount :: "balance \<Rightarrow> u64"
  graph_size :: "hist \<Rightarrow> nat \<times> nat"
  graph_node :: "hist \<Rightarrow> pubkey \<Rightarrow> announcement option option"
  show_channel_id :: "channel_id \<Rightarrow> string"
  sign_message :: "bytes \<Rightarrow> string"

definition quote :: string where
  "quote = [CHR 0x22]"

text \<open>\<open>{:?}\<close> of an error made from a text without quotes or backslashes.\<close>

definition debug_str :: "string \<Rightarrow> string" where
  "debug_str s = quote @ s @ quote"

fun show_bool :: "bool \<Rightarrow> string" where
  "show_bool True = ''true''"
| "show_bool False = ''false''"

section \<open>Peers\<close>

definition parse_peer_info ::
  "'l peer_lib_scheme \<Rightarrow> string \<Rightarrow> ('b world_scheme, string + pubkey \<times> sock_addr) prog" where
  "parse_peer_info L peer_pubkey_and_ip_addr =
    (case split_on (CHR ''@'') peer_pubkey_and_ip_addr of
       pubkey # peer_addr_str # _ \<Rightarrow>
         bindP (ask (\<lambda>h. resolve_addr L h peer_addr_str)) (\<lambda>peer_addr.
           case peer_addr of
             None \<Rightarrow> ret (Inl ''ERROR: couldn't parse pubkey@host:port into a socket address'')
           | Some addr \<Rightarrow>
               (case to_compressed_pubkey (key_from_slice L) pubkey of
                  None \<Rightarrow> ret (Inl ''ERROR: unable to parse given pubkey for node'')
                | Some pk \<Rightarrow> ret (Inr (pk, addr))))
     | _ \<Rightarrow> ret (Inl ''ERROR: incorrectly formatted peer info. Should be formatted as: `pubkey@host:port`''))"

text \<open>
  The loop of \<open>do_connect_peer\<close>: wait until the connection closed or 10 milliseconds went by, then look
  whether the handshake is done. \<open>None\<close> is a loop that has not ended within the fuel.
\<close>

fun connect_loop ::
  "nat \<Rightarrow> 'l peer_lib_scheme \<Rightarrow> pubkey \<Rightarrow> ('b world_scheme, (unit + unit) option) prog" where
  "connect_loop 0 L pubkey = ret None"
| "connect_loop (Suc k) L pubkey =
    bindP (ask (select_closed L)) (\<lambda>closed.
      if closed then ret (Some (Inl ()))
      else thenP (emit (SleepMillis 10))
        (bindP (ask (\<lambda>h. peer_connected L h pubkey)) (\<lambda>connected.
           if connected then ret (Some (Inr ())) else connect_loop k L pubkey)))"

definition do_connect_peer ::
  "'l peer_lib_scheme \<Rightarrow> pubkey \<Rightarrow> sock_addr \<Rightarrow> ('b world_scheme, (unit + unit) option) prog" where
  "do_connect_peer L pubkey peer_addr =
    bindP (call (Peer (ConnectOutbound pubkey peer_addr)) (connect_outbound L)) (\<lambda>started.
      if started then connect_loop (connect_fuel L) L pubkey else ret (Some (Inl ())))"

definition connect_peer_if_necessary ::
  "'l peer_lib_scheme \<Rightarrow> pubkey \<Rightarrow> sock_addr \<Rightarrow> ('b world_scheme, (unit + unit) option) prog" where
  "connect_peer_if_necessary L pubkey peer_addr =
    bindP (ask (\<lambda>h. peer_connected L h pubkey)) (\<lambda>connected.
      if connected then ret (Some (Inr ()))
      else bindP (do_connect_peer L pubkey peer_addr) (\<lambda>res.
        case res of
          Some (Inl _) \<Rightarrow> thenP (println ''ERROR: failed to connect to peer'') (ret res)
        | _ \<Rightarrow> ret res))"

definition do_disconnect_peer ::
  "'l cli_lib_scheme \<Rightarrow> pubkey \<Rightarrow> ('b world_scheme, unit + unit) prog" where
  "do_disconnect_peer L pubkey =
    bindP (ask (channels_of L)) (\<lambda>channels.
      if \<exists>c \<in> set channels. cd_node_id c = pubkey then
        thenP (println ''Error: Node has an active channel with this peer, close any channels first'')
          (ret (Inl ()))
      else bindP (ask (\<lambda>h. peer_connected L h pubkey)) (\<lambda>connected.
        if \<not> connected then
          thenP (println (''Error: Could not find peer '' @ show_pubkey L pubkey)) (ret (Inl ()))
        else thenP (emit (Peer (DisconnectPeer pubkey))) (ret (Inr ()))))"

section \<open>Channels\<close>

definition open_channel ::
  "'l cli_lib_scheme \<Rightarrow> pubkey \<Rightarrow> u64 \<Rightarrow> bool \<Rightarrow> bool \<Rightarrow> ('b world_scheme, unit + unit) prog" where
  "open_channel L peer_pubkey channel_amt_sat announce with_anchors =
    (let config = \<lparr>their_to_self_delay = 2016, announce_for_forwarding = announce,
                   negotiate_anchors = with_anchors\<rparr> in
     bindP (call (Channel (CreateChannel peer_pubkey channel_amt_sat 0 0 config)) (create_channel L)) (\<lambda>r.
       case r of
         Inr _ \<Rightarrow>
           thenP (println (''EVENT: initiated channel with peer '' @ show_pubkey L peer_pubkey @ ''. ''))
             (ret (Inr ()))
       | Inl e \<Rightarrow> thenP (println (''ERROR: failed to open channel: '' @ e)) (ret (Inl ()))))"

definition close_channel ::
  "'l cli_lib_scheme \<Rightarrow> channel_id \<Rightarrow> pubkey \<Rightarrow> ('b world_scheme, unit) prog" where
  "close_channel L channel_id counterparty_node_id =
    bindP (call (Channel (CloseChannel channel_id counterparty_node_id)) (close_result L)) (\<lambda>r.
      case r of
        Inr _ \<Rightarrow> println ''EVENT: initiating channel close''
      | Inl e \<Rightarrow> println (''ERROR: failed to close channel: '' @ e))"

definition force_close_channel ::
  "'l cli_lib_scheme \<Rightarrow> channel_id \<Rightarrow> pubkey \<Rightarrow> ('b world_scheme, unit) prog" where
  "force_close_channel L channel_id counterparty_node_id =
    bindP (call (Channel (ForceCloseChannel channel_id counterparty_node_id ''Manually force-closed''))
        (close_result L)) (\<lambda>r.
      case r of
        Inr _ \<Rightarrow> println ''EVENT: initiating channel force-close''
      | Inl e \<Rightarrow> println (''ERROR: failed to force-close channel: '' @ e))"

section \<open>Information\<close>

definition cmd_help :: "('b world_scheme, unit) prog" where
  "cmd_help = forP
    [nl @ ''VERSION:'', ''  ldk-sample v0.1.0'', nl @ ''USAGE:'', ''  Command [arguments]'',
     nl @ ''COMMANDS:'', ''  help'' @ tab @ ''Shows a list of commands.'',
     ''  quit'' @ tab @ ''Close the application.'',
     nl @ ''  Channels:'',
     ''      openchannel pubkey@[host:port] <amt_satoshis> [--public] [--with-anchors]'',
     ''      closechannel <channel_id> <peer_pubkey>'',
     ''      forceclosechannel <channel_id> <peer_pubkey>'',
     ''      listchannels'',
     nl @ ''  Peers:'', ''      connectpeer pubkey@host:port'', ''      disconnectpeer <peer_pubkey>'',
     ''      listpeers'',
     nl @ ''  Payments:'', ''      sendpayment <invoice|offer|human readable name> [<amount_msat>]'',
     ''      keysend <dest_pubkey> <amt_msats>'', ''      listpayments'',
     nl @ ''  Invoices:'', ''      getinvoice <amt_msats> <expiry_secs>'', ''      getoffer [<amt_msats>]'',
     nl @ ''  Other:'', ''      signmessage <message>'', ''      nodeinfo''] println"

text \<open>The sum of \<open>u64\<close> values, which panics on overflow where overflow checks are on.\<close>

fun sum_u64 :: "u64 \<Rightarrow> u64 list \<Rightarrow> ('s, u64) prog" where
  "sum_u64 acc [] = ret acc"
| "sum_u64 acc (x # xs) =
     (if unat acc + unat x < 2 ^ 64 then sum_u64 (acc + x) xs else panic Overflow)"

fun close_fee :: "balance \<Rightarrow> ('s, u64) prog" where
  "close_fee (ClaimableOnChannelClose balance_candidates i) =
     (if i < length balance_candidates then ret (balance_candidates ! i)
      else panic (Explicit ''index out of bounds''))"
| "close_fee _ = ret 0"

fun pending_payment :: "balance \<Rightarrow> u64" where
  "pending_payment (MaybeTimeoutClaimableHTLC amount_satoshis outbound_payment) =
     (if outbound_payment then amount_satoshis else 0)"
| "pending_payment _ = 0"

definition node_info :: "'l cli_lib_scheme \<Rightarrow> ('b world_scheme, unit) prog" where
  "node_info L =
    thenP (println (tab @ ''{''))
    (thenP (println (tab @ tab @ '' node_pubkey: '' @ show_pubkey L (our_node_id L)))
    (bindP (ask (channels_of L)) (\<lambda>chans.
     thenP (println (tab @ tab @ '' num_channels: '' @ show_nat (length chans)))
    (thenP (println (tab @ tab @ '' num_usable_channels: '' @ show_nat (length (filter cd_is_usable chans))))
    (bindP (ask (balances_of L)) (\<lambda>balances.
     bindP (sum_u64 0 (map (claimable_amount L) balances)) (\<lambda>local_balance_sat.
     thenP (println (tab @ tab @ '' local_balance_sats: '' @ show_u64 local_balance_sat))
    (bindP (mapP close_fee balances) (\<lambda>fs. bindP (sum_u64 0 fs) (\<lambda>close_fees_sats.
     thenP (println (tab @ tab @ '' eventual_close_fees_sats: '' @ show_u64 close_fees_sats))
    (bindP (sum_u64 0 (map pending_payment balances)) (\<lambda>pending_payments.
     thenP (println (tab @ tab @ '' pending_outbound_payments_sats: '' @ show_u64 pending_payments))
    (bindP (ask (peers_of L)) (\<lambda>peers.
     thenP (println (tab @ tab @ '' num_peers: '' @ show_nat (length peers)))
    (bindP (ask (graph_size L)) (\<lambda>(nodes, channels).
     thenP (println (tab @ tab @ '' network_nodes: '' @ show_nat nodes))
    (thenP (println (tab @ tab @ '' network_channels: '' @ show_nat channels))
    (println (tab @ ''},'')))))))))))))))))))"

definition list_peers :: "'l peer_lib_scheme \<Rightarrow> ('b world_scheme, unit) prog" where
  "list_peers L =
    thenP (println (tab @ ''{''))
    (bindP (ask (peers_of L)) (\<lambda>peers.
     thenP (forP peers (\<lambda>p. println (tab @ tab @ '' pubkey: '' @ show_pubkey L p)))
    (println (tab @ ''},''))))"

definition list_channel :: "'l cli_lib_scheme \<Rightarrow> channel_details \<Rightarrow> ('b world_scheme, unit) prog" where
  "list_channel L c =
    (let field = (\<lambda>t. println (tab @ tab @ t)) in
     thenP (println [])
    (thenP (println (tab @ ''{''))
    (thenP (field (''channel_id: '' @ show_channel_id L (cd_channel_id c) @ '',''))
    (thenP (case cd_funding_txid c of
        Some txid \<Rightarrow> field (''funding_txid: '' @ txid @ '','') | None \<Rightarrow> ret ())
    (thenP (field (''peer_pubkey: '' @ hex_str (cd_node_id c) @ '',''))
    (bindP (ask (\<lambda>h. graph_node L h (cd_node_id c))) (\<lambda>node_info.
     thenP (case node_info of
        Some (Some announcement) \<Rightarrow> field (''peer_alias: '' @ ann_alias announcement)
      | _ \<Rightarrow> ret ())
    (thenP (case cd_scid c of
        Some i \<Rightarrow> field (''short_channel_id: '' @ show_u64 i @ '','') | None \<Rightarrow> ret ())
    (thenP (field (''is_channel_ready: '' @ show_bool (cd_is_ready c) @ '',''))
    (thenP (field (''channel_value_satoshis: '' @ show_u64 (cd_value_sat c) @ '',''))
    (thenP (field (''outbound_capacity_msat: '' @ show_u64 (cd_outbound_msat c) @ '',''))
    (thenP (if cd_is_usable c then
        thenP (field (''available_balance_for_send_msat: '' @ show_u64 (cd_outbound_msat c) @ '',''))
        (field (''available_balance_for_recv_msat: '' @ show_u64 (cd_inbound_msat c) @ '',''))
      else ret ())
    (thenP (field (''channel_can_send_payments: '' @ show_bool (cd_is_usable c) @ '',''))
    (thenP (field (''public: '' @ show_bool (cd_is_announced c) @ '',''))
    (println (tab @ ''},''))))))))))))))))"

definition list_channels :: "'l cli_lib_scheme \<Rightarrow> ('b world_scheme, unit) prog" where
  "list_channels L =
    thenP (print ''['')
    (bindP (ask (channels_of L)) (\<lambda>chans.
     thenP (forP chans (list_channel L)) (println '']'')))"

fun show_status :: "htlc_status \<Rightarrow> string" where
  "show_status Pending = ''pending''"
| "show_status Succeeded = ''succeeded''"
| "show_status Failed = ''failed''"

definition list_payment ::
  "'l ldk_scheme \<Rightarrow> string \<Rightarrow> bytes \<times> payment_info \<Rightarrow> ('b world_scheme, unit) prog" where
  "list_payment L direction = (\<lambda>(payment_hash, payment_info).
     thenP (println [])
    (thenP (println (tab @ ''{''))
    (thenP (println (tab @ tab @ ''amount_millisatoshis: '' @ show_millisat (amt_msat payment_info) @ '',''))
    (thenP (println (tab @ tab @ ''payment_hash: '' @ show_hash L payment_hash @ '',''))
    (thenP (println (tab @ tab @ ''htlc_direction: '' @ direction @ '',''))
    (thenP (println (tab @ tab @ ''htlc_status: '' @ show_status (status payment_info) @ '',''))
    (println (tab @ ''},''))))))))"

definition list_payments :: "'l ldk_scheme \<Rightarrow> ('b node_scheme, unit) prog" where
  "list_payments L =
    thenP (print ''['')
    (bindP (gets inbound) (\<lambda>inb. bindP (ask (\<lambda>h. iter L h inb)) (\<lambda>ps.
     thenP (forP ps (list_payment L ''inbound''))
    (bindP (gets outbound) (\<lambda>outb. bindP (ask (\<lambda>h. iter L h outb)) (\<lambda>qs.
     thenP (forP qs (list_payment L ''outbound''))
    (println '']'')))))))"

section \<open>Commands\<close>

text \<open>A command that prints a message and goes on to the next line.\<close>

definition complain :: "string \<Rightarrow> ('b world_scheme, control) prog" where
  "complain msg = thenP (println msg) (ret Continue)"

text \<open>
  The flags of \<open>openchannel\<close>. The \<open>continue\<close> after an invalid one goes on with the next flag.
\<close>

definition flag_error :: string where
  "flag_error = ''ERROR: invalid boolean flag format. Valid formats: `--option`, `--option=true` `--option=false`''"

primrec channel_flags :: "string list \<Rightarrow> bool \<Rightarrow> bool \<Rightarrow> ('b world_scheme, bool \<times> bool) prog" where
  "channel_flags [] = (\<lambda>announce anchors. ret (announce, anchors))"
| "channel_flags (w # ws) = (\<lambda>announce anchors.
     if w = ''--public'' \<or> w = ''--public=true'' then channel_flags ws True anchors
     else if w = ''--public=false'' then channel_flags ws False anchors
     else if w = ''--with-anchors'' \<or> w = ''--with-anchors=true'' then channel_flags ws announce True
     else if w = ''--with-anchors=false'' then channel_flags ws announce False
     else thenP (println flag_error) (channel_flags ws announce anchors))"

definition openchannel_with ::
  "'l cli_lib_scheme \<Rightarrow> pubkey \<Rightarrow> string \<Rightarrow> string list \<Rightarrow> ('b world_scheme, control) prog" where
  "openchannel_with L pubkey channel_value_sat flags =
    (case parse_u64 channel_value_sat of
       Inl _ \<Rightarrow> complain ''ERROR: channel amount must be a number''
     | Inr chan_amt_sat \<Rightarrow>
         bindP (channel_flags flags False False) (\<lambda>(announce, anchors).
         bindP (open_channel L pubkey chan_amt_sat announce anchors) (\<lambda>_. ret Continue)))"

definition cmd_openchannel ::
  "'l cli_lib_scheme \<Rightarrow> string list \<Rightarrow> ('b world_scheme, control) prog" where
  "cmd_openchannel L words =
    (case words of
       peer # channel_value_sat # flags \<Rightarrow>
         (case to_compressed_pubkey (key_from_slice L) (hd (split_on (CHR ''@'') peer)) of
            None \<Rightarrow> complain ''ERROR: unable to parse given pubkey for node''
          | Some pubkey \<Rightarrow>
              if tl (split_on (CHR ''@'') peer) = [] then
                bindP (ask (\<lambda>h. peer_connected L h pubkey)) (\<lambda>connected.
                  if \<not> connected then
                    complain ''ERROR: Peer address not provided and peer is not connected''
                  else openchannel_with L pubkey channel_value_sat flags)
              else
                bindP (parse_peer_info L peer) (\<lambda>info.
                  case info of
                    Inl e \<Rightarrow> complain (debug_str e)
                  | Inr (pk, peer_addr) \<Rightarrow>
                      bindP (connect_peer_if_necessary L pk peer_addr) (\<lambda>res.
                        case res of
                          None \<Rightarrow> ret Blocked
                        | Some (Inl _) \<Rightarrow> ret Continue
                        | Some (Inr _) \<Rightarrow> openchannel_with L pubkey channel_value_sat flags)))
     | _ \<Rightarrow> complain ''ERROR: openchannel has 2 required arguments: `openchannel pubkey@host:port channel_amt_satoshis` [--public] [--with-anchors]'')"

definition cmd_keysend ::
  "'l peer_lib_scheme \<Rightarrow> string list \<Rightarrow> ('b node_scheme, control) prog" where
  "cmd_keysend L words =
    (case words of
       [] \<Rightarrow> complain ''ERROR: keysend requires a destination pubkey: `keysend <dest_pubkey> <amt_msat>`''
     | dest # rest \<Rightarrow>
         (case to_compressed_pubkey (key_from_slice L) dest of
            None \<Rightarrow> complain ''ERROR: couldn't parse destination pubkey''
          | Some dest_pubkey \<Rightarrow>
              (case rest of
                 [] \<Rightarrow> complain ''ERROR: keysend requires an amount in millisatoshis: `keysend <dest_pubkey> <amt_msat>`''
               | amt_msat_str # _ \<Rightarrow>
                   (case parse_u64 amt_msat_str of
                      Inl e \<Rightarrow> complain (''ERROR: couldn't parse amount_msat: '' @ show_int_error e)
                    | Inr amt \<Rightarrow> thenP (keysend L dest_pubkey amt) (ret Continue)))))"

definition cmd_getoffer :: "'l cli_lib_scheme \<Rightarrow> string list \<Rightarrow> ('b world_scheme, control) prog" where
  "cmd_getoffer L words =
    bindP (ask (offer_builder L)) (\<lambda>builder.
      case builder of
        Inl e \<Rightarrow> complain (''ERROR: Failed to initiate offer building: '' @ e)
      | Inr _ \<Rightarrow>
          (let build = (\<lambda>amt. bindP (call (Channel (BuildOffer amt)) (build_offer L)) (\<lambda>off.
             case off of
               Inl e \<Rightarrow> complain (''ERROR: Failed to build offer: '' @ e)
             | Inr t \<Rightarrow> complain t)) in
           case words of
             [] \<Rightarrow> build None
           | amt_str # _ \<Rightarrow>
               (case parse_u64 amt_str of
                  Inl _ \<Rightarrow> complain ''ERROR: getoffer provided payment amount was not a number''
                | Inr amt \<Rightarrow> build (Some amt))))"

definition cmd_getinvoice :: "'l ldk_scheme \<Rightarrow> string list \<Rightarrow> ('b node_scheme, control) prog" where
  "cmd_getinvoice L words =
    (case words of
       [] \<Rightarrow> complain ''ERROR: getinvoice requires an amount in millisatoshis''
     | amt_str # rest \<Rightarrow>
         (case parse_u64 amt_str of
            Inl _ \<Rightarrow> complain ''ERROR: getinvoice provided payment amount was not a number''
          | Inr amt \<Rightarrow>
              (case rest of
                 [] \<Rightarrow> complain ''ERROR: getinvoice requires an expiry in seconds''
               | expiry_secs_str # _ \<Rightarrow>
                   (case parse_u32 expiry_secs_str of
                      Inl _ \<Rightarrow> complain ''ERROR: getinvoice provided expiry was not a number''
                    | Inr expiry_secs \<Rightarrow> thenP (getinvoice_write L amt expiry_secs) (ret Continue)))))"

definition cmd_connectpeer ::
  "'l peer_lib_scheme \<Rightarrow> string list \<Rightarrow> ('b world_scheme, control) prog" where
  "cmd_connectpeer L words =
    (case words of
       [] \<Rightarrow> complain ''ERROR: connectpeer requires peer connection info: `connectpeer pubkey@host:port`''
     | peer # _ \<Rightarrow>
         bindP (parse_peer_info L peer) (\<lambda>info.
           case info of
             Inl e \<Rightarrow> complain (debug_str e)
           | Inr (pubkey, peer_addr) \<Rightarrow>
               bindP (connect_peer_if_necessary L pubkey peer_addr) (\<lambda>res.
                 case res of
                   None \<Rightarrow> ret Blocked
                 | Some (Inl _) \<Rightarrow> ret Continue
                 | Some (Inr _) \<Rightarrow> complain (''SUCCESS: connected to peer '' @ show_pubkey L pubkey))))"

definition cmd_disconnectpeer ::
  "'l cli_lib_scheme \<Rightarrow> string list \<Rightarrow> ('b world_scheme, control) prog" where
  "cmd_disconnectpeer L words =
    (case words of
       [] \<Rightarrow> complain ''ERROR: disconnectpeer requires peer public key: `disconnectpeer <peer_pubkey>`''
     | peer # _ \<Rightarrow>
         (case key_from_str L peer of
            Inl e \<Rightarrow> complain (''ERROR: '' @ e)
          | Inr peer_pubkey \<Rightarrow>
              bindP (do_disconnect_peer L peer_pubkey) (\<lambda>r.
                case r of
                  Inr _ \<Rightarrow> complain (''SUCCESS: disconnected from peer '' @ show_pubkey L peer_pubkey)
                | Inl _ \<Rightarrow> ret Continue)))"

text \<open>The arguments of \<open>closechannel\<close> and \<open>forceclosechannel\<close>, which read them the same way.\<close>

definition close_args ::
  "'l cli_lib_scheme \<Rightarrow> string \<Rightarrow> string list \<Rightarrow> string + channel_id \<times> pubkey" where
  "close_args L cmd words =
    (case words of
       [] \<Rightarrow> Inl (''ERROR: '' @ cmd @ '' requires a channel ID: `'' @ cmd @ '' <channel_id> <peer_pubkey>`'')
     | channel_id_str # rest \<Rightarrow>
         (case to_vec channel_id_str of
            None \<Rightarrow> Inl ''ERROR: couldn't parse channel_id''
          | Some channel_id \<Rightarrow>
              if length channel_id \<noteq> 32 then Inl ''ERROR: couldn't parse channel_id''
              else (case rest of
                 [] \<Rightarrow> Inl (''ERROR: '' @ cmd @ '' requires a peer pubkey: `'' @ cmd @ '' <channel_id> <peer_pubkey>`'')
               | peer_pubkey_str # _ \<Rightarrow>
                   (case to_vec peer_pubkey_str of
                      None \<Rightarrow> Inl ''ERROR: couldn't parse peer_pubkey''
                    | Some v \<Rightarrow>
                        (case key_from_slice L v of
                           None \<Rightarrow> Inl ''ERROR: couldn't parse peer_pubkey''
                         | Some peer_pubkey \<Rightarrow> Inr (channel_id, peer_pubkey))))))"

definition cmd_closechannel ::
  "'l cli_lib_scheme \<Rightarrow> string list \<Rightarrow> ('b world_scheme, control) prog" where
  "cmd_closechannel L words =
    (case close_args L ''closechannel'' words of
       Inl e \<Rightarrow> complain e
     | Inr (channel_id, peer_pubkey) \<Rightarrow> thenP (close_channel L channel_id peer_pubkey) (ret Continue))"

definition cmd_forceclosechannel ::
  "'l cli_lib_scheme \<Rightarrow> string list \<Rightarrow> ('b world_scheme, control) prog" where
  "cmd_forceclosechannel L words =
    (case close_args L ''forceclosechannel'' words of
       Inl e \<Rightarrow> complain e
     | Inr (channel_id, peer_pubkey) \<Rightarrow> thenP (force_close_channel L channel_id peer_pubkey) (ret Continue))"

text \<open>\<open>signmessage\<close> signs the bytes of the trimmed line after its first twelve.\<close>

definition cmd_signmessage :: "'l cli_lib_scheme \<Rightarrow> string \<Rightarrow> ('b world_scheme, control) prog" where
  "cmd_signmessage L line =
    (if length (trim line) \<le> 12 then complain ''ERROR: signmsg requires a message''
     else complain (sign_message L (drop 12 (as_bytes (trim line)))))"

definition command ::
  "'l cli_lib_scheme \<Rightarrow> string \<Rightarrow> string \<Rightarrow> string list \<Rightarrow> ('b cli_node_scheme, control) prog" where
  "command L line word words =
    (if word = ''help'' then thenP cmd_help (ret Continue)
     else if word = ''openchannel'' then cmd_openchannel L words
     else if word = ''sendpayment'' then cmd_sendpayment L words
     else if word = ''keysend'' then cmd_keysend L words
     else if word = ''getoffer'' then cmd_getoffer L words
     else if word = ''getinvoice'' then cmd_getinvoice L words
     else if word = ''connectpeer'' then cmd_connectpeer L words
     else if word = ''disconnectpeer'' then cmd_disconnectpeer L words
     else if word = ''listchannels'' then thenP (list_channels L) (ret Continue)
     else if word = ''listpayments'' then thenP (list_payments L) (ret Continue)
     else if word = ''closechannel'' then cmd_closechannel L words
     else if word = ''forceclosechannel'' then cmd_forceclosechannel L words
     else if word = ''nodeinfo'' then thenP (node_info L) (ret Continue)
     else if word = ''listpeers'' then thenP (list_peers L) (ret Continue)
     else if word = ''signmessage'' then cmd_signmessage L line
     else if word = ''quit'' \<or> word = ''exit'' then ret Break
     else complain (''Unknown command. See `'' @ quote @ ''help'' @ quote @ '' for available commands.''))"

section \<open>The command loop\<close>

text \<open>One turn of the loop: a prompt, a line, and the command on it.\<close>

definition read_command :: "'l cli_lib_scheme \<Rightarrow> ('b cli_node_scheme, control) prog" where
  "read_command L =
    thenP prompt
    (bindP (gets stdin) (\<lambda>items.
      case items of
        [] \<Rightarrow> thenP (println ''ERROR: End of stdin'') (ret Break)
      | item # rest \<Rightarrow>
          thenP (modify (\<lambda>n. n\<lparr>stdin := rest\<rparr>))
          (case item of
             ReadError e \<Rightarrow> thenP (println (''ERROR: '' @ e)) (ret Break)
           | Line line \<Rightarrow>
               (case split_whitespace line of
                  [] \<Rightarrow> ret Continue
                | word # words \<Rightarrow> command L line word words))))"

text \<open>The loop, with fuel: \<open>Continue\<close> is a run that has not ended when the fuel is used up.\<close>

fun read_commands :: "nat \<Rightarrow> 'l cli_lib_scheme \<Rightarrow> ('b cli_node_scheme, control) prog" where
  "read_commands 0 L = ret Continue"
| "read_commands (Suc k) L =
    bindP (read_command L) (\<lambda>c. case c of Continue \<Rightarrow> read_commands k L | _ \<Rightarrow> ret c)"

definition poll_for_user_input :: "nat \<Rightarrow> 'l cli_lib_scheme \<Rightarrow> ('b cli_node_scheme, control) prog" where
  "poll_for_user_input fuel L =
    thenP (println (''LDK startup successful. Enter '' @ quote @ ''help'' @ quote
      @ '' to view available commands. Press Ctrl-D to quit.''))
    (thenP (println ''LDK logs are available at <your-supplied-ldk-data-dir-path>/.ldk/logs'')
    (thenP (println (''Local Node ID is '' @ show_pubkey L (our_node_id L) @ ''.''))
    (read_commands fuel L)))"

end
