(* ===== verification/Events.thy ===== *)
theory Events
  imports Cli
begin

text \<open>
  \<open>handle_ldk_events\<close> of \<open>src/main.rs\<close>: what the node does for each event LDK hands to it. Events are
  grouped by what they are about; those the handler ignores are one group of their own.
\<close>

section \<open>Events\<close>

text \<open>\<open>PaymentPurpose\<close>, with the preimage and the secret each case carries.\<close>

datatype payment_purpose =
    Bolt11InvoicePayment "payment_preimage option" payment_secret
  | Bolt12OfferPayment "payment_preimage option" payment_secret
  | Bolt12RefundPayment "payment_preimage option" payment_secret
  | SpontaneousPayment payment_preimage

datatype payment_event =
    PaymentClaimable payment_hash payment_purpose u64
  | PaymentClaimed payment_hash payment_purpose u64
  | PaymentSent payment_preimage payment_hash "u64 option" "payment_id option"
      \<comment> \<open>with \<open>fee_paid_msat\<close> and \<open>payment_id\<close>\<close>
  | PaymentFailed "payment_hash option" "string option" payment_id
      \<comment> \<open>with the \<open>reason\<close>\<close>
  | PaymentForwarded "channel_id option" "channel_id option" "u64 option" bool "u64 option"
      \<comment> \<open>previous and next channel, fee earned, whether claimed from an on-chain transaction, amount\<close>

datatype channel_event =
    FundingGenerationReady channel_id pubkey u64 bytes
  | OpenChannelRequest channel_id pubkey
  | ChannelPending channel_id pubkey
  | ChannelReady channel_id pubkey
  | ChannelClosed channel_id string "pubkey option"

datatype other_event =
    SpendableOutputs "bytes list" "channel_id option"
  | BumpTransaction string
  | ConnectionNeeded pubkey "socket_address list"

datatype ignored_event =
    FundingTxBroadcastSafe | PaymentPathSuccessful | PaymentPathFailed | ProbeSuccessful | ProbeFailed
  | InvoiceReceived | HTLCHandlingFailed | DiscardFunding | HTLCIntercepted | OnionMessageIntercepted
  | OnionMessagePeerConnected | AnyOther

datatype event =
    PaymentEvent payment_event
  | ChannelEvent channel_event
  | OtherEvent other_event
  | IgnoredEvent ignored_event

record event_lib = cli_lib +
  to_bech32 :: "network \<Rightarrow> bytes \<Rightarrow> string option"
  deserialize_tx :: "bytes \<Rightarrow> bytes option"
  funding_result :: "hist \<Rightarrow> string + unit"
  accept_result :: "hist \<Rightarrow> string + unit"
  track_result :: "hist \<Rightarrow> unit + unit"
  resolve_all :: "hist \<Rightarrow> socket_address \<Rightarrow> sock_addr list option"

section \<open>Funding\<close>

fun bech32_network :: "network \<Rightarrow> network" where
  "bech32_network Bitcoin = Bitcoin"
| "bech32_network Regtest = Regtest"
| "bech32_network Signet = Signet"
| "bech32_network _ = Testnet"

text \<open>\<open>Option::expect\<close>.\<close>

definition expect :: "string \<Rightarrow> 'a option \<Rightarrow> ('s, 'a) prog" where
  "expect msg x = (case x of Some v \<Rightarrow> ret v | None \<Rightarrow> panic (Explicit msg))"

definition sat_as_btc :: "u64 \<Rightarrow> f64" where
  "sat_as_btc channel_value_satoshis = f64_div (u64_as_f64 channel_value_satoshis) (Finite 100000000)"

definition funding_gone :: string where
  "funding_gone = ''ERROR: Channel went away before we could fund it. The peer disconnected or refused the channel.''"

definition handle_funding ::
  "'l event_lib_scheme \<Rightarrow> ('j, 'r) rpc_lib_scheme \<Rightarrow> network \<Rightarrow> channel_id \<Rightarrow> pubkey \<Rightarrow> u64 \<Rightarrow> bytes \<Rightarrow>
   ('b client_state_scheme, unit) prog" where
  "handle_funding L R net temporary_channel_id counterparty_node_id channel_value_satoshis output_script =
    bindP (expect ''Lightning funding tx should always be to a SegWit output''
        (to_bech32 L (bech32_network net) output_script)) (\<lambda>addr.
    bindP (create_raw_transaction R [[(addr, sat_as_btc channel_value_satoshis)]]) (\<lambda>raw_tx.
    bindP (fund_raw_transaction R raw_tx) (\<lambda>funded_tx.
    bindP (sign_raw_transaction_with_wallet R (funded_hex funded_tx)) (\<lambda>signed_tx.
    thenP (assertP (complete signed_tx = True))
    (bindP (unwrap (to_vec (signed_hex signed_tx))) (\<lambda>tx_bytes.
    bindP (unwrap (deserialize_tx L tx_bytes)) (\<lambda>final_tx.
    bindP (call (Channel (FundingGenerated temporary_channel_id counterparty_node_id final_tx))
        (funding_result L)) (\<lambda>r.
      case r of
        Inr _ \<Rightarrow> ret ()
      | Inl _ \<Rightarrow> thenP (println (nl @ funding_gone)) prompt))))))))"

section \<open>Payments\<close>

fun claimable_preimage :: "payment_purpose \<Rightarrow> payment_preimage option" where
  "claimable_preimage (Bolt11InvoicePayment payment_preimage _) = payment_preimage"
| "claimable_preimage (Bolt12OfferPayment payment_preimage _) = payment_preimage"
| "claimable_preimage (Bolt12RefundPayment payment_preimage _) = payment_preimage"
| "claimable_preimage (SpontaneousPayment p) = Some p"

fun claimed_proof :: "payment_purpose \<Rightarrow> payment_preimage option \<times> payment_secret option" where
  "claimed_proof (Bolt11InvoicePayment payment_preimage payment_secret) = (payment_preimage, Some payment_secret)"
| "claimed_proof (Bolt12OfferPayment payment_preimage payment_secret) = (payment_preimage, Some payment_secret)"
| "claimed_proof (Bolt12RefundPayment payment_preimage payment_secret) = (payment_preimage, Some payment_secret)"
| "claimed_proof (SpontaneousPayment p) = (Some p, None)"

definition handle_claimable ::
  "'l ldk_scheme \<Rightarrow> payment_hash \<Rightarrow> payment_purpose \<Rightarrow> u64 \<Rightarrow> ('b world_scheme, unit) prog" where
  "handle_claimable L payment_hash purpose amount_msat =
    thenP (println (nl @ ''EVENT: received payment from payment hash '' @ show_hash L payment_hash @ '' of ''
      @ show_u64 amount_msat @ '' millisatoshis''))
    (thenP prompt
    (bindP (unwrap (claimable_preimage purpose)) (\<lambda>p. emit (Channel (ClaimFunds p)))))"

text \<open>The entry of a claimed payment: one that exists keeps its amount.\<close>

definition claimed_entry ::
  "payment_info option \<Rightarrow> payment_purpose \<Rightarrow> u64 \<Rightarrow> payment_info" where
  "claimed_entry old purpose amount_msat =
    (let (payment_preimage, payment_secret) = claimed_proof purpose in
     case old of
       Some payment \<Rightarrow>
         payment\<lparr>status := Succeeded, preimage := payment_preimage, secret := payment_secret\<rparr>
     | None \<Rightarrow>
         \<lparr>preimage = payment_preimage, secret = payment_secret, status = Succeeded,
          amt_msat = MillisatAmount (Some amount_msat)\<rparr>)"

definition handle_claimed ::
  "'l ldk_scheme \<Rightarrow> payment_hash \<Rightarrow> payment_purpose \<Rightarrow> u64 \<Rightarrow> ('b node_scheme, unit) prog" where
  "handle_claimed L payment_hash purpose amount_msat =
    thenP (println (nl @ ''EVENT: claimed payment from payment hash '' @ show_hash L payment_hash @ '' of ''
      @ show_u64 amount_msat @ '' millisatoshis''))
    (thenP prompt
    (thenP (modify (\<lambda>n. n\<lparr>inbound := fmupd payment_hash
        (claimed_entry (fmlookup (inbound n) payment_hash) purpose amount_msat) (inbound n)\<rparr>))
    (write_inbound L)))"

text \<open>One turn of the loop over the entries: the identifier is unwrapped for every entry.\<close>

definition sent_entry ::
  "'l ldk_scheme \<Rightarrow> payment_preimage \<Rightarrow> payment_hash \<Rightarrow> u64 option \<Rightarrow> payment_id option \<Rightarrow>
   bytes \<times> payment_info \<Rightarrow> ('b node_scheme, unit) prog" where
  "sent_entry L payment_preimage payment_hash fee_paid_msat payment_id = (\<lambda>(i, payment).
    bindP (unwrap payment_id) (\<lambda>pid.
      if i = pid then
        thenP (modify (\<lambda>n. n\<lparr>outbound := fmupd i
          (payment\<lparr>preimage := Some payment_preimage, status := Succeeded\<rparr>) (outbound n)\<rparr>))
        (thenP (println (nl @ ''EVENT: successfully sent payment of '' @ show_millisat (amt_msat payment)
          @ '' millisatoshis''
          @ (case fee_paid_msat of Some fee \<Rightarrow> '' (fee '' @ show_u64 fee @ '' msat)'' | None \<Rightarrow> [])
          @ '' from payment hash '' @ show_hash L payment_hash @ '' with preimage ''
          @ show_hash L payment_preimage))
        prompt)
      else ret ()))"

definition handle_sent ::
  "'l ldk_scheme \<Rightarrow> payment_preimage \<Rightarrow> payment_hash \<Rightarrow> u64 option \<Rightarrow> payment_id option \<Rightarrow>
   ('b node_scheme, unit) prog" where
  "handle_sent L payment_preimage payment_hash fee_paid_msat payment_id =
    thenP (bindP (gets outbound) (\<lambda>m. bindP (ask (\<lambda>h. iter L h m)) (\<lambda>entries.
      forP entries (sent_entry L payment_preimage payment_hash fee_paid_msat payment_id))))
    (write_outbound L)"

definition failure_reason :: "string option \<Rightarrow> string" where
  "failure_reason reason = (case reason of Some r \<Rightarrow> r | None \<Rightarrow> ''RetriesExhausted'')"

definition handle_failed ::
  "'l ldk_scheme \<Rightarrow> payment_hash option \<Rightarrow> string option \<Rightarrow> payment_id \<Rightarrow> ('b node_scheme, unit) prog" where
  "handle_failed L payment_hash reason payment_id =
    thenP (print (case payment_hash of
        Some hash \<Rightarrow> nl @ ''EVENT: Failed to send payment to payment ID '' @ show_hash L payment_id
          @ '', payment hash '' @ show_hash L hash @ '': '' @ failure_reason reason
      | None \<Rightarrow> nl @ ''EVENT: Failed fetch invoice for payment ID '' @ show_hash L payment_id @ '': ''
          @ failure_reason reason))
    (thenP prompt
    (thenP (modify (\<lambda>n. case fmlookup (outbound n) payment_id of
        Some payment \<Rightarrow> n\<lparr>outbound := fmupd payment_id (payment\<lparr>status := Failed\<rparr>) (outbound n)\<rparr>
      | None \<Rightarrow> n))
    (write_outbound L)))"

text \<open>The name of the peer at the other end of a channel, for the message on a forwarded payment.\<close>

definition node_str ::
  "(pubkey \<Rightarrow> announcement option option) \<Rightarrow> channel_details list \<Rightarrow> channel_id option \<Rightarrow> string" where
  "node_str nodes channels channel_id =
    (case channel_id of
       None \<Rightarrow> []
     | Some i \<Rightarrow>
         (case find (\<lambda>c. cd_channel_id c = i) channels of
            None \<Rightarrow> []
          | Some channel \<Rightarrow>
              (case nodes (cd_node_id channel) of
                 None \<Rightarrow> ''private node''
               | Some None \<Rightarrow> ''unnamed node''
               | Some (Some announcement) \<Rightarrow> ''node '' @ ann_alias announcement)))"

definition channel_str :: "'l cli_lib_scheme \<Rightarrow> channel_id option \<Rightarrow> string" where
  "channel_str L channel_id =
    (case channel_id of Some i \<Rightarrow> '' with channel '' @ show_channel_id L i | None \<Rightarrow> [])"

definition handle_forwarded ::
  "'l cli_lib_scheme \<Rightarrow> channel_id option \<Rightarrow> channel_id option \<Rightarrow> u64 option \<Rightarrow> bool \<Rightarrow> u64 option \<Rightarrow>
   ('b world_scheme, unit) prog" where
  "handle_forwarded L prev_channel_id next_channel_id total_fee_earned_msat claim_from_onchain_tx amount =
    bindP (ask (graph_node L)) (\<lambda>nodes.
    bindP (ask (channels_of L)) (\<lambda>channels.
    let from_prev_str = '' from '' @ node_str nodes channels prev_channel_id @ channel_str L prev_channel_id;
        to_next_str = '' to '' @ node_str nodes channels next_channel_id @ channel_str L next_channel_id;
        from_onchain_str = (if claim_from_onchain_tx then ''from onchain downstream claim''
          else ''from HTLC fulfill message'');
        amt_args = (case amount of Some v \<Rightarrow> show_u64 v | None \<Rightarrow> ''?'') in
    thenP (println (nl @ ''EVENT: Forwarded payment for '' @ amt_args @ '' msat'' @ from_prev_str @ to_next_str
      @ (case total_fee_earned_msat of
           Some fee_earned \<Rightarrow> '', earning '' @ show_u64 fee_earned @ '' msat '' @ from_onchain_str
         | None \<Rightarrow> '', claiming onchain '' @ from_onchain_str)))
    prompt))"

section \<open>Channels\<close>

text \<open>\<open>u128::from_be_bytes\<close> of the first 16 of 32 random bytes.\<close>

definition from_be_bytes :: "bytes \<Rightarrow> nat" where
  "from_be_bytes bs = foldl (\<lambda>n b. n * 256 + unat b) 0 bs"

definition handle_open_request ::
  "'l event_lib_scheme \<Rightarrow> channel_id \<Rightarrow> pubkey \<Rightarrow> ('b world_scheme, unit) prog" where
  "handle_open_request L temporary_channel_id counterparty_node_id =
    bindP (call RandomBytes (random_bytes L)) (\<lambda>random.
    let user_channel_id = from_be_bytes (take 16 random) in
    bindP (call (Channel (AcceptInbound temporary_channel_id counterparty_node_id user_channel_id))
        (accept_result L)) (\<lambda>res.
    thenP (case res of
        Inl e \<Rightarrow> print (nl @ ''EVENT: Failed to accept inbound channel (''
          @ show_channel_id L temporary_channel_id @ '') from '' @ hex_str counterparty_node_id @ '': '' @ e)
      | Inr _ \<Rightarrow> print (nl @ ''EVENT: Accepted inbound channel ('' @ show_channel_id L temporary_channel_id
          @ '') from '' @ hex_str counterparty_node_id))
    prompt))"

section \<open>Connections\<close>

text \<open>
  The task spawned for \<open>ConnectionNeeded\<close>: try the addresses in order until a connection is made.
  \<open>Some True\<close> is a task that ended with a connection, \<open>None\<close> one still waiting for a handshake.
\<close>

fun try_sockaddrs ::
  "'l peer_lib_scheme \<Rightarrow> pubkey \<Rightarrow> sock_addr list \<Rightarrow> ('b world_scheme, bool option) prog" where
  "try_sockaddrs L node_id [] = ret (Some False)"
| "try_sockaddrs L node_id (addr # rest) =
    bindP (connect_peer_if_necessary L node_id addr) (\<lambda>r.
      case r of
        None \<Rightarrow> ret None
      | Some (Inr _) \<Rightarrow> ret (Some True)
      | Some (Inl _) \<Rightarrow> try_sockaddrs L node_id rest)"

fun connection_task ::
  "'l event_lib_scheme \<Rightarrow> pubkey \<Rightarrow> socket_address list \<Rightarrow> ('b world_scheme, bool option) prog" where
  "connection_task L node_id [] = ret (Some False)"
| "connection_task L node_id (address # rest) =
    bindP (ask (\<lambda>h. resolve_all L h address)) (\<lambda>r.
      case r of
        None \<Rightarrow> connection_task L node_id rest
      | Some sockaddrs \<Rightarrow>
          bindP (try_sockaddrs L node_id sockaddrs) (\<lambda>done.
            if done = Some False then connection_task L node_id rest else ret done))"

section \<open>The handler\<close>

fun handle_payment_event ::
  "'l cli_lib_scheme \<Rightarrow> payment_event \<Rightarrow> ('b node_scheme, unit) prog" where
  "handle_payment_event L (PaymentClaimable hash purpose amt) = handle_claimable L hash purpose amt"
| "handle_payment_event L (PaymentClaimed hash purpose amt) = handle_claimed L hash purpose amt"
| "handle_payment_event L (PaymentSent p hash fee i) = handle_sent L p hash fee i"
| "handle_payment_event L (PaymentFailed hash reason i) = handle_failed L hash reason i"
| "handle_payment_event L (PaymentForwarded prev nxt fee onchain amt) =
     handle_forwarded L prev nxt fee onchain amt"

definition announce_event :: "string \<Rightarrow> ('b world_scheme, unit) prog" where
  "announce_event msg = thenP (println (nl @ ''EVENT: Channel '' @ msg)) prompt"

fun handle_channel_event ::
  "'l event_lib_scheme \<Rightarrow> ('j, 'r) rpc_lib_scheme \<Rightarrow> network \<Rightarrow> channel_event \<Rightarrow>
   ('b client_state_scheme, unit) prog" where
  "handle_channel_event L R net (FundingGenerationReady i pk v script) = handle_funding L R net i pk v script"
| "handle_channel_event L R net (OpenChannelRequest i pk) = handle_open_request L i pk"
| "handle_channel_event L R net (ChannelPending i pk) =
     announce_event (show_channel_id L i @ '' with peer '' @ hex_str pk @ '' is pending awaiting funding lock-in!'')"
| "handle_channel_event L R net (ChannelReady i pk) =
     announce_event (show_channel_id L i @ '' with peer '' @ hex_str pk @ '' is ready to be used!'')"
| "handle_channel_event L R net (ChannelClosed i reason pk) =
     announce_event (show_channel_id L i @ '' with counterparty ''
       @ (case pk of Some k \<Rightarrow> show_pubkey L k | None \<Rightarrow> []) @ '' closed due to: '' @ reason)"

fun handle_other_event :: "'l event_lib_scheme \<Rightarrow> other_event \<Rightarrow> ('b world_scheme, unit) prog" where
  "handle_other_event L (SpendableOutputs outputs i) =
     bindP (call (TrackOutputs outputs i False None) (track_result L)) unwrap_res"
| "handle_other_event L (BumpTransaction e) = emit (HandleBump e)"
| "handle_other_event L (ConnectionNeeded node_id addresses) = emit (Spawn ''connection_task'')"

fun handle_ldk_events ::
  "'l event_lib_scheme \<Rightarrow> ('j, 'r) rpc_lib_scheme \<Rightarrow> network \<Rightarrow> event \<Rightarrow> ('b node_scheme, unit) prog" where
  "handle_ldk_events L R net (PaymentEvent e) = handle_payment_event L e"
| "handle_ldk_events L R net (ChannelEvent e) = handle_channel_event L R net e"
| "handle_ldk_events L R net (OtherEvent e) = handle_other_event L e"
| "handle_ldk_events L R net (IgnoredEvent e) = ret ()"

end
