(* ===== verification/Args.thy ===== *)
theory Args
  imports Ldk_Types
begin

text \<open>
  \<open>src/args.rs\<close>: the command line arguments, and the places the credentials for bitcoind's RPC interface
  are looked for when they are not among them. The arguments, the environment, the file system and the
  parser of socket addresses are the record \<open>env\<close>; what is printed goes to the trace. The default data
  directory is the one for Linux.
\<close>

section \<open>Parameters and result\<close>

record env =
  argv :: "string list"
  env_var :: "string \<Rightarrow> string option"
  home_dir :: "string option"
  read_file :: "string \<Rightarrow> string option"
  parse_socket_address :: "string \<Rightarrow> socket_address option"

record ldk_user_info =
  bitcoind_rpc_username :: string
  bitcoind_rpc_password :: string
  bitcoind_rpc_port :: u16
  bitcoind_rpc_host :: string
  ldk_storage_dir_path :: string
  ldk_peer_listening_port :: u16
  ldk_announced_listen_addr :: "socket_address list"
  ldk_announced_node_name :: bytes
  user_network :: network

text \<open>\<open>env::args().skip(i).next()\<close>.\<close>

definition arg :: "env \<Rightarrow> nat \<Rightarrow> string option" where
  "arg E i = (if i < length (argv E) then Some (argv E ! i) else None)"

text \<open>\<open>Path::join\<close> on Unix.\<close>

definition path_join :: "string \<Rightarrow> string \<Rightarrow> string" where
  "path_join p q =
    (if starts_with q ''/'' then q
     else if p = [] \<or> last p = CHR ''/'' then p @ q else p @ ''/'' @ q)"

section \<open>Credentials\<close>

definition DEFAULT_BITCOIN_DATADIR :: string where
  "DEFAULT_BITCOIN_DATADIR = ''.bitcoin''"

definition BITCOIND_RPC_USER_KEY :: string where
  "BITCOIND_RPC_USER_KEY = ''RPC_USER''"

definition BITCOIND_RPC_PASSWORD_KEY :: string where
  "BITCOIND_RPC_PASSWORD_KEY = ''RPC_PASSWORD''"

definition print_rpc_auth_help :: "env \<Rightarrow> ('b world_scheme, unit) prog" where
  "print_rpc_auth_help E =
    (let home = map (\<lambda>c. if c = CHR 0x5C then CHR ''/'' else c)
           (case home_dir E of Some p \<Rightarrow> p | None \<Rightarrow> ''$HOME'');
         data_dir = home @ ''/'' @ DEFAULT_BITCOIN_DATADIR in
     thenP (println ''To provide the bitcoind RPC username and password, you can either:'')
    (thenP (println ''1. Provide the username and password as the first argument to this program in the format: <bitcoind-rpc-username>:<bitcoind-rpc-password>@<bitcoind-rpc-host>:<bitcoind-rpc-port>'')
    (thenP (println (''2. Provide <bitcoind-rpc-username>:<bitcoind-rpc-password> in a .cookie file in the default bitcoind data directory (automatically created by bitcoind on startup): `''
       @ data_dir @ ''`''))
    (thenP (println (''3. Set the '' @ BITCOIND_RPC_USER_KEY @ '' and '' @ BITCOIND_RPC_PASSWORD_KEY
       @ '' environment variables''))
    (println (''4. Provide '' @ BITCOIND_RPC_USER_KEY @ '' and '' @ BITCOIND_RPC_PASSWORD_KEY
       @ '' fields in a .env file in the current directory''))))))"

definition parse_rpc_auth :: "string \<Rightarrow> ('b world_scheme, unit + string \<times> string) prog" where
  "parse_rpc_auth rpc_auth =
    (case split_on (CHR '':'') rpc_auth of
       [rpc_username, rpc_password] \<Rightarrow> ret (Inr (rpc_username, rpc_password))
     | _ \<Rightarrow> thenP (println ''ERROR: bad bitcoind RPC username/password combo provided'') (ret (Inl ())))"

definition get_cookie_path ::
  "env \<Rightarrow> (string \<times> bool) option \<Rightarrow> network option \<Rightarrow> string option \<Rightarrow> unit + string" where
  "get_cookie_path E data_dir network cookie_file_name =
    (let under_home = (\<lambda>dir. case home_dir E of Some h \<Rightarrow> Inr (path_join h dir) | None \<Rightarrow> Inl ()) in
     case (case data_dir of
             Some (dir, True) \<Rightarrow> under_home dir
           | Some (dir, False) \<Rightarrow> Inr dir
           | None \<Rightarrow> under_home DEFAULT_BITCOIN_DATADIR) of
       Inl _ \<Rightarrow> Inl ()
     | Inr data_dir_path \<Rightarrow>
         (let data_dir_path_with_net =
            (case network of
               Some Testnet \<Rightarrow> path_join data_dir_path ''testnet3''
             | Some Regtest \<Rightarrow> path_join data_dir_path ''regtest''
             | Some Signet \<Rightarrow> path_join data_dir_path ''signet''
             | _ \<Rightarrow> data_dir_path) in
          Inr (path_join data_dir_path_with_net
            (case cookie_file_name of Some n \<Rightarrow> n | None \<Rightarrow> ''.cookie''))))"

definition get_rpc_auth_from_cookie ::
  "env \<Rightarrow> (string \<times> bool) option \<Rightarrow> network option \<Rightarrow> string option \<Rightarrow>
   ('b world_scheme, unit + string \<times> string) prog" where
  "get_rpc_auth_from_cookie E data_dir network cookie_file_name =
    (case get_cookie_path E data_dir network cookie_file_name of
       Inl _ \<Rightarrow> ret (Inl ())
     | Inr cookie_path \<Rightarrow>
         (case read_file E cookie_path of
            None \<Rightarrow> ret (Inl ())
          | Some cookie_contents \<Rightarrow> parse_rpc_auth cookie_contents))"

definition get_rpc_auth_from_env_vars :: "env \<Rightarrow> unit + string \<times> string" where
  "get_rpc_auth_from_env_vars E =
    (case (env_var E BITCOIND_RPC_USER_KEY, env_var E BITCOIND_RPC_PASSWORD_KEY) of
       (Some username, Some password) \<Rightarrow> Inr (username, password)
     | _ \<Rightarrow> Inl ())"

text \<open>The loop over the lines of the \<open>.env\<close> file.\<close>

fun env_lines :: "string list \<Rightarrow> (string \<rightharpoonup> string) \<Rightarrow> ('b world_scheme, unit + (string \<rightharpoonup> string)) prog" where
  "env_lines [] m = ret (Inr m)"
| "env_lines (line # ls) m =
    (case splitn 2 (CHR ''='') line of
       [k, v] \<Rightarrow> env_lines ls (m(k \<mapsto> v))
     | _ \<Rightarrow> thenP (println ''ERROR: bad .env file format'') (ret (Inl ())))"

definition parse_env_file ::
  "env \<Rightarrow> string option \<Rightarrow> ('b world_scheme, unit + (string \<rightharpoonup> string)) prog" where
  "parse_env_file E env_file_name =
    (case read_file E (case env_file_name of Some filename \<Rightarrow> filename | None \<Rightarrow> ''.env'') of
       None \<Rightarrow> ret (Inl ())
     | Some env_file_contents \<Rightarrow> env_lines (lines env_file_contents) Map.empty)"

definition get_rpc_auth_from_env_file ::
  "env \<Rightarrow> string option \<Rightarrow> ('b world_scheme, unit + string \<times> string) prog" where
  "get_rpc_auth_from_env_file E env_file_name =
    bindP (parse_env_file E env_file_name) (\<lambda>r.
      case r of
        Inl _ \<Rightarrow> ret (Inl ())
      | Inr m \<Rightarrow>
          ret (case (m BITCOIND_RPC_USER_KEY, m BITCOIND_RPC_PASSWORD_KEY) of
                 (Some username, Some password) \<Rightarrow> Inr (username, password)
               | _ \<Rightarrow> Inl ()))"

section \<open>Arguments\<close>

text \<open>\<open>Result::or\<close>: its argument has been evaluated already.\<close>

fun or_else :: "'e + 'a \<Rightarrow> 'e + 'a \<Rightarrow> 'e + 'a" where
  "or_else (Inr x) r = Inr x"
| "or_else (Inl e) r = r"

text \<open>The listening port, and whether it was given: anything that is not one counts as the next argument.\<close>

definition listening_port :: "string option \<Rightarrow> u16 \<times> bool" where
  "listening_port p =
    (case p of
       Some t \<Rightarrow> (case parse_u16 t of Inr v \<Rightarrow> (v, True) | Inl _ \<Rightarrow> (9735, False))
     | None \<Rightarrow> (9735, False))"

definition network_arg :: "string option \<Rightarrow> ('s, network) prog" where
  "network_arg a =
    (case a of
       None \<Rightarrow> ret Testnet
     | Some net \<Rightarrow>
         if net = ''testnet'' then ret Testnet
         else if net = ''regtest'' then ret Regtest
         else if net = ''signet'' then ret Signet
         else panic (Explicit (''Unsupported network provided. Options are: `regtest`, `testnet`, and `signet`. Got '' @ net)))"

definition auth_error :: string where
  "auth_error = ''ERROR: unable to get bitcoind RPC username and password''"

text \<open>The credentials when the first argument has none: all three places are looked at, in this order.\<close>

definition default_auth :: "env \<Rightarrow> network \<Rightarrow> ('b world_scheme, unit + string \<times> string) prog" where
  "default_auth E network =
    bindP (ret (get_rpc_auth_from_env_vars E)) (\<lambda>from_vars.
    bindP (get_rpc_auth_from_env_file E None) (\<lambda>from_file.
    bindP (get_rpc_auth_from_cookie E None (Some network) None) (\<lambda>from_cookie.
    thenP (println auth_error)
    (thenP (print_rpc_auth_help E)
    (ret (or_else (or_else (or_else from_vars from_file) from_cookie) (Inl ())))))))"

definition pad_name :: "string \<Rightarrow> bytes" where
  "pad_name s = as_bytes s @ replicate (32 - length s) 0"

fun listen_addrs :: "env \<Rightarrow> string list \<Rightarrow> ('s, socket_address list) prog" where
  "listen_addrs E [] = ret []"
| "listen_addrs E (s # ss) =
    (case parse_socket_address E s of
       Some sa \<Rightarrow> bindP (listen_addrs E ss) (\<lambda>rest. ret (sa # rest))
     | None \<Rightarrow> panic (Explicit ''Failed to parse announced-listen-addr into a socket address''))"

definition USAGE :: string where
  "USAGE = ''ldk-tutorial-node requires at least 2 arguments: `cargo run [<bitcoind-rpc-username>:<bitcoind-rpc-password>@]<bitcoind-rpc-host>:<bitcoind-rpc-port> ldk_storage_directory_path [<ldk-incoming-peer-listening-port>] [bitcoin-network] [announced-node-name announced-listen-addr*]`''"

text \<open>The arguments after the network: the node's name and its addresses.\<close>

definition announced ::
  "env \<Rightarrow> nat \<Rightarrow> ('b world_scheme, bytes \<times> socket_address list) prog" where
  "announced E arg_idx =
    (case arg E (arg_idx + 1) of
       Some s \<Rightarrow>
         if length s > 32 then panic (Explicit ''Node Alias can not be longer than 32 bytes'')
         else bindP (listen_addrs E (drop (arg_idx + 2) (argv E))) (\<lambda>addrs. ret (pad_name s, addrs))
     | None \<Rightarrow> bindP (listen_addrs E (drop (arg_idx + 1) (argv E))) (\<lambda>addrs. ret (replicate 32 0, addrs)))"

definition parse_startup_args :: "env \<Rightarrow> ('b world_scheme, unit + ldk_user_info) prog" where
  "parse_startup_args E =
    (if length (argv E) < 3 then thenP (println USAGE) (ret (Inl ()))
     else
       bindP (unwrap (arg E 1)) (\<lambda>bitcoind_rpc_info.
       let bitcoind_rpc_info_parts = rsplitn 2 (CHR ''@'') bitcoind_rpc_info in
       case split_on (CHR '':'') (hd bitcoind_rpc_info_parts) of
         [host, port_str] \<Rightarrow>
           bindP (unwrap_res (parse_u16 port_str)) (\<lambda>rpc_port.
           bindP (unwrap (arg E 2)) (\<lambda>storage_dir_path.
           let (peer_listening_port, port_set) = listening_port (arg E 3);
               arg_idx = (if port_set then 4 else 3) in
           bindP (network_arg (arg E arg_idx)) (\<lambda>network.
           bindP (case bitcoind_rpc_info_parts of
               [_] \<Rightarrow> default_auth E network
             | [_, auth] \<Rightarrow> parse_rpc_auth auth
             | _ \<Rightarrow> thenP (println ''ERROR: bad bitcoind RPC URL provided'') (ret (Inl ()))) (\<lambda>auth.
           case auth of
             Inl _ \<Rightarrow> ret (Inl ())
           | Inr (username, password) \<Rightarrow>
               bindP (announced E arg_idx) (\<lambda>(node_name, addrs).
               ret (Inr
                 \<lparr>bitcoind_rpc_username = username, bitcoind_rpc_password = password,
                  bitcoind_rpc_port = rpc_port, bitcoind_rpc_host = host,
                  ldk_storage_dir_path = storage_dir_path, ldk_peer_listening_port = peer_listening_port,
                  ldk_announced_listen_addr = addrs, ldk_announced_node_name = node_name,
                  user_network = network\<rparr>))))))
       | _ \<Rightarrow> thenP (println ''ERROR: bad bitcoind RPC path provided'') (ret (Inl ()))))"

end
