(* ===== verification/Startup.thy ===== *)
theory Startup
  imports Events Args
begin

text \<open>
  \<open>start_ldk\<close> of \<open>src/main.rs\<close>: from the arguments to the running node and its shutdown. The steps that
  build LDK's objects are answers of the libraries, which may fail; what the program itself decides, in
  which order, and what it reads and writes, is the model. The files of the data directory are the
  entries of the store with empty namespaces, which is where the key-value store keeps them.
\<close>

section \<open>Parameters\<close>

text \<open>\<open>RecentPaymentDetails\<close>.\<close>

datatype recent_payment =
    RecentPending payment_id | RecentFulfilled payment_id | RecentAbandoned payment_id
  | RecentAwaitingInvoice payment_id

text \<open>
  What awaiting the background processor gives: the error of joining its task, or its own result, an error
  or nothing.
\<close>

type_synonym bg_result = "string + (string + unit)"

text \<open>The stored sweeper: there is none, it was read, or the read failed.\<close>

datatype sweeper_read = SweeperNotFound | SweeperBytes bytes | SweeperError string

text \<open>The shared state, with the flag that tells the tasks to stop.\<close>

record running = cli_node +
  stop_listen_connect :: bool

text \<open>The fields of \<open>UserConfig\<close> that are set; the others keep their defaults.\<close>

record user_config =
  force_announced_channel_preference :: bool
  negotiate_anchors_zero_fee_htlc_tx :: bool
  manually_accept_inbound_channels :: bool

record start_lib = event_lib +
  environment :: env
  dir_ok :: "hist \<Rightarrow> bool"
  clock :: "hist \<Rightarrow> string + u64"
  file_readable :: "hist \<Rightarrow> bool"
  create_file :: "hist \<Rightarrow> string + unit"
  write_seed_ok :: "hist \<Rightarrow> bool"
  random_seed :: "hist \<Rightarrow> bytes"
  read_monitors :: "hist \<Rightarrow> string + channel_id list"
  best_header :: "hist \<Rightarrow> string + unit"
  read_manager :: "bytes \<Rightarrow> user_config \<Rightarrow> channel_id list \<Rightarrow> bool"
  stored_sweeper :: "hist \<Rightarrow> sweeper_read"
  read_sweeper :: "bytes \<Rightarrow> bool"
  synchronize :: "hist \<Rightarrow> string + unit"
  load_monitor :: "hist \<Rightarrow> bool"
  recent_payments :: "hist \<Rightarrow> recent_payment list"
  bind_ok :: "hist \<Rightarrow> bool"
  accept_stream :: "hist \<Rightarrow> string + unit"
  poll_tip :: "hist \<Rightarrow> string + unit"
  encode_manager :: "hist \<Rightarrow> bytes"
  exit_closed :: "hist \<Rightarrow> bool"
  send_exit :: "hist \<Rightarrow> bool"
  background_end :: "hist \<Rightarrow> bg_result"

text \<open>\<open>Result::unwrap\<close> on a result of which only success matters.\<close>

definition check :: "bool \<Rightarrow> ('s, unit) prog" where
  "check b = (if b then ret () else panic UnwrapErr)"

text \<open>\<open>u32::try_from\<close> of a \<open>u64\<close>, unwrapped.\<close>

definition try_u32 :: "u64 \<Rightarrow> ('s, u32) prog" where
  "try_u32 x = (if unat x < 2 ^ 32 then ret (ucast x) else panic UnwrapErr)"

section \<open>The network check\<close>

fun chain_name :: "network \<Rightarrow> string" where
  "chain_name Bitcoin = ''main''"
| "chain_name Regtest = ''regtest''"
| "chain_name Signet = ''signet''"
| "chain_name _ = ''test''"

fun show_network :: "network \<Rightarrow> string" where
  "show_network Bitcoin = ''bitcoin''"
| "show_network Testnet = ''testnet''"
| "show_network Testnet4 = ''testnet4''"
| "show_network Signet = ''signet''"
| "show_network Regtest = ''regtest''"

definition check_chain :: "('j, 'r) rpc_lib_scheme \<Rightarrow> network \<Rightarrow> ('b world_scheme, bool) prog" where
  "check_chain R net =
    bindP (get_blockchain_info R) (\<lambda>info.
      if chain info \<noteq> chain_name net then
        thenP (println (''Chain argument ('' @ show_network net @ '') didn't match bitcoind chain (''
          @ chain info @ '')'')) (ret False)
      else ret True)"

section \<open>The seed of the node's keys\<close>

definition seed_key :: kv_key where
  "seed_key = ([], [], ''keys_seed'')"

text \<open>
  Any failure to read the file leads to a new seed. \<open>File::create\<close> empties an existing file before the
  new bytes are written. \<open>None\<close> is the early return when the file cannot be created.
\<close>

definition keys_seed ::
  "'l start_lib_scheme \<Rightarrow> string \<Rightarrow> ('b node_scheme, bytes option) prog" where
  "keys_seed S path =
    bindP (gets (\<lambda>n. kv_get (store n) seed_key)) (\<lambda>file.
    bindP (ask (file_readable S)) (\<lambda>readable.
      case (if readable then file else None) of
        Some seed \<Rightarrow> thenP (assertP (length seed = 32)) (ret (Some seed))
      | None \<Rightarrow>
          bindP (call RandomBytes (random_seed S)) (\<lambda>key.
          bindP (ask (create_file S)) (\<lambda>f.
            case f of
              Inl e \<Rightarrow>
                thenP (println (''ERROR: Unable to create keys seed file '' @ path @ '': '' @ e)) (ret None)
            | Inr _ \<Rightarrow>
                thenP (modify (\<lambda>n. n\<lparr>store := kv_put seed_key [] (store n)\<rparr>))
                (bindP (ask (write_seed_ok S)) (\<lambda>written.
                  if written then
                    thenP (modify (\<lambda>n. n\<lparr>store := kv_put seed_key key (store n)\<rparr>)) (ret (Some key))
                  else panic (Explicit ''Failed to write node keys seed to disk'')))))))"

section \<open>Payments left from an earlier run\<close>

fun recent_id :: "recent_payment \<Rightarrow> payment_id" where
  "recent_id (RecentPending i) = i"
| "recent_id (RecentFulfilled i) = i"
| "recent_id (RecentAbandoned i) = i"
| "recent_id (RecentAwaitingInvoice i) = i"

definition reconcile_entry ::
  "payment_id list \<Rightarrow> bytes \<times> payment_info \<Rightarrow> ('b node_scheme, unit) prog" where
  "reconcile_entry recent = (\<lambda>(payment_id, info).
    if status info = Pending \<and> payment_id \<notin> set recent
    then modify (\<lambda>n. n\<lparr>outbound := fmupd payment_id (info\<lparr>status := Failed\<rparr>) (outbound n)\<rparr>)
    else ret ())"

definition load_payments :: "'l start_lib_scheme \<Rightarrow> ('b node_scheme, unit) prog" where
  "load_payments S =
    thenP (modify (\<lambda>n. n\<lparr>inbound := read_inbound_payment_info S (kv_get (store n) inbound_key),
      outbound := read_outbound_payment_info S (kv_get (store n) outbound_key)\<rparr>))
    (bindP (ask (recent_payments S)) (\<lambda>recent.
     bindP (gets outbound) (\<lambda>m. bindP (ask (\<lambda>h. iter S h m)) (\<lambda>entries.
     thenP (forP entries (reconcile_entry (map recent_id recent)))
     (write_outbound S)))))"

section \<open>Background tasks\<close>

text \<open>The addresses of an announced node that are not onion addresses.\<close>

fun non_onion :: "socket_address \<Rightarrow> socket_address option" where
  "non_onion (OnionV2 _) = None"
| "non_onion (OnionV3 _) = None"
| "non_onion a = Some a"

definition clear_addresses :: "announcement option option \<Rightarrow> socket_address list" where
  "clear_addresses node =
    (case node of
       Some (Some ann) \<Rightarrow> List.map_filter non_onion (ann_addresses ann)
     | _ \<Rightarrow> [])"

text \<open>The result of a task: it goes on, it was stopped, or it still waits for a handshake.\<close>

datatype task = TaskOn | TaskStopped | TaskWaiting

fun connect_all ::
  "'l peer_lib_scheme \<Rightarrow> pubkey \<Rightarrow> sock_addr list \<Rightarrow> ('b world_scheme, task) prog" where
  "connect_all L node_id [] = ret TaskOn"
| "connect_all L node_id (sockaddr # rest) =
    bindP (do_connect_peer L node_id sockaddr) (\<lambda>r.
      case r of None \<Rightarrow> ret TaskWaiting | Some _ \<Rightarrow> connect_all L node_id rest)"

fun connect_addresses ::
  "'l event_lib_scheme \<Rightarrow> pubkey \<Rightarrow> socket_address list \<Rightarrow> ('b world_scheme, task) prog" where
  "connect_addresses L node_id [] = ret TaskOn"
| "connect_addresses L node_id (addr # rest) =
    bindP (ask (\<lambda>h. resolve_all L h addr)) (\<lambda>r.
      case r of
        None \<Rightarrow> connect_addresses L node_id rest
      | Some sockaddrs \<Rightarrow>
          bindP (connect_all L node_id sockaddrs) (\<lambda>t.
            if t = TaskOn then connect_addresses L node_id rest else ret t))"

text \<open>The loop over the peers of the channels; whether one is connected is asked when its turn comes.\<close>

fun reconnect_peers ::
  "'l start_lib_scheme \<Rightarrow> pubkey list \<Rightarrow> ('b running_scheme, task) prog" where
  "reconnect_peers S [] = ret TaskOn"
| "reconnect_peers S (node_id # rest) =
    bindP (ask (\<lambda>h. peer_connected S h node_id)) (\<lambda>connected.
      if connected then reconnect_peers S rest
      else bindP (gets stop_listen_connect) (\<lambda>stop.
        if stop then ret TaskStopped
        else bindP (ask (\<lambda>h. graph_node S h node_id)) (\<lambda>node.
          bindP (connect_addresses S node_id (clear_addresses node)) (\<lambda>t.
            if t = TaskOn then reconnect_peers S rest else ret t))))"

text \<open>One tick of the task that reconnects to the peers of channels.\<close>

definition reconnect_tick :: "'l start_lib_scheme \<Rightarrow> ('b running_scheme, task) prog" where
  "reconnect_tick S =
    bindP (ask (channels_of S)) (\<lambda>channels. reconnect_peers S (map cd_node_id channels))"

text \<open>One tick of the task that announces the node.\<close>

definition announce_tick :: "'l start_lib_scheme \<Rightarrow> ldk_user_info \<Rightarrow> ('b world_scheme, unit) prog" where
  "announce_tick S args =
    bindP (ask (channels_of S)) (\<lambda>channels.
      if \<exists>c \<in> set channels. cd_is_announced c then
        emit (Peer (BroadcastAnnouncement [0, 0, 0] (ldk_announced_node_name args)
          (ldk_announced_listen_addr args)))
      else ret ())"

text \<open>The task that accepts connections binds its port, and then takes one connection per turn.\<close>

definition bind_listener :: "'l start_lib_scheme \<Rightarrow> ('b world_scheme, unit) prog" where
  "bind_listener S =
    bindP (ask (bind_ok S)) (\<lambda>bound.
      if bound then ret ()
      else panic (Explicit ''Failed to bind to listen port - is something else already listening on it?''))"

definition accept_turn :: "'l start_lib_scheme \<Rightarrow> ('b running_scheme, task) prog" where
  "accept_turn S =
    bindP (ask (accept_stream S)) (\<lambda>tcp_stream.
    thenP (unwrap_res tcp_stream)
    (bindP (gets stop_listen_connect) (\<lambda>stop.
      if stop then ret TaskStopped
      else thenP (emit (Spawn ''setup_inbound'')) (ret TaskOn))))"

text \<open>One turn of the task that polls for new blocks.\<close>

definition poll_blocks_turn :: "'l start_lib_scheme \<Rightarrow> ('b world_scheme, unit) prog" where
  "poll_blocks_turn S =
    bindP (ask (poll_tip S)) (\<lambda>r. thenP (unwrap_res r) (emit (SleepMillis 1000)))"

end
