(* ===== verification/Node.thy ===== *)
theory Node
  imports Startup
begin

text \<open>
  The whole of \<open>start_ldk\<close> (\<open>src/main.rs\<close>): building the node, the activities of its tasks, and its
  shutdown. The tasks run side by side in the code; here a run is a schedule, the sequence of what the
  tasks do, with one command, event, refresh or tick of a task as its unit.
\<close>

section \<open>Building the node\<close>

definition manager_key :: kv_key where
  "manager_key = ([], [], ''manager'')"

definition node_config :: user_config where
  "node_config =
     \<lparr>force_announced_channel_preference = False, negotiate_anchors_zero_fee_htlc_tx = True,
      manually_accept_inbound_channels = True\<rparr>"

text \<open>
  The channel manager: read from its file, with the monitors, if the file can be opened, and a new one
  otherwise. The result is \<open>restarting_node\<close>.
\<close>

definition channel_manager ::
  "'l start_lib_scheme \<Rightarrow> channel_id list \<Rightarrow> ('b node_scheme, bool) prog" where
  "channel_manager S channelmonitors =
    bindP (gets (\<lambda>n. kv_get (store n) manager_key)) (\<lambda>file.
    bindP (ask (file_readable S)) (\<lambda>readable.
      case (if readable then file else None) of
        Some bytes \<Rightarrow> thenP (check (read_manager S bytes node_config channelmonitors)) (ret True)
      | None \<Rightarrow> ret False))"

definition output_sweeper :: "'l start_lib_scheme \<Rightarrow> ('b world_scheme, unit) prog" where
  "output_sweeper S =
    bindP (ask (stored_sweeper S)) (\<lambda>r.
      case r of
        SweeperNotFound \<Rightarrow> ret ()
      | SweeperBytes bytes \<Rightarrow>
          if read_sweeper S bytes then ret () else panic (Explicit ''Failed to deserialize OutputSweeper'')
      | SweeperError e \<Rightarrow> panic (Explicit (''Failed to read OutputSweeper with '' @ e)))"

text \<open>
  Steps 13 and 14. The monitors are put into the list that is given to the chain monitor only when the
  node restarts.
\<close>

definition sync_and_load ::
  "'l start_lib_scheme \<Rightarrow> bool \<Rightarrow> channel_id list \<Rightarrow> ('b world_scheme, unit) prog" where
  "sync_and_load S restarting_node channelmonitors =
    thenP (if restarting_node then bindP (ask (synchronize S)) unwrap_res else ret ())
    (forP (if restarting_node then channelmonitors else []) (\<lambda>i.
       bindP (call (Channel (LoadMonitor i)) (load_monitor S)) assertP))"

text \<open>Steps 5 to 17: the stored state is read and brought to the tip of the chain.\<close>

definition restore_node :: "'l start_lib_scheme \<Rightarrow> ('b node_scheme, unit) prog" where
  "restore_node S =
    bindP (ask (read_monitors S)) (\<lambda>r. bindP (unwrap_res r) (\<lambda>channelmonitors.
    bindP (ask (best_header S)) (\<lambda>tip.
    thenP (case tip of
        Inl _ \<Rightarrow> panic (Explicit ''Failed to fetch best block header and best block'') | Inr _ \<Rightarrow> ret ())
    (bindP (channel_manager S channelmonitors) (\<lambda>restarting_node.
    thenP (output_sweeper S)
    (sync_and_load S restarting_node channelmonitors))))))"

text \<open>Steps 18 to 21 and the tasks after them.\<close>

definition spawn_tasks :: "'l start_lib_scheme \<Rightarrow> ('b node_scheme, unit) prog" where
  "spawn_tasks S =
    thenP (emit (Spawn ''listen''))
    (thenP (emit (Spawn ''poll_best_tip''))
    (thenP (load_payments S)
    (thenP (emit (Spawn ''process_events_async''))
    (thenP (emit (Spawn ''reconnect''))
    (thenP (emit (Spawn ''announce''))
    (thenP (emit (Spawn ''migrate_deprecated_spendable_outputs''))
    (emit (Spawn ''poll_for_user_input''))))))))"

text \<open>
  Everything before the command line is started, in the order of the code. \<open>None\<close> is one of the early
  returns of \<open>start_ldk\<close>.
\<close>

definition start_node ::
  "'l start_lib_scheme \<Rightarrow> ('j, 'r) rpc_lib_scheme \<Rightarrow> ('b node_scheme, ldk_user_info option) prog" where
  "start_node S R =
    bindP (parse_startup_args (environment S)) (\<lambda>parsed.
    case parsed of
      Inl _ \<Rightarrow> ret None
    | Inr args \<Rightarrow>
        let ldk_data_dir = ldk_storage_dir_path args @ ''/.ldk'' in
        bindP (ask (dir_ok S)) (\<lambda>data_dir. thenP (check data_dir)
        (bindP (ask (dir_ok S)) (\<lambda>logs_dir. thenP (check logs_dir)
        (bindP (client_new R (bitcoind_rpc_host args) (bitcoind_rpc_port args)
            (bitcoind_rpc_username args) (bitcoind_rpc_password args) (user_network args)) (\<lambda>client.
        case client of
          Inl e \<Rightarrow> thenP (println (''Failed to connect to bitcoind client: '' @ e)) (ret None)
        | Inr bitcoind_client \<Rightarrow>
            bindP (check_chain R (user_network args)) (\<lambda>matches.
            if \<not> matches then ret None
            else
              bindP (keys_seed S (ldk_data_dir @ ''/keys_seed'')) (\<lambda>seed.
              case seed of
                None \<Rightarrow> ret None
              | Some _ \<Rightarrow>
                  bindP (ask (clock S)) (\<lambda>now. bindP (unwrap_res now) (\<lambda>cur.
                  thenP (restore_node S)
                  (bindP (ask (clock S)) (\<lambda>now. bindP (unwrap_res now) (\<lambda>current_time.
                  bindP (try_u32 current_time) (\<lambda>_.
                  thenP (spawn_tasks S) (ret (Some args))))))))))))))))"

section \<open>Running the node\<close>

text \<open>What a task does next; \<open>BackgroundExit\<close> is the end of the background processor.\<close>

datatype activity =
    ReadCommand
  | HandleEvent event
  | RefreshFees
  | PollBlocks
  | BindPort
  | AcceptConnection
  | Reconnect
  | Announce
  | ConnectNeeded pubkey "socket_address list"
  | BroadcastTxs "bytes list"
  | BackgroundExit bg_result

text \<open>What an activity means for \<open>select!\<close> in \<open>start_ldk\<close>, which waits for one of two tasks to end.\<close>

datatype selected = Going | CliWaiting | Ended bg_result

fun run_activity ::
  "'l start_lib_scheme \<Rightarrow> ('j, 'r) rpc_lib_scheme \<Rightarrow> ldk_user_info \<Rightarrow> activity \<Rightarrow>
   ('b running_scheme, selected) prog" where
  "run_activity S R args ReadCommand =
     bindP (read_command S) (\<lambda>c. ret (case c of
       Continue \<Rightarrow> Going | Break \<Rightarrow> Ended (Inr (Inr ())) | Blocked \<Rightarrow> CliWaiting))"
| "run_activity S R args (HandleEvent e) =
     thenP (handle_ldk_events S R (user_network args) e) (ret Going)"
| "run_activity S R args RefreshFees = thenP (poll_once R) (ret Going)"
| "run_activity S R args PollBlocks = thenP (poll_blocks_turn S) (ret Going)"
| "run_activity S R args BindPort = thenP (bind_listener S) (ret Going)"
| "run_activity S R args AcceptConnection = bindP (accept_turn S) (\<lambda>_. ret Going)"
| "run_activity S R args Reconnect = bindP (reconnect_tick S) (\<lambda>_. ret Going)"
| "run_activity S R args Announce = thenP (announce_tick S args) (ret Going)"
| "run_activity S R args (ConnectNeeded node_id addresses) =
     bindP (connection_task S node_id addresses) (\<lambda>_. ret Going)"
| "run_activity S R args (BroadcastTxs txs) = thenP (broadcast_transactions R txs) (ret Going)"
| "run_activity S R args (BackgroundExit bg) = ret (Ended bg)"

text \<open>
  A schedule of activities. \<open>cli\<close> says whether the command line still reads commands: after a command
  that waits for a handshake for ever it does not. \<open>None\<close> is a run that goes on after the schedule.
\<close>

fun run_schedule ::
  "'l start_lib_scheme \<Rightarrow> ('j, 'r) rpc_lib_scheme \<Rightarrow> ldk_user_info \<Rightarrow> bool \<Rightarrow> activity list \<Rightarrow>
   ('b running_scheme, bg_result option) prog" where
  "run_schedule S R args cli [] = ret None"
| "run_schedule S R args cli (a # as) =
     (if a = ReadCommand \<and> \<not> cli then run_schedule S R args cli as
      else bindP (run_activity S R args a) (\<lambda>r.
        case r of
          Going \<Rightarrow> run_schedule S R args cli as
        | CliWaiting \<Rightarrow> run_schedule S R args False as
        | Ended bg_res \<Rightarrow> ret (Some bg_res)))"

section \<open>Shutting down\<close>

definition stop_background :: "'l start_lib_scheme \<Rightarrow> ('b world_scheme, unit) prog" where
  "stop_background S =
    bindP (ask (exit_closed S)) (\<lambda>closed.
      if closed then ret ()
      else bindP (call StopBackground (send_exit S)) (\<lambda>sent.
        thenP (check sent)
        (bindP (ask (background_end S)) (\<lambda>r. bindP (unwrap_res r) unwrap_res))))"

text \<open>Only an error of joining the task leads to the last attempt to store the channel manager.\<close>

definition shutdown :: "'l start_lib_scheme \<Rightarrow> bg_result \<Rightarrow> ('b running_scheme, unit) prog" where
  "shutdown S bg_res =
    thenP (modify (\<lambda>n. n\<lparr>stop_listen_connect := True\<rparr>))
    (thenP (emit (Peer DisconnectAllPeers))
    (case bg_res of
       Inl e \<Rightarrow>
         bindP (gets (\<lambda>n. encode_manager S (trace n))) (\<lambda>manager.
         thenP (kv_write S [] [] ''manager'' manager)
         (thenP (emit (Log ''Last-ditch ChannelManager persistence result: ()''))
         (panic (Explicit (''ERR: background processing stopped with result '' @ e @ '', exiting.'' @ nl
           @ ''Last-ditch ChannelManager persistence result ()'')))))
     | Inr _ \<Rightarrow> stop_background S))"

text \<open>The program: it refused to start, it still runs after the schedule, or it has stopped.\<close>

datatype finish = Refused | StillRunning | Stopped

text \<open>What \<open>poll_for_user_input\<close> prints before it reads commands.\<close>

definition greeting :: "'l cli_lib_scheme \<Rightarrow> ('b world_scheme, unit) prog" where
  "greeting L =
    thenP (println (''LDK startup successful. Enter '' @ quote @ ''help'' @ quote
      @ '' to view available commands. Press Ctrl-D to quit.''))
    (thenP (println ''LDK logs are available at <your-supplied-ldk-data-dir-path>/.ldk/logs'')
    (println (''Local Node ID is '' @ show_pubkey L (our_node_id L) @ ''.'')))"

definition start_ldk ::
  "'l start_lib_scheme \<Rightarrow> ('j, 'r) rpc_lib_scheme \<Rightarrow> activity list \<Rightarrow> ('b running_scheme, finish) prog" where
  "start_ldk S R schedule =
    bindP (start_node S R) (\<lambda>args.
    case args of None \<Rightarrow> ret Refused | Some args \<Rightarrow>
    thenP (greeting S)
    (bindP (run_schedule S R args True schedule) (\<lambda>r.
      case r of None \<Rightarrow> ret StillRunning | Some bg_res \<Rightarrow> thenP (shutdown S bg_res) (ret Stopped))))"

text \<open>\<open>main\<close>: Ctrl-C is caught by a handler that does nothing, then the node is started.\<close>

definition main ::
  "'l start_lib_scheme \<Rightarrow> ('j, 'r) rpc_lib_scheme \<Rightarrow> activity list \<Rightarrow> ('b running_scheme, finish) prog" where
  "main S R schedule = thenP (emit (SigAction ''SIGINT'')) (start_ldk S R schedule)"

lemma poll_for_user_input_greeting:
  "poll_for_user_input k L = thenP (greeting L) (read_commands k L)"
  by (simp add: poll_for_user_input_def greeting_def thenP_def bindP_assoc)

end
