(* ===== verification/Frame.thy ===== *)
theory Frame
  imports Events
begin

text \<open>
  What the commands and the event handlers cannot change: most only append to the trace, and the payment
  commands touch the payment maps, their files and the trace. An interface states what an invariant needs
  so that those steps keep it; the invariants of the node are its instances.
\<close>

section \<open>Commands that only talk\<close>

lemma trace_only_prompt [trace_only_intros]: "trace_only prompt"
  by (simp add: prompt_def trace_only_print)

lemma trace_only_complain [trace_only_intros]: "trace_only (complain msg)"
  by (simp add: complain_def trace_only_intros)

lemma trace_only_help [trace_only_intros]: "trace_only cmd_help"
  unfolding cmd_help_def by (intro trace_only_intros)

lemma trace_only_sum_u64 [trace_only_intros]: "trace_only (sum_u64 acc xs)"
  by (induction acc xs rule: sum_u64.induct) (simp_all add: trace_only_intros)

lemma trace_only_close_fee [trace_only_intros]: "trace_only (close_fee b)"
  by (cases b) (simp_all add: trace_only_intros)

lemma trace_only_mapP [trace_only_intros]: "(\<And>x. trace_only (f x)) \<Longrightarrow> trace_only (mapP f xs)"
  by (induction xs) (simp_all add: trace_only_intros)

lemma trace_only_node_info [trace_only_intros]: "trace_only (node_info L)"
  unfolding node_info_def by (intro trace_only_intros)

lemma trace_only_list_peers [trace_only_intros]: "trace_only (list_peers L)"
  unfolding list_peers_def by (intro trace_only_intros)

lemma trace_only_list_channel [trace_only_intros]: "trace_only (list_channel L c)"
  unfolding list_channel_def Let_def by (intro trace_only_intros)

lemma trace_only_list_channels [trace_only_intros]: "trace_only (list_channels L)"
  unfolding list_channels_def by (intro trace_only_intros)

lemma trace_only_list_payment [trace_only_intros]: "trace_only (list_payment L d p)"
  unfolding list_payment_def by (intro trace_only_intros)

lemma trace_only_list_payments [trace_only_intros]: "trace_only (list_payments L)"
  unfolding list_payments_def by (intro trace_only_intros)

lemma trace_only_parse_peer_info [trace_only_intros]: "trace_only (parse_peer_info L s)"
  unfolding parse_peer_info_def by (intro trace_only_intros)

lemma trace_only_connect_loop [trace_only_intros]: "trace_only (connect_loop k L pk)"
  by (induction k) (simp_all add: trace_only_intros)

lemma trace_only_connect_peer [trace_only_intros]: "trace_only (connect_peer_if_necessary L pk addr)"
  unfolding connect_peer_if_necessary_def do_connect_peer_def
  by (intro trace_only_intros) simp_all

lemma trace_only_disconnect [trace_only_intros]: "trace_only (do_disconnect_peer L pk)"
  unfolding do_disconnect_peer_def by (intro trace_only_intros) simp_all

lemma trace_only_open_channel [trace_only_intros]: "trace_only (open_channel L pk a b c)"
  unfolding open_channel_def Let_def by (intro trace_only_intros) simp_all

lemma trace_only_close [trace_only_intros]:
  "trace_only (close_channel L i pk)" "trace_only (force_close_channel L i pk)"
  unfolding close_channel_def force_close_channel_def by (intro trace_only_intros; simp)+

lemma trace_only_channel_flags [trace_only_intros]: "trace_only (channel_flags ws a b)"
  by (induction ws arbitrary: a b) (auto intro!: trace_only_intros)

lemma trace_only_openchannel [trace_only_intros]: "trace_only (cmd_openchannel L ws)"
  unfolding cmd_openchannel_def openchannel_with_def by (intro trace_only_intros)

lemma trace_only_getoffer [trace_only_intros]: "trace_only (cmd_getoffer L ws)"
  unfolding cmd_getoffer_def Let_def by (intro trace_only_intros) simp_all

lemma trace_only_peer_cmds [trace_only_intros]:
  "trace_only (cmd_connectpeer L ws)" "trace_only (cmd_disconnectpeer L ws)"
  unfolding cmd_connectpeer_def cmd_disconnectpeer_def by (intro trace_only_intros)+

lemma trace_only_close_cmds [trace_only_intros]:
  "trace_only (cmd_closechannel L ws)" "trace_only (cmd_forceclosechannel L ws)"
  "trace_only (cmd_signmessage L line)"
  unfolding cmd_closechannel_def cmd_forceclosechannel_def cmd_signmessage_def
  by (intro trace_only_intros)+

lemma trace_only_claimable [trace_only_intros]: "trace_only (handle_claimable L hash purpose amt)"
  unfolding handle_claimable_def by (intro trace_only_intros) simp_all

lemma trace_only_forwarded [trace_only_intros]: "trace_only (handle_forwarded L a b c d e)"
  unfolding handle_forwarded_def Let_def by (intro trace_only_intros)

lemma trace_only_expect [trace_only_intros]: "trace_only (expect msg x)"
  by (cases x) (simp_all add: expect_def trace_only_intros)

lemma trace_only_call_method [trace_only_intros]:
  "(\<And>j. trace_only (conv j)) \<Longrightarrow> trace_only (call_method R m args conv)"
  unfolding call_method_def by (intro trace_only_intros) simp_all

lemma trace_only_conversions [trace_only_intros]:
  "trace_only (raw_tx_of J r)" "trace_only (funded_tx_of J r)" "trace_only (signed_tx_of J r)"
  "trace_only (blockchain_info_of B J r)" "trace_only (fee_response_of J r)" "trace_only (mempool_min_fee_of J r)"
  unfolding raw_tx_of_def funded_tx_of_def signed_tx_of_def blockchain_info_of_def fee_response_of_def
    mempool_min_fee_of_def
  by (intro trace_only_intros)+

lemma trace_only_requests [trace_only_intros]:
  "trace_only (create_raw_transaction R outs)" "trace_only (sign_raw_transaction_with_wallet R hex)"
  "trace_only (get_blockchain_info R)"
  unfolding create_raw_transaction_def sign_raw_transaction_with_wallet_def get_blockchain_info_def
  by (intro trace_only_intros)+

lemma trace_only_fund_raw [trace_only_intros]: "trace_only (fund_raw_transaction R tx)"
  by (cases tx) (auto simp: fund_raw_transaction_def get_est_sat_per_1000_weight_def intro!: trace_only_intros)

lemma trace_only_funding [trace_only_intros]: "trace_only (handle_funding L R net i pk v script)"
  unfolding handle_funding_def by (intro trace_only_intros) simp_all

lemma trace_only_open_request [trace_only_intros]: "trace_only (handle_open_request L i pk)"
  unfolding handle_open_request_def Let_def by (intro trace_only_intros) simp_all

lemma trace_only_channel_event [trace_only_intros]: "trace_only (handle_channel_event L R net e)"
  by (cases e) (auto simp: announce_event_def intro!: trace_only_intros)

lemma trace_only_other_event [trace_only_intros]: "trace_only (handle_other_event L e)"
  by (cases e) (auto intro!: trace_only_intros)

lemma trace_only_try_sockaddrs [trace_only_intros]: "trace_only (try_sockaddrs L pk as)"
  by (induction as) (auto intro!: trace_only_intros)

lemma trace_only_connection_task [trace_only_intros]: "trace_only (connection_task L pk as)"
  by (induction as) (auto intro!: trace_only_intros)

lemma trace_only_broadcast [trace_only_intros]: "trace_only (broadcast_transactions R txs)"
  unfolding broadcast_transactions_def Let_def by (intro trace_only_intros) simp_all

section \<open>Invariants that commands keep\<close>

text \<open>
  \<open>I\<close> is kept by every action in \<open>ok\<close>, which all but payments are, by changes of the incoming payments
  and the store, and by the two changes commands make to the outgoing payments: a new pending entry, and
  a failed one. \<open>E\<close> is what holds if the process dies.
\<close>

locale base_frame =
  fixes I E :: "'b cli_node_scheme \<Rightarrow> bool"
    and ok :: "action \<Rightarrow> bool"
  assumes act: "ok a \<Longrightarrow> I n \<Longrightarrow> I (n\<lparr>trace := trace n @ [a]\<rparr>)"
    and ok_talk: "\<not> is_pay a \<Longrightarrow> ok a"
    and inb: "I n \<Longrightarrow> I (n\<lparr>inbound := m\<rparr>)"
    and stor: "I n \<Longrightarrow> I (n\<lparr>store := st\<rparr>)"
    and dies: "I n \<Longrightarrow> E n"
    and starts: "I n \<Longrightarrow> status info = Pending \<Longrightarrow> I (n\<lparr>outbound := fmupd i info (outbound n)\<rparr>)"
    and fails: "I n \<Longrightarrow> fmlookup (outbound n) i = Some info \<Longrightarrow>
      I (n\<lparr>outbound := fmupd i (info\<lparr>status := Failed\<rparr>) (outbound n)\<rparr>)"
begin

lemma acts: "list_all (\<lambda>a. \<not> is_pay a \<and> \<not> is_write a) as \<Longrightarrow> I n \<Longrightarrow> I (n\<lparr>trace := trace n @ as\<rparr>)"
proof (induction as rule: rev_induct)
  case (snoc a as)
  then have "I (n\<lparr>trace := trace n @ as\<rparr>)" "\<not> is_pay a" by simp_all
  then show ?case using act [OF ok_talk, of a "n\<lparr>trace := trace n @ as\<rparr>"] by simp
qed simp

lemma keeps_talk: "trace_only m \<Longrightarrow> keeps I E m"
  by (erule keeps_trace_only) (simp_all add: acts dies)

lemma keeps_action: "ok a \<Longrightarrow> keeps I E (call a f)"
  by (rule keeps_call) (rule act)

lemma keeps_changes:
  "keeps I E (modify (\<lambda>n. n\<lparr>inbound := f n\<rparr>))" "keeps I E (modify (\<lambda>n. n\<lparr>store := g n\<rparr>))"
  "status info = Pending \<Longrightarrow> keeps I E (modify (\<lambda>n. n\<lparr>outbound := fmupd i info (outbound n)\<rparr>))"
  by (auto intro!: keeps_modify inb stor starts)

lemmas keeps_basic = keeps_changes keeps_talk [OF trace_only_print] keeps_talk [OF trace_only_println]
  keeps_talk [OF trace_only_prompt] keeps_talk [OF trace_only_ask] keeps_talk [OF trace_only_complain]

lemma keeps_kv_write: "keeps I E (kv_write L p s key v)"
  unfolding kv_write_def
  by (intro keeps_intros keeps_action keeps_changes) (simp_all add: ok_talk dies)

lemma keeps_writes: "keeps I E (write_outbound L)" "keeps I E (write_inbound L)"
  unfolding write_outbound_def write_inbound_def by (intro keeps_intros keeps_kv_write)+

lemma keeps_record: "status info = Pending \<Longrightarrow> keeps I E (record_outbound L i info)"
  unfolding record_outbound_def by (intro keeps_then keeps_changes keeps_writes)

lemma keeps_fail: "keeps I E (fail_outbound L i)"
  unfolding fail_outbound_def
  by (intro keeps_then keeps_writes keepsI) (auto simp: wp_simps fails dies split: option.split)

lemmas keeps_storage = keeps_writes keeps_record keeps_fail

lemma keeps_failed_event: "keeps I E (handle_failed L hash reason i)"
  unfolding handle_failed_def
  by (intro keeps_then keeps_basic keeps_writes keeps_modify) (simp add: fails split: option.split)

lemma keeps_payment_event:
  assumes "\<And>p hash fee i. e \<noteq> PaymentSent p hash fee i"
  shows "keeps I E (handle_payment_event L e)"
proof (cases e)
  case (PaymentClaimed hash purpose amt)
  show ?thesis
    unfolding PaymentClaimed handle_payment_event.simps handle_claimed_def
    by (intro keeps_then keeps_basic keeps_writes)
qed (simp_all add: keeps_talk trace_only_intros keeps_failed_event assms)

end

text \<open>Invariants that payments do not matter to.\<close>

locale command_frame = base_frame I E "\<lambda>_. True" for I E :: "'b cli_node_scheme \<Rightarrow> bool" +
  assumes keeps_confirm: "keeps I E (confirm amt)"
begin

lemma keeps_payments:
  "keeps I E (keysend L pk amt)" "keeps I E (getinvoice_write L amt expiry)"
  "keeps I E (pay_offer L off req)" "keeps I E (pay_hrn L hrn req)"
  unfolding keysend_def getinvoice_write_def get_invoice_def pay_offer_def pay_offer_now_def
    pay_hrn_def Let_def
  by (rule keeps_intros keeps_basic keeps_storage keeps_confirm keeps_action TrueI dies new_payment_simps
      | assumption)+

lemma keeps_send_payment: "keeps I E (send_payment L invoice req)"
  unfolding send_payment_def Let_def
  by (cases "choose_amount (inv_amount_msat invoice) req")
    ((simp, (rule keeps_basic keeps_storage keeps_action TrueI keeps_intros new_payment_simps)+)+)

lemma keeps_payment_cmds:
  "keeps I E (cmd_sendpayment L ws)" "keeps I E (cmd_keysend L ws)" "keeps I E (cmd_getinvoice L ws)"
  unfolding cmd_sendpayment_def cmd_keysend_def cmd_getinvoice_def Let_def
  by (rule keeps_intros keeps_basic keeps_payments keeps_send_payment dies | assumption)+

lemma keeps_command: "keeps I E (command L line w ws)"
  unfolding command_def
  by (rule keeps_if keeps_payment_cmds keeps_talk trace_only_intros)+

end

section \<open>Invariants the payment maps do not matter to\<close>

text \<open>What the event handler and the start of the node need besides.\<close>

locale frame =
  fixes I E :: "'b cli_node_scheme \<Rightarrow> bool"
    and ok :: "action \<Rightarrow> bool"
  assumes frame_act: "ok a \<Longrightarrow> I n \<Longrightarrow> I (n\<lparr>trace := trace n @ [a]\<rparr>)"
    and frame_ok: "\<not> is_pay a \<Longrightarrow> ok a"
    and outb: "I n \<Longrightarrow> I (n\<lparr>outbound := m\<rparr>)"
    and frame_inb: "I n \<Longrightarrow> I (n\<lparr>inbound := m\<rparr>)"
    and frame_stor: "I n \<Longrightarrow> I (n\<lparr>store := st\<rparr>)"
    and frame_dies: "I n \<Longrightarrow> E n"

sublocale frame \<subseteq> base_frame
  by unfold_locales (simp_all add: frame_act frame_ok outb frame_inb frame_stor frame_dies)

context frame
begin

lemma keeps_outbound: "keeps I E (modify (\<lambda>n. n\<lparr>outbound := f n\<rparr>))"
  by (rule keeps_modify) (rule outb)

lemma keeps_sent_entry: "keeps I E (sent_entry L p hash fee i x)"
  unfolding sent_entry_def by (rule keeps_outbound keeps_basic keeps_intros dies | assumption)+

lemma keeps_any_payment_event: "keeps I E (handle_payment_event L e)"
proof (cases e)
  case (PaymentSent p hash fee i)
  show ?thesis
    unfolding PaymentSent handle_payment_event.simps handle_sent_def
    by (rule keeps_basic keeps_storage keeps_intros keeps_sent_entry)+
qed (rule keeps_payment_event, simp)+

lemma keeps_event: "keeps I E (handle_ldk_events L R net e)"
  by (cases e) (simp_all add: keeps_talk trace_only_intros keeps_intros keeps_any_payment_event)

end

text \<open>Invariants that neither the payment maps nor payments matter to.\<close>

locale full_frame = frame I E "\<lambda>_. True" for I E :: "'b cli_node_scheme \<Rightarrow> bool" +
  assumes frame_confirm: "keeps I E (confirm amt)"

sublocale full_frame \<subseteq> command_frame
  by unfold_locales (rule frame_confirm)

end
