(* ===== verification/Payment_Properties.thy ===== *)
theory Payment_Properties
  imports Cli_Pay
begin

text \<open>
  What the payment commands of \<open>src/cli.rs\<close> leave in the payment map, on every branch, and what they
  ask LDK to pay.
\<close>

section \<open>Libraries for examples\<close>

instance htlc_status :: countable
  by countable_datatype

instance millisat_amount :: countable
  by countable_datatype

instance payment_info_ext :: (countable) countable
  by (rule countable_classI [of "\<lambda>p. to_nat
      (preimage p, secret p, status p, amt_msat p, payment_info.more p)"]) simp

text \<open>
  Libraries that satisfy the contract of the encoding: a map is written as as many zero bytes as its
  index in an enumeration of all maps. Payments are rejected once the trace is long.
\<close>

definition sample_ldk :: "(hist \<Rightarrow> string + unit) \<Rightarrow> ldk" where
  "sample_ldk pay =
     \<lparr>kv_write_ok = (\<lambda>h. True), enc = (\<lambda>h m. replicate (to_nat m) 0), dec = (\<lambda>b. Some (from_nat (length b))),
      iter = (\<lambda>h m. []), random_bytes = (\<lambda>h. [1]), sha256 = (\<lambda>b. 7 # b), show_hash = hex_str,
      show_pubkey = hex_str, pay_result = pay, create_bolt11 = (\<lambda>h. Inl ''no'')\<rparr>"

lemma sample_ldk_simps [simp]:
  "kv_write_ok (sample_ldk pay) = (\<lambda>h. True)"
  "pay_result (sample_ldk pay) = pay"
  "random_bytes (sample_ldk pay) = (\<lambda>h. [1])"
  "sha256 (sample_ldk pay) = (\<lambda>b. 7 # b)"
  by (simp_all add: sample_ldk_def)

lemma sample_codec_ok: "codec_ok (sample_ldk pay)"
  by (simp add: codec_ok_def sample_ldk_def)

definition sample_node :: node where
  "sample_node = \<lparr>trace = [], fees = initial_fees, inbound = fmempty, outbound = fmempty, store = Map.empty\<rparr>"

definition sample_invoice :: invoice where
  "sample_invoice = \<lparr>inv_text = ''lnbc'', inv_payment_hash = [9], inv_payment_secret = [3],
     inv_amount_msat = Some 1000, inv_payee = [2]\<rparr>"

section \<open>Invoices\<close>

text \<open>The trace when the channel manager is asked to pay, after the pending entry was written.\<close>

definition recorded_trace :: "'l ldk_scheme \<Rightarrow> hist \<Rightarrow> payments \<Rightarrow> hist" where
  "recorded_trace L h m = h @ [KvWrite [] [] OUTBOUND_PAYMENTS_FNAME (enc L h m)]"

lemma run_record_outbound:
  "kv_write_ok L (trace n) \<Longrightarrow>
   record_outbound L i info n = (Val (),
     n\<lparr>outbound := fmupd i info (outbound n),
       trace := recorded_trace L (trace n) (fmupd i info (outbound n)),
       store := kv_put outbound_key (enc L (trace n) (fmupd i info (outbound n))) (store n)\<rparr>)"
  by (simp add: record_outbound_def run_simps Let_def recorded_trace_def)

definition payment_entry :: "payment_secret option \<Rightarrow> htlc_status \<Rightarrow> u64 \<Rightarrow> payment_info" where
  "payment_entry sec st amt =
     \<lparr>preimage = None, secret = sec, status = st, amt_msat = MillisatAmount (Some amt)\<rparr>"

lemma payment_entry_simps [simp]:
  "new_payment sec amt = payment_entry sec Pending amt"
  "(payment_entry sec st amt)\<lparr>status := st'\<rparr> = payment_entry sec st' amt"
  by (simp_all add: payment_entry_def new_payment_def)

lemma fmupd_same [simp]: "fmupd k a (fmupd k b m) = fmupd k a m"
  by (rule fmap_ext) simp

text \<open>
  C30: paying an invoice, with every write to the store succeeding. If the invoice and the user name
  amounts that differ, or neither names one, nothing is paid and neither the map nor the store changes.
  Otherwise, once the pending entry was written, the channel manager is asked exactly once, for this
  invoice under its hash; the map ends up with one entry for the hash, whatever was recorded for it
  before, without a preimage and with the amount named: pending if the channel manager took the payment
  and failed if it did not.
\<close>

theorem send_payment_outcome:
  assumes "\<And>h. kv_write_ok L h"
  shows "\<exists>n'. send_payment L invoice req n = (Val (), n')
    \<and> (\<forall>a b. inv_amount_msat invoice = Some a \<and> req = Some b \<and> a \<noteq> b
        \<or> inv_amount_msat invoice = None \<and> req = None \<longrightarrow>
        outbound n' = outbound n \<and> store n' = store n \<and> filter is_pay (trace n') = filter is_pay (trace n))
    \<and> (\<forall>amt. inv_amount_msat invoice = Some amt \<and> req \<in> {None, Some amt}
        \<or> inv_amount_msat invoice = None \<and> req = Some amt \<longrightarrow>
        (\<exists>h as. h = recorded_trace L (trace n) (fmupd (inv_payment_hash invoice)
              (payment_entry (Some (inv_payment_secret invoice)) Pending amt) (outbound n))
          \<and> trace n' = h @ Pay (PayForBolt11 invoice (inv_payment_hash invoice) req 10) # as
          \<and> filter is_pay as = []
          \<and> outbound n' = fmupd (inv_payment_hash invoice) (payment_entry (Some (inv_payment_secret invoice))
              (case pay_result L h of Inr _ \<Rightarrow> Pending | Inl _ \<Rightarrow> Failed) amt) (outbound n)))"
  (is "\<exists>n'. _ = _ \<and> ?Q n'")
proof -
  have "wp (send_payment L invoice req) (\<lambda>_. ?Q) (\<lambda>_ _. False) n"
    by (cases "inv_amount_msat invoice"; cases req)
      (auto simp: send_payment_def wp_simps Let_def prompt_def record_outbound_def fail_outbound_def assms
        recorded_trace_def retry_secs_def split: sum.splits)
  then show ?thesis
    by (auto simp: wp_def split: prod.splits outcome.splits)
qed

theorem send_payment_outcome_witness:
  "(\<exists>n'. send_payment (sample_ldk (\<lambda>h. Inr ())) sample_invoice None sample_node = (Val (), n')
      \<and> fmlookup (outbound n') [9] = Some (payment_entry (Some [3]) Pending 1000)
      \<and> Pay (PayForBolt11 sample_invoice [9] None 10) \<in> set (trace n'))
   \<and> (\<exists>n'. send_payment (sample_ldk (\<lambda>h. Inr ())) sample_invoice (Some 999) sample_node = (Val (), n')
      \<and> outbound n' = fmempty \<and> filter is_pay (trace n') = [])"
  using send_payment_outcome [of "sample_ldk (\<lambda>h. Inr ())" sample_invoice None sample_node]
    send_payment_outcome [of "sample_ldk (\<lambda>h. Inr ())" sample_invoice "Some 999" sample_node]
  by (auto simp: sample_invoice_def sample_node_def)

text \<open>
  Paying an invoice a second time loses the first payment's outcome: LDK refuses a payment whose
  identifier it knows, and then the entry of a payment that had succeeded says it failed, and its
  preimage, the proof of payment, is gone.
\<close>

lemma repaying_loses_preimage:
  assumes "\<And>h. kv_write_ok L h" and "\<And>h. pay_result L h = Inl ''DuplicatePayment''"
    and "fmlookup (outbound n) (inv_payment_hash invoice) = Some info"
    and "status info = Succeeded" and "preimage info = Some p"
    and "choose_amount (inv_amount_msat invoice) req = PayAmount amt"
  shows "\<exists>n' info'. send_payment L invoice req n = (Val (), n')
    \<and> fmlookup (outbound n') (inv_payment_hash invoice) = Some info'
    \<and> status info' = Failed \<and> preimage info' = None"
proof -
  have "wp (send_payment L invoice req) (\<lambda>_ n'. fmlookup (outbound n') (inv_payment_hash invoice) =
      Some (payment_entry (Some (inv_payment_secret invoice)) Failed amt)) (\<lambda>_ _. False) n"
    by (simp add: send_payment_def wp_simps Let_def prompt_def record_outbound_def fail_outbound_def assms)
  then show ?thesis
    by (auto simp: wp_def payment_entry_def split: prod.splits outcome.splits)
qed

section \<open>Spontaneous payments\<close>

text \<open>
  C32: a spontaneous payment is identified by the hash of a fresh preimage. Once its pending entry was
  written, the channel manager is asked exactly once, with that preimage, identifier and amount and a
  final expiry of 40 blocks. If it took the payment the entry stays pending and the user is told that it
  was sent; if it refused, the entry is marked failed and the error is printed. Other entries do not
  change.
\<close>

theorem keysend_outcome:
  assumes "\<And>h. kv_write_ok L h"
  shows "\<exists>n' p i h as. keysend L pk amt n = (Val (), n')
    \<and> p = random_bytes L (trace n) \<and> i = sha256 L p
    \<and> h = recorded_trace L (trace n @ [RandomBytes]) (fmupd i (payment_entry None Pending amt) (outbound n))
    \<and> trace n' = h @ Pay (SendSpontaneous p i pk 40 amt 10) # as \<and> filter is_pay as = []
    \<and> (case pay_result L h of
         Inr _ \<Rightarrow> outbound n' = fmupd i (payment_entry None Pending amt) (outbound n)
           \<and> stdout_of as = ''EVENT: initiated sending '' @ show_u64 amt @ '' msats to '' @ show_pubkey L pk @ nl @ ''> ''
       | Inl e \<Rightarrow> outbound n' = fmupd i (payment_entry None Failed amt) (outbound n)
           \<and> stdout_of as = ''ERROR: failed to send payment: '' @ e @ nl @ ''> '')"
  (is "\<exists>n' p i h as. _ = _ \<and> ?Q n' p i h as")
proof -
  have "wp (keysend L pk amt) (\<lambda>_ n'. \<exists>p i h as. ?Q n' p i h as) (\<lambda>_ _. False) n"
    by (auto simp: keysend_def wp_simps Let_def prompt_def record_outbound_def fail_outbound_def assms
        recorded_trace_def retry_secs_def split: sum.splits)
  then show ?thesis
    by (auto simp: wp_def split: prod.splits outcome.splits)
qed

theorem keysend_outcome_witness:
  "(\<exists>n'. keysend (sample_ldk (\<lambda>h. Inl ''no route'')) [2] 1000 sample_node = (Val (), n')
      \<and> outbound n' = fmupd [7, 1] (payment_entry None Failed 1000) fmempty)
   \<and> (\<exists>n'. keysend (sample_ldk (\<lambda>h. Inr ())) [2] 1000 sample_node = (Val (), n')
      \<and> outbound n' = fmupd [7, 1] (payment_entry None Pending 1000) fmempty)"
  using keysend_outcome [of "sample_ldk (\<lambda>h. Inl ''no route'')" "[2]" 1000 sample_node]
    keysend_outcome [of "sample_ldk (\<lambda>h. Inr ())" "[2]" 1000 sample_node]
  by (auto simp: sample_node_def)

section \<open>Offers and names\<close>

text \<open>
  A payment for an offer stays pending in the map even where the channel manager refused it: the
  branch prints the error and does not mark the entry, unlike those for invoices and spontaneous
  payments.
\<close>

lemma refused_offer_stays_pending:
  assumes "\<And>h. kv_write_ok L h"
  shows "\<exists>n'. pay_offer_now L off i amt n = (Val Continue, n')
    \<and> outbound n' = fmupd i (payment_entry None Pending amt) (outbound n)"
proof -
  have "wp (pay_offer_now L off i amt) (\<lambda>c n'. c = Continue
      \<and> outbound n' = fmupd i (payment_entry None Pending amt) (outbound n)) (\<lambda>_ _. False) n"
    by (auto simp: pay_offer_now_def wp_simps Let_def record_outbound_def assms split: sum.splits)
  then show ?thesis
    by (auto simp: wp_def split: prod.splits outcome.splits)
qed

lemma confirm_lines_confirmed:
  "confirm_lines q ls = (as, Confirmed, rest) \<Longrightarrow>
   \<exists>pre l. ls = map Line pre @ Line l # rest \<and> starts_with l ''Y''
     \<and> list_all (\<lambda>x. \<not> starts_with x ''Y'' \<and> \<not> starts_with x ''N'') pre"
proof (induction q ls arbitrary: as rule: confirm_lines.induct)
  case (3 q l ls)
  show ?case
  proof (cases "starts_with l ''Y'' \<or> starts_with l ''N''")
    case True
    then show ?thesis using 3(2) by (intro exI [of _ "[]"] exI [of _ l]) (auto split: if_splits)
  next
    case False
    then obtain as' where "confirm_lines q ls = (as', Confirmed, rest)"
      using 3(2) by (auto split: prod.splits)
    then obtain pre l' where "ls = map Line pre @ Line l' # rest" "starts_with l' ''Y''"
      "list_all (\<lambda>x. \<not> starts_with x ''Y'' \<and> \<not> starts_with x ''N'') pre"
      using 3(1) False by blast
    then show ?thesis using False by (intro exI [of _ "l # pre"] exI [of _ l']) auto
  qed
qed auto

lemma confirm_lines_no_pay: "confirm_lines q ls = (as, c, rest) \<Longrightarrow> Pay p \<notin> set as"
  using confirm_lines_not_pay by fastforce

lemma offer_msat_None: "offer_msat a None = Some amt \<longleftrightarrow> a = Some (BitcoinAmount amt)"
  by (cases "(a, None :: u64 option)" rule: offer_msat.cases) auto

text \<open>What a run of \<open>pay_offer_now\<close> adds to the payments asked for.\<close>

lemma wp_pay_offer_now_pays:
  "wp (pay_offer_now L off i amt) (\<lambda>_ n'. Pay p \<in> set (trace n') \<longrightarrow>
      Pay p \<in> set (trace n) \<or> p = PayForOffer off (Some amt) i retry_secs)
    (\<lambda>_ n'. Pay p \<in> set (trace n') \<longrightarrow> Pay p \<in> set (trace n)) n"
  by (simp add: pay_offer_now_def wp_simps Let_def record_outbound_def split: sum.splits)

text \<open>
  C31: when the user gave no amount, an offer is paid only if it names an amount in bitcoin, exactly
  that amount is paid, and the first line typed after the question that starts with \<open>Y\<close> or \<open>N\<close> starts
  with \<open>Y\<close>.
\<close>

theorem offer_paid_only_if_confirmed:
  assumes "pay_offer L off None n = (r, n')" and "Pay p \<in> set (trace n')" and "Pay p \<notin> set (trace n)"
  shows "\<exists>amt pre l rest. p = PayForOffer off (Some amt) (random_bytes L (trace n)) retry_secs
    \<and> offer_amount_of off = Some (BitcoinAmount amt)
    \<and> stdin n = map Line pre @ Line l # rest \<and> starts_with l ''Y''
    \<and> list_all (\<lambda>x. \<not> starts_with x ''Y'' \<and> \<not> starts_with x ''N'') pre"
proof -
  let ?i = "random_bytes L (trace n)"
  have "offer_msat (offer_amount_of off) None \<noteq> None"
  proof
    assume "offer_msat (offer_amount_of off) None = None"
    then show False using assms by (auto simp: pay_offer_def run_simps)
  qed
  then obtain amt where amt: "offer_msat (offer_amount_of off) None = Some amt" by blast
  let ?q = "''Paying offer for '' @ show_u64 amt @ '' msat. Continue (Y/N)? >''"
  obtain as c rest where cl: "confirm_lines ?q (stdin n) = (as, c, rest)"
    by (metis prod.exhaust)
  let ?n = "n\<lparr>trace := trace n @ RandomBytes # as, stdin := rest\<rparr>"
  have run: "pay_offer L off None n = (case c of InputEnded \<Rightarrow> ret Break ?n | Declined \<Rightarrow> ret Continue ?n
      | Confirmed \<Rightarrow> pay_offer_now L off ?i amt ?n)"
    using amt cl by (simp add: pay_offer_def run_simps confirm_def Let_def split: confirmation.splits)
  have fresh: "Pay p \<notin> set (trace ?n)" using assms(3) confirm_lines_no_pay [OF cl] by simp
  then have c: "c = Confirmed" using run assms(1,2) by (cases c) (auto simp: run_simps)
  then have "p = PayForOffer off (Some amt) ?i retry_secs"
    using wp_pay_offer_now_pays [of L off ?i amt p ?n] run assms(1,2) fresh
    by (cases r) (auto simp: wp_def)
  then show ?thesis
    using confirm_lines_confirmed [OF cl [unfolded c]] amt by (auto simp: offer_msat_None)
qed

text \<open>An offer of 50 millisatoshi, and a user who first answers with an empty line.\<close>

definition sample_offer :: offer where
  "sample_offer = \<lparr>offer_text = ''lno'', offer_amount_of = Some (BitcoinAmount 50)\<rparr>"

definition sample_cli_node :: cli_node where
  "sample_cli_node = \<lparr>trace = [], fees = initial_fees, inbound = fmempty, outbound = fmempty,
     store = Map.empty, stdin = [Line ''?'', Line ''Yes'', Line ''quit'']\<rparr>"

theorem offer_paid_only_if_confirmed_witness:
  "\<exists>amt pre l rest. offer_amount_of sample_offer = Some (BitcoinAmount amt)
    \<and> stdin sample_cli_node = map Line pre @ Line l # rest \<and> starts_with l ''Y''"
proof -
  let ?p = "PayForOffer sample_offer (Some 50) [1] retry_secs"
  obtain r n' where run: "pay_offer (sample_ldk (\<lambda>h. Inr ())) sample_offer None sample_cli_node = (r, n')"
    by fastforce
  have "Pay ?p \<in> set (trace n')"
    using run by (auto simp: pay_offer_def run_simps confirm_def sample_cli_node_def sample_offer_def
        Let_def pay_offer_now_def record_outbound_def starts_with_def)
  with offer_paid_only_if_confirmed [OF run, of ?p] show ?thesis
    by (auto simp: sample_cli_node_def)
qed

text \<open>The key of a node that announces both features a resolver needs.\<close>

definition resolver_key :: "(node_id \<Rightarrow> pubkey option) \<Rightarrow> node_id \<times> announcement option \<Rightarrow> pubkey option" where
  "resolver_key aspk = (\<lambda>(i, a).
     case a of
       Some info \<Rightarrow> if ann_dns_resolution info \<and> ann_onion_messages info then aspk i else None
     | None \<Rightarrow> None)"

lemma dns_resolvers_Cons:
  "dns_resolvers aspk (x # ns) acc =
     (case resolver_key aspk x of
        None \<Rightarrow> if 5 < length acc then acc else dns_resolvers aspk ns acc
      | Some pk \<Rightarrow> if 4 < length acc then acc @ [pk] else dns_resolvers aspk ns (acc @ [pk]))"
  by (cases x) (simp add: resolver_key_def Let_def split: option.splits)

lemma dns_resolvers_take:
  "length acc \<le> 5 \<Longrightarrow> dns_resolvers aspk ns acc = take 6 (acc @ List.map_filter (resolver_key aspk) ns)"
proof (induction ns arbitrary: acc)
  case (Cons x ns)
  then show ?case
    by (cases "resolver_key aspk x") (auto simp: dns_resolvers_Cons map_filter_simps take_Cons' simp del: dns_resolvers.simps)
qed (simp add: map_filter_simps)

text \<open>
  The nodes asked to resolve a human-readable name are the first six, in the graph's order, among
  those that announce both DNS resolution and onion messages and have a valid key: the loop that stops
  once it has more than five is that reference.
\<close>

lemma dns_resolvers_first_six:
  "dns_resolvers aspk ns [] = take 6 (List.map_filter (resolver_key aspk) ns)"
  by (simp add: dns_resolvers_take)

end
