(* ===== verification/Cli_Properties.thy ===== *)
theory Cli_Properties
  imports Frame Payment_Properties
begin

text \<open>
  What the command loop of \<open>src/cli.rs\<close> guarantees as a whole: payments are recorded before they are
  made, memory and disk agree between commands, the loop ends, and what the commands on channels and
  peers ask LDK to do.
\<close>

section \<open>The loop keeps what its commands keep\<close>

lemma logged_trace_only: "trace_only m \<Longrightarrow> keeps (logged L) (logged L) m"
  by (erule keeps_trace_only) (auto simp: logged_def pay_logged_append list_all_iff)

lemma synced_trace_only: "trace_only m \<Longrightarrow> keeps (synced L) (\<lambda>_. True) m"
  by (erule keeps_trace_only) auto

lemma keeps_keysend_cmd:
  "codec_ok L \<Longrightarrow> keeps (logged L) (logged L) (cmd_keysend L ws)"
  "codec_ok L \<Longrightarrow> keeps (synced L) (\<lambda>_. True) (cmd_keysend L ws)"
  unfolding cmd_keysend_def
  by (rule keeps_keysend_logged keeps_keysend_synced keeps_intros
      trace_only_complain [THEN logged_trace_only] trace_only_complain [THEN synced_trace_only] | simp)+

lemma keeps_getinvoice_cmd:
  "keeps (logged L) (logged L) (cmd_getinvoice L ws)"
  "keeps (synced L) (\<lambda>_. True) (cmd_getinvoice L ws)"
  unfolding cmd_getinvoice_def
  by (rule keeps_getinvoice_logged keeps_getinvoice_synced keeps_intros
      trace_only_complain [THEN logged_trace_only] trace_only_complain [THEN synced_trace_only] | simp)+

lemma keeps_command_logged:
  "codec_ok L \<Longrightarrow> keeps (logged L) (logged L) (command L line w ws)"
  unfolding command_def
  by (rule keeps_if keeps_keysend_cmd keeps_getinvoice_cmd keeps_sendpayment_logged
      logged_trace_only trace_only_intros | assumption)+

lemma keeps_command_synced:
  "codec_ok L \<Longrightarrow> keeps (synced L) (\<lambda>_. True) (command L line w ws)"
  unfolding command_def
  by (rule keeps_if keeps_keysend_cmd keeps_getinvoice_cmd keeps_sendpayment_synced
      synced_trace_only trace_only_intros | assumption)+

lemma keeps_case_control [keeps_intros]:
  "keeps I E a \<Longrightarrow> keeps I E b \<Longrightarrow> keeps I E d \<Longrightarrow>
   keeps I E (case c of Continue \<Rightarrow> a | Break \<Rightarrow> b | Blocked \<Rightarrow> d)"
  by (cases c) simp_all

lemma keeps_case_stdin_item [keeps_intros]:
  "(\<And>l. keeps I E (f l)) \<Longrightarrow> (\<And>e. keeps I E (g e)) \<Longrightarrow>
   keeps I E (case x of Line l \<Rightarrow> f l | ReadError e \<Rightarrow> g e)"
  by (cases x) simp_all

text \<open>An invariant of every command that does not depend on the input is one of the loop.\<close>

lemma keeps_read_command:
  assumes cmd: "\<And>line w ws. keeps I E (command L line w ws)"
    and talk: "\<And>m. trace_only m \<Longrightarrow> keeps I E (m :: ('b cli_node_scheme, control) prog)"
      "\<And>m. trace_only m \<Longrightarrow> keeps I E (m :: ('b cli_node_scheme, unit) prog)"
    and inp: "\<And>n rest. I n \<Longrightarrow> I (n\<lparr>stdin := rest\<rparr>)"
  shows "keeps I E (read_command L)"
  unfolding read_command_def
  by (intro keeps_then keeps_bind keeps_gets keeps_case_list keeps_case_stdin_item keeps_modify inp cmd)
    (intro talk trace_only_intros | assumption)+

lemma keeps_read_commands:
  assumes cmd: "\<And>line w ws. keeps I E (command L line w ws)"
    and talk: "\<And>m. trace_only m \<Longrightarrow> keeps I E (m :: ('b cli_node_scheme, control) prog)"
      "\<And>m. trace_only m \<Longrightarrow> keeps I E (m :: ('b cli_node_scheme, unit) prog)"
    and inp: "\<And>n rest. I n \<Longrightarrow> I (n\<lparr>stdin := rest\<rparr>)"
  shows "keeps I E (poll_for_user_input k L)"
proof -
  have "keeps I E (read_command L)"
    by (rule keeps_read_command [OF cmd talk inp])
  then have "keeps I E (read_commands k L)"
    by (induction k) (auto intro!: keeps_intros)
  then show ?thesis
    unfolding poll_for_user_input_def
    by (intro keeps_then) (assumption | rule talk trace_only_intros)+
qed

text \<open>
  Over a whole session at the command line, whatever is typed and however LDK answers, and also when
  the process dies in the middle, every payment the channel manager was asked to make had, at that
  moment, an entry with its identifier and status pending in the last map written to the store.
\<close>

lemma cli_payments_recorded_first:
  assumes "codec_ok L" and "pay_logged L (trace n)"
  shows "pay_logged L (trace (snd (poll_for_user_input k L n)))"
proof -
  have "keeps (logged L) (logged L) (poll_for_user_input k L)"
    by (rule keeps_read_commands [OF keeps_command_logged [OF assms(1)] logged_trace_only logged_trace_only])
      (simp_all add: logged_def)
  then show ?thesis
    using assms(2) keeps_both [of "logged L"] by (simp add: logged_def)
qed

text \<open>
  When a session at the command line ends, in any way but a panic, the stored map of outgoing
  payments decodes to the one in memory, if it did so when the session began.
\<close>

lemma cli_keeps_memory_on_disk:
  assumes "codec_ok L" and "synced L n" and "poll_for_user_input k L n = (Val c, n')"
  shows "\<exists>b. kv_get (store n') outbound_key = Some b \<and> dec L b = Some (outbound n')"
proof -
  have "keeps (synced L) (\<lambda>_. True) (poll_for_user_input k L)"
    by (rule keeps_read_commands [OF keeps_command_synced [OF assms(1)] synced_trace_only synced_trace_only])
      (simp_all add: synced_def)
  then have "synced L n'" using assms(2,3) by (rule keeps_Val)
  then show ?thesis by (simp add: synced_def)
qed

text \<open>A session: a payment, then an unknown command, then the end.\<close>

definition sample_cli :: cli_lib where
  "sample_cli =
     \<lparr>kv_write_ok = (\<lambda>h. True), enc = (\<lambda>h m. replicate (to_nat m) 0), dec = (\<lambda>b. Some (from_nat (length b))),
      iter = (\<lambda>h m. []), random_bytes = (\<lambda>h. [1]), sha256 = (\<lambda>b. 7 # b), show_hash = hex_str,
      show_pubkey = hex_str, pay_result = (\<lambda>h. Inr ()), create_bolt11 = (\<lambda>h. Inl ''no''),
      parse_offer = (\<lambda>s. None), parse_hrn = (\<lambda>s. None), parse_bolt11 = (\<lambda>s. Inr sample_invoice),
      graph_nodes = (\<lambda>h. []), as_pubkey = (\<lambda>i. None),
      key_from_slice = Some, key_from_str = (\<lambda>s. Inl ''no''), resolve_addr = (\<lambda>h s. Some s),
      peer_connected = (\<lambda>h p. length h > 3), connect_outbound = (\<lambda>h. True), select_closed = (\<lambda>h. False),
      connect_fuel = 5, peers_of = (\<lambda>h. []),
      channels_of = (\<lambda>h. []), create_channel = (\<lambda>h. Inr ()), close_result = (\<lambda>h. Inr ()),
      offer_builder = (\<lambda>h. Inr ()), build_offer = (\<lambda>h. Inr ''lno''), our_node_id = [2],
      balances_of = (\<lambda>h. []), claimable_amount = (\<lambda>b. 0), graph_size = (\<lambda>h. (0, 0)),
      graph_node = (\<lambda>h p. None), show_channel_id = hex_str, sign_message = (\<lambda>b. ''sig'')\<rparr>"

lemma sample_cli_codec: "codec_ok sample_cli"
  by (simp add: codec_ok_def sample_cli_def)

definition sample_session :: "stdin_item list \<Rightarrow> cli_node" where
  "sample_session ls = \<lparr>trace = [], fees = initial_fees, inbound = fmempty, outbound = fmempty,
     store = kv_put outbound_key (enc sample_cli [] fmempty) Map.empty, stdin = ls\<rparr>"

section \<open>The loop ends\<close>

text \<open>At most \<open>k\<close> items of input are left.\<close>

definition input_left :: "nat \<Rightarrow> 'b cli_node_scheme \<Rightarrow> bool" where
  "input_left k n \<longleftrightarrow> length (stdin n) \<le> k"

lemma confirm_lines_length: "confirm_lines q ls = (as, c, rest) \<Longrightarrow> length rest \<le> length ls"
  by (induction q ls arbitrary: as rule: confirm_lines.induct)
    (fastforce split: if_splits prod.splits)+

lemma keeps_input_confirm: "keeps (input_left k) (\<lambda>_. True) (confirm amt)"
  by (auto simp: keeps_def confirm_def wp_simps input_left_def Let_def
      dest!: confirm_lines_length split: prod.splits)

interpretation input: full_frame "input_left k" "\<lambda>_. True" for k
  by unfold_locales (simp_all add: input_left_def keeps_input_confirm)

lemma read_command_progress:
  "wp (read_command L) (\<lambda>c n'. c = Continue \<longrightarrow> length (stdin n') < length (stdin n)) (\<lambda>_ _. True) n"
proof (cases "stdin n")
  case (Cons item rest)
  have "wp (command L line w ws) (\<lambda>_. input_left (length rest)) (\<lambda>_ _. True) n'"
    if "stdin n' = rest" for line w ws n'
    by (rule keeps_wp [OF input.keeps_command]) (simp add: input_left_def that)
  then have cmd: "wp (command L line w ws) (\<lambda>c n'. c = Continue \<longrightarrow> length (stdin n') < Suc (length rest)) (\<lambda>_ _. True) n'"
    if "stdin n' = rest" for line w ws n'
    by (rule wp_mono) (simp_all add: input_left_def that)
  show ?thesis
    using Cons
    by (cases item) (simp_all add: read_command_def wp_simps prompt_def cmd split: list.splits)
qed (simp add: read_command_def wp_simps prompt_def)

lemma read_commands_end:
  "length (stdin n) < k \<Longrightarrow> fst (read_commands k L n) \<noteq> Val Continue"
proof (induction k arbitrary: n)
  case (Suc k)
  obtain r n' where run: "read_command L n = (r, n')" by fastforce
  show ?case
  proof (cases "r = Val Continue")
    case True
    then have "length (stdin n') < k"
      using read_command_progress [of L n] run Suc.prems by (simp add: wp_def)
    then show ?thesis using run True Suc.IH by (simp add: run_simps)
  next
    case False
    then show ?thesis
      using run by (cases r) (auto simp: bindP_def run_simps split: control.splits)
  qed
qed simp

text \<open>
  C33: the command loop ends: a session takes at most one turn more than there are lines of input, each
  turn using up at least one line, so with that much fuel it never runs out of fuel. What is left is a
  session that has ended, has panicked, or is waiting for a peer.
\<close>

theorem cli_session_ends:
  "fst (poll_for_user_input (Suc (length (stdin n))) L n) \<noteq> Val Continue"
proof -
  have poll: "poll_for_user_input k L n = read_commands k L (snd (poll_for_user_input 0 L n))" for k
    by (simp add: poll_for_user_input_def run_simps)
  have "stdin (snd (poll_for_user_input 0 L n)) = stdin n"
    by (simp add: poll_for_user_input_def run_simps)
  then show ?thesis
    unfolding poll [of "Suc (length (stdin n))"] by (intro read_commands_end) simp
qed

section \<open>Peers and channels\<close>

text \<open>The history after some turns of the loop that did not end it.\<close>

definition turns :: "nat \<Rightarrow> hist \<Rightarrow> hist" where
  "turns i h = h @ concat (replicate i [Query, SleepMillis 10, Query])"

lemma turns_Suc: "turns (Suc i) h = turns i (h @ [Query, SleepMillis 10, Query])"
  by (simp add: turns_def)

text \<open>How the loop ends after \<open>i\<close> turns: the connection was dropped, or the peer was listed.\<close>

definition dropped_at :: "'l peer_lib_scheme \<Rightarrow> hist \<Rightarrow> nat \<Rightarrow> bool" where
  "dropped_at L h i \<longleftrightarrow> select_closed L (turns i h)"

definition listed_at :: "'l peer_lib_scheme \<Rightarrow> pubkey \<Rightarrow> hist \<Rightarrow> nat \<Rightarrow> bool" where
  "listed_at L pk h i \<longleftrightarrow> peer_connected L (turns i h @ [Query, SleepMillis 10]) pk"

lemma looks_Suc:
  "dropped_at L h (Suc i) = dropped_at L (h @ [Query, SleepMillis 10, Query]) i"
  "listed_at L pk h (Suc i) = listed_at L pk (h @ [Query, SleepMillis 10, Query]) i"
  by (simp_all add: dropped_at_def listed_at_def turns_Suc)

text \<open>The run of a loop that ends in turn \<open>i\<close>.\<close>

lemma run_connect_loop_until:
  assumes "i < k" and "dropped_at L (trace s) i \<or> listed_at L pk (trace s) i"
    and "\<And>j. j < i \<Longrightarrow> \<not> dropped_at L (trace s) j \<and> \<not> listed_at L pk (trace s) j"
  shows "connect_loop k L pk s =
    (Val (Some (if dropped_at L (trace s) i then Inl () else Inr ())),
     s\<lparr>trace := turns i (trace s) @
       (if dropped_at L (trace s) i then [Query] else [Query, SleepMillis 10, Query])\<rparr>)"
  using assms
proof (induction i arbitrary: k s)
  case 0
  then show ?case by (cases k) (auto simp: run_simps dropped_at_def listed_at_def turns_def)
next
  case (Suc i)
  obtain k' where k: "k = Suc k'" using Suc.prems(1) by (cases k) auto
  let ?s = "s\<lparr>trace := trace s @ [Query, SleepMillis 10, Query]\<rparr>"
  have "\<not> select_closed L (trace s)" "\<not> peer_connected L (trace s @ [Query, SleepMillis 10]) pk"
    using Suc.prems(3) [of 0] by (simp_all add: dropped_at_def listed_at_def turns_def)
  then have "connect_loop k L pk s = connect_loop k' L pk ?s"
    by (simp add: k run_simps)
  moreover have "\<not> dropped_at L (trace ?s) j \<and> \<not> listed_at L pk (trace ?s) j" if "j < i" for j
    using Suc.prems(3) [of "Suc j"] that by (simp add: looks_Suc)
  ultimately show ?case
    using Suc.IH [of k' ?s] Suc.prems(1,2) k by (simp add: looks_Suc turns_Suc)
qed

text \<open>
  C34: the loop that waits for a handshake looks once in every turn of 10 milliseconds, and ends in the
  first turn in which LDK drops the connection or lists the peer, not before: with failure if the
  connection was dropped and with success otherwise. If that happens within the first \<open>k\<close> turns, \<open>k\<close>
  turns are enough.
\<close>

theorem connect_loop_ends:
  assumes "i < k" and "dropped_at L (trace s) i \<or> listed_at L pk (trace s) i"
  shows "\<exists>j \<le> i. (dropped_at L (trace s) j \<or> listed_at L pk (trace s) j)
    \<and> (\<forall>j' < j. \<not> dropped_at L (trace s) j' \<and> \<not> listed_at L pk (trace s) j')
    \<and> connect_loop k L pk s =
        (Val (Some (if dropped_at L (trace s) j then Inl () else Inr ())),
         s\<lparr>trace := turns j (trace s) @
           (if dropped_at L (trace s) j then [Query] else [Query, SleepMillis 10, Query])\<rparr>)"
proof -
  obtain j where j: "j \<le> i" "dropped_at L (trace s) j \<or> listed_at L pk (trace s) j"
    "\<forall>j' < j. \<not> (dropped_at L (trace s) j' \<or> listed_at L pk (trace s) j')"
    using ex_least_nat_le [of "\<lambda>j. dropped_at L (trace s) j \<or> listed_at L pk (trace s) j" i] assms(2) by blast
  with run_connect_loop_until [of j k L s pk] assms(1) show ?thesis by auto
qed

text \<open>A peer that is listed once two turns have gone by.\<close>

definition sample_late_cli :: cli_lib where
  "sample_late_cli = sample_cli\<lparr>select_closed := (\<lambda>h. False), peer_connected := (\<lambda>h pk. 6 < length h)\<rparr>"

theorem connect_loop_ends_witness:
  "fst (connect_loop 5 sample_late_cli [2] (sample_session [])) = Val (Some (Inr ()))
   \<and> trace (snd (connect_loop 5 sample_late_cli [2] (sample_session []))) =
       concat (replicate 3 [Query, SleepMillis 10, Query])"
proof -
  let ?h = "trace (sample_session [])"
  have late: "listed_at sample_late_cli [2] ?h j = (2 \<le> j)" "\<not> dropped_at sample_late_cli ?h j" for j
    by (auto simp: dropped_at_def listed_at_def turns_def sample_late_cli_def sample_session_def
        length_concat sum_list_replicate comp_def)
  obtain j where "j \<le> 2" "dropped_at sample_late_cli ?h j \<or> listed_at sample_late_cli [2] ?h j"
    "connect_loop 5 sample_late_cli [2] (sample_session []) =
        (Val (Some (if dropped_at sample_late_cli ?h j then Inl () else Inr ())),
         (sample_session [])\<lparr>trace := turns j ?h @
           (if dropped_at sample_late_cli ?h j then [Query] else [Query, SleepMillis 10, Query])\<rparr>)"
    using connect_loop_ends [of 2 5 sample_late_cli "sample_session []" "[2]"] late by auto
  moreover from this have "j = 2" using late by simp
  ultimately show ?thesis
    using late by (simp add: turns_def sample_session_def numeral_eq_Suc)
qed

text \<open>What one flag does to each of the two options: the last one that names an option decides.\<close>

definition public_flag :: "bool \<Rightarrow> string \<Rightarrow> bool" where
  "public_flag b w = (if w = ''--public'' \<or> w = ''--public=true'' then True else if w = ''--public=false'' then False else b)"

definition anchors_flag :: "bool \<Rightarrow> string \<Rightarrow> bool" where
  "anchors_flag b w = (if w = ''--with-anchors'' \<or> w = ''--with-anchors=true'' then True
     else if w = ''--with-anchors=false'' then False else b)"

definition known_flag :: "string \<Rightarrow> bool" where
  "known_flag w \<longleftrightarrow> w \<in> {''--public'', ''--public=true'', ''--public=false'', ''--with-anchors'',
     ''--with-anchors=true'', ''--with-anchors=false''}"

lemma channel_flags_Cons:
  "channel_flags (w # ws) p a =
     (if known_flag w then channel_flags ws (public_flag p w) (anchors_flag a w)
      else thenP (println flag_error) (channel_flags ws p a))"
  by (auto simp: known_flag_def public_flag_def anchors_flag_def)

lemma unknown_flag: "\<not> known_flag w \<Longrightarrow> public_flag b w = b \<and> anchors_flag b w = b"
  by (simp add: known_flag_def public_flag_def anchors_flag_def)

lemma channel_flags_result:
  "\<exists>as. channel_flags ws p a s =
     (Val (foldl public_flag p ws, foldl anchors_flag a ws), s\<lparr>trace := trace s @ as\<rparr>)
   \<and> as = map (\<lambda>w. Print (flag_error @ nl)) (filter (\<lambda>w. \<not> known_flag w) ws)"
proof (induction ws arbitrary: p a s)
  case Nil
  then show ?case by (simp add: run_simps)
next
  case (Cons w ws)
  then show ?case
    using Cons [of p a "s\<lparr>trace := trace s @ [Print (flag_error @ nl)]\<rparr>"]
    by (simp add: channel_flags_Cons run_simps unknown_flag del: channel_flags.simps)
qed

text \<open>
  C35: once the peer is reached, \<open>openchannel\<close> asks for exactly one channel, with the amount given, nothing
  pushed to the peer, a delay of 2016 blocks on the peer's funds, and the options as the last flag that
  names each sets them. A flag that is none of the six is reported but does not stop the command.
\<close>

theorem openchannel_request:
  assumes "parse_u64 amt = Inr sat"
  shows "\<exists>r. fst (openchannel_with L pk amt flags s) = Val Continue
    \<and> trace (snd (openchannel_with L pk amt flags s)) = trace s
        @ map (\<lambda>w. Print (flag_error @ nl)) (filter (\<lambda>w. \<not> known_flag w) flags)
        @ [Channel (CreateChannel pk sat 0 0 \<lparr>their_to_self_delay = 2016,
             announce_for_forwarding = foldl public_flag False flags,
             negotiate_anchors = foldl anchors_flag False flags\<rparr>), Print r]"
proof -
  obtain as where as: "channel_flags flags False False s =
      (Val (foldl public_flag False flags, foldl anchors_flag False flags), s\<lparr>trace := trace s @ as\<rparr>)"
    "as = map (\<lambda>w. Print (flag_error @ nl)) (filter (\<lambda>w. \<not> known_flag w) flags)"
    using channel_flags_result [of flags False False s] by auto
  show ?thesis
    using assms
    by (simp add: openchannel_with_def run_simps as(1) open_channel_def Let_def bindP_def thenP_def
        split: sum.splits) (simp add: as(2))
qed

theorem openchannel_request_witness:
  "\<exists>r. trace (snd (openchannel_with sample_cli [2] ''1000'' [''--pubilc'', ''--with-anchors''] (sample_session []))) =
     [Print (flag_error @ nl),
      Channel (CreateChannel [2] 1000 0 0 \<lparr>their_to_self_delay = 2016,
        announce_for_forwarding = False, negotiate_anchors = True\<rparr>), Print r]"
proof -
  have "parse_u64 ''1000'' = Inr 1000"
    by (simp add: parse_u64_def parse_uint_def digit_val_def)
  from openchannel_request [OF this, of sample_cli "[2]" "[''--pubilc'', ''--with-anchors'']" "sample_session []"]
  show ?thesis
    by (simp add: known_flag_def public_flag_def anchors_flag_def sample_session_def)
qed

text \<open>
  \<open>closechannel\<close> and \<open>forceclosechannel\<close> act exactly on a 32-byte channel identifier in hexadecimal
  followed by the hexadecimal bytes of a public key, so they read back what \<open>hex_str\<close> prints for both,
  whatever follows on the line.
\<close>

lemma close_args_accepts:
  "close_args L cmd words = Inr (i, pk) \<longleftrightarrow>
     (\<exists>c p v rest. words = c # p # rest \<and> to_vec c = Some i \<and> length i = 32
        \<and> to_vec p = Some v \<and> key_from_slice L v = Some pk)"
  by (auto simp: close_args_def split: list.splits option.splits if_splits)

text \<open>
  A peer is disconnected only if no channel with it is open and it is connected: the command asks for
  the disconnection exactly in that case, and in the other cases it only prints an error.
\<close>

lemma disconnect_guarded:
  "let chans = channels_of L (trace s); r = do_disconnect_peer L pk s in
   (Peer (DisconnectPeer pk) \<in> set (drop (length (trace s)) (trace (snd r)))
      \<longleftrightarrow> pk \<notin> set (map cd_node_id chans) \<and> peer_connected L (trace s @ [Query]) pk)
   \<and> (fst r = Val (Inr ()) \<longleftrightarrow> Peer (DisconnectPeer pk) \<in> set (drop (length (trace s)) (trace (snd r))))"
  by (auto simp: do_disconnect_peer_def run_simps Let_def bindP_def thenP_def)

lemma split_on_cases:
  "c \<notin> set t \<and> split_on c t = [t] \<or>
   (\<exists>a b. t = a @ c # b \<and> c \<notin> set a \<and> split_on c t = a # split_on c b)"
proof (cases "c \<in> set t")
  case True
  then obtain a b where "t = a @ c # b" "c \<notin> set a" by (meson split_list_first)
  then show ?thesis by (auto simp: split_on_append)
qed (simp add: split_on_none)

text \<open>The first two parts of a text split at a character.\<close>

lemma split_on_two:
  "(\<exists>ps. split_on c t = p # q # ps) \<longleftrightarrow>
     (\<exists>rest. t = p @ c # q @ rest \<and> c \<notin> set p \<and> c \<notin> set q \<and> (rest = [] \<or> hd rest = c))"
  (is "?L \<longleftrightarrow> ?R")
proof
  assume ?L
  then obtain ps where ps: "split_on c t = p # q # ps" by blast
  with split_on_cases [of c t] obtain b where t: "t = p @ c # b" "c \<notin> set p" "split_on c b = q # ps"
    by auto
  with split_on_cases [of c b] show ?R
    by (elim disjE) (auto intro: exI [of _ "[]"])
next
  assume ?R
  then obtain rest where t: "t = p @ c # q @ rest" "c \<notin> set p" "c \<notin> set q" "rest = [] \<or> hd rest = c"
    by blast
  then show ?L
    by (cases rest) (auto simp: split_on_append split_on_none)
qed

text \<open>
  \<open>pubkey@host:port\<close> is read as a key before the first \<open>@\<close> and an address after it, and the parser
  succeeds exactly when the key is one and the address resolves; what follows a second \<open>@\<close> is ignored.
\<close>

lemma parse_peer_info_accepts:
  "fst (parse_peer_info L t s) = Val (Inr (pk, a)) \<longleftrightarrow>
     (\<exists>key addr rest. t = key @ CHR ''@'' # addr @ rest
        \<and> CHR ''@'' \<notin> set key \<and> CHR ''@'' \<notin> set addr \<and> (rest = [] \<or> hd rest = CHR ''@'')
        \<and> to_compressed_pubkey (key_from_slice L) key = Some pk \<and> resolve_addr L (trace s) addr = Some a)"
proof -
  have "fst (parse_peer_info L t s) = Val (Inr (pk, a)) \<longleftrightarrow>
     (\<exists>key addr. (\<exists>ps. split_on (CHR ''@'') t = key # addr # ps)
        \<and> to_compressed_pubkey (key_from_slice L) key = Some pk \<and> resolve_addr L (trace s) addr = Some a)"
    by (auto simp: parse_peer_info_def run_simps split: list.splits option.splits)
  then show ?thesis unfolding split_on_two by blast
qed

end
