(* ===== verification/Client_Properties.thy ===== *)
theory Client_Properties
  imports Bitcoind_Client
begin

text \<open>
  What \<open>src/bitcoind_client.rs\<close> and \<open>src/convert.rs\<close> promise: the fee estimates LDK reads are never
  missing and never below LDK's minimum, the requests carry what they should, and which answers of
  bitcoind make the node panic.
\<close>

section \<open>A server for examples\<close>

text \<open>
  An RPC server whose answers are an object with the fields the node asks for, or a list with one
  taproot output: it reports the supported mempool size and a feerate of 0.00001 BTC per 1000 virtual
  bytes.
\<close>

datatype sample_json = SNull | SNum nat | SFloat rat | SText string | SBool bool
  | SList "sample_json list" | SObj "(string \<times> sample_json) list"

definition sample_json_ops :: "sample_json json_ops" where
  "sample_json_ops =
     \<lparr>j_index = (\<lambda>j k. case j of SObj fs \<Rightarrow> (case map_of fs k of Some v \<Rightarrow> v | None \<Rightarrow> SNull) | _ \<Rightarrow> SNull),
      j_is_null = (\<lambda>j. j = SNull),
      j_as_i64 = (\<lambda>j. case j of SNum n \<Rightarrow> Some (int n) | _ \<Rightarrow> None),
      j_as_u64 = (\<lambda>j. case j of SNum n \<Rightarrow> Some (of_nat n) | _ \<Rightarrow> None),
      j_as_f64 = (\<lambda>j. case j of SFloat r \<Rightarrow> Some (Finite r) | _ \<Rightarrow> None),
      j_as_str = (\<lambda>j. case j of SText t \<Rightarrow> Some t | _ \<Rightarrow> None),
      j_as_bool = (\<lambda>j. case j of SBool b \<Rightarrow> Some b | _ \<Rightarrow> None),
      j_as_array = (\<lambda>j. case j of SList js \<Rightarrow> Some js | _ \<Rightarrow> None)\<rparr>"

definition sample_bitcoin_lib :: bitcoin_lib where
  "sample_bitcoin_lib =
     \<lparr>parse_txid = (\<lambda>s. Some (as_bytes s)), parse_block_hash = (\<lambda>s. Some (as_bytes s)),
      parse_address = (\<lambda>s. Some \<lparr>addr_program = Some (P2tr, as_bytes s), addr_script = as_bytes s\<rparr>),
      amount_from_btc = (\<lambda>f. Some 5)\<rparr>"

definition sample_answer :: "string \<Rightarrow> sample_json" where
  "sample_answer m =
     (if m = ''listunspent'' then
        SList [SObj [(''txid'', SText ''t''), (''vout'', SNum 1), (''amount'', SFloat 0), (''address'', SText ''a'')]]
      else
        SObj [(''maxmempool'', SNum 300000000), (''blocks'', SNum 7), (''bestblockhash'', SText ''00''),
          (''chain'', SText ''regtest''), (''mempoolminfee'', SFloat 0), (''feerate'', SFloat (1 / 100000)),
          (''hex'', SText ''00''), (''complete'', SBool True)])"

definition sample_rpc :: "sample_json rpc_lib" where
  "sample_rpc =
     \<lparr>rpc = (\<lambda>h m args. if length h < 10 then Inr (sample_answer m) else Inl None), json = sample_json_ops,
      btc = sample_bitcoin_lib,
      txid_of = (\<lambda>j. Inl []), on_network = (\<lambda>n a. True), wpkh_of = Some, xonly_of = Some,
      new_v0_p2wpkh = (\<lambda>op v p. \<lparr>outpoint = op, out_value = v, out_script = p, satisfaction_weight = 1\<rparr>),
      serialize_hex = hex_str, encode_unsigned = (\<lambda>p. p), decode_tx = Some, base64 = (\<lambda>s. s),
      witness_scale_factor = 4\<rparr>"

definition sample_client_state :: client_state where
  "sample_client_state = \<lparr>trace = [], fees = initial_fees\<rparr>"

lemmas sample_defs = sample_rpc_def sample_json_ops_def sample_bitcoin_lib_def sample_answer_def
  sample_client_state_def

section \<open>Fee estimates\<close>

lemma run_call_method:
  "call_method R m args conv s =
     (let s' = s\<lparr>trace := trace s @ [Rpc m args]\<rparr> in
      case rpc R (trace s) m args of
        Inl e \<Rightarrow> (Val (Inl e), s')
      | Inr j \<Rightarrow> bindP (conv j) (\<lambda>t. ret (Inr t)) s')"
  by (simp add: call_method_def bindP_def run_simps Let_def split: sum.splits)

lemma client_new_fees:
  "client_new R host port user pw net s0 = (Val (Inr c), s) \<Longrightarrow> fees s = initial_fees"
  by (auto simp: client_new_def bindP_def thenP_def run_simps modify_def run_call_method Let_def
      split: sum.splits prod.splits outcome.splits)

text \<open>
  Once \<open>BitcoindClient::new\<close> has returned a client, and after any number of rounds of the task that
  refreshes the estimates, whatever bitcoind answers, a fee request of LDK returns an estimate: none is
  missing, and each is at least 253 satoshi per 1000 weight units, the one for
  \<open>MinAllowedNonAnchorChannelRemoteFee\<close> at least 3.
\<close>

lemma fee_estimates_available:
  assumes "client_new R host port user pw net s0 = (Val (Inr c), s)" and "(poll_step R)\<^sup>*\<^sup>* s s'"
  shows "\<exists>v. get_est_sat_per_1000_weight t s' = (Val v, s')
    \<and> (if t = MinAllowedNonAnchorChannelRemoteFee then 3 else 253) \<le> v"
proof -
  have "fees_ok (fees s')"
    using assms(2) by (rule polling.inv_reachable [OF client_new_fees [OF assms(1)]])
  then obtain v where "fees s' t = Some v" "fee_floor t \<le> v"
    by (auto simp: fees_ok_iff)
  then show ?thesis
    by (auto simp: get_est_sat_per_1000_weight_def run_simps fee_floor_def MIN_FEERATE_def)
qed

definition sample_start :: client_state where
  "sample_start = snd (client_new sample_rpc ''localhost'' 18443 ''u'' ''p'' Regtest sample_client_state)"

lemma sample_start_run:
  "\<exists>c. client_new sample_rpc ''localhost'' 18443 ''u'' ''p'' Regtest sample_client_state =
     (Val (Inr c), sample_start)"
  by (simp add: sample_start_def client_new_def run_call_method run_simps bindP_def thenP_def Let_def
      blockchain_info_of_def sample_defs)

lemma sample_start_eq:
  "fees sample_start = initial_fees \<and> length (trace sample_start) = 2"
  by (simp add: sample_start_def client_new_def run_call_method run_simps bindP_def thenP_def Let_def
      blockchain_info_of_def sample_defs)

text \<open>The estimate a round takes from an answer.\<close>

definition estimate_in :: "('j, 'l) rpc_lib_scheme \<Rightarrow> string \<Rightarrow> u32 \<Rightarrow> 'j \<Rightarrow> u32" where
  "estimate_in R key dflt j =
     (case j_as_f64 (json R) (j_index (json R) j key) of
        Some r \<Rightarrow> max (sat_per_kw r) MIN_FEERATE | None \<Rightarrow> dflt)"

text \<open>The requests of a round, with the answers bitcoind gives to each.\<close>

fun answers :: "('j, 'l) rpc_lib_scheme \<Rightarrow> hist \<Rightarrow> (string \<times> json_arg list) list \<Rightarrow> 'j list option" where
  "answers R h [] = Some []"
| "answers R h ((m, args) # qs) =
     (case rpc R h m args of
        Inl _ \<Rightarrow> None
      | Inr j \<Rightarrow> map_option (\<lambda>js. j # js) (answers R (h @ [Rpc m args]) qs))"

definition poll_requests :: "(string \<times> json_arg list) list" where
  "poll_requests =
     [(''getmempoolinfo'', []),
      (''estimatesmartfee'', [JInt 144, JText ''ECONOMICAL'']),
      (''estimatesmartfee'', [JInt 18, JText ''ECONOMICAL'']),
      (''estimatesmartfee'', [JInt 6, JText ''CONSERVATIVE'']),
      (''estimatesmartfee'', [JInt 2, JText ''CONSERVATIVE''])]"

lemma map_option_estimate:
  "estimate d \<lparr>feerate_sat_per_kw = map_option sat_per_kw x, errored = e\<rparr> =
     (case x of Some r \<Rightarrow> max (sat_per_kw r) MIN_FEERATE | None \<Rightarrow> d)"
  by (cases x) (simp_all add: estimate_def)

lemma wp_smart_fee:
  "rpc R (trace s) ''estimatesmartfee'' [JInt n, JText mode] = Inr j \<Longrightarrow>
   wp (smart_fee R n mode d) Q E s =
     Q (estimate_in R ''feerate'' d j)
       (s\<lparr>trace := trace s @ [Rpc ''estimatesmartfee'' [JInt n, JText mode]]\<rparr>)"
  by (simp add: smart_fee_def wp_simps Let_def map_option_estimate estimate_in_def)

lemma estimate_in_ge: "MIN_FEERATE \<le> d \<Longrightarrow> MIN_FEERATE \<le> estimate_in R k d j"
  by (simp add: estimate_in_def split: option.splits)

text \<open>What the background task sets up for the next round.\<close>

definition stored_fees :: "('j, 'l) rpc_lib_scheme \<Rightarrow> 'j list \<Rightarrow> confirmation_target \<Rightarrow> u32 option" where
  "stored_fees R js =
     fee_table (estimate_in R ''mempoolminfee'' 253 (js ! 0)) (estimate_in R ''feerate'' 253 (js ! 1))
       (estimate_in R ''feerate'' 2000 (js ! 2)) (estimate_in R ''feerate'' 5000 (js ! 3))
       (estimate_in R ''feerate'' 50000 (js ! 4))"

lemma stores_table:
  assumes "fees_ok (fees s)" and "MIN_FEERATE \<le> bg"
  shows "wp (thenP (store_fee MaximumFeeEstimate (ret vh))
      (thenP (store_fee UrgentOnChainSweep (ret hi))
      (thenP (store_fee MinAllowedAnchorChannelRemoteFee (ret mp))
      (thenP (store_fee MinAllowedNonAnchorChannelRemoteFee (sub_u32 bg 250))
      (thenP (store_fee AnchorChannelFee (ret bg))
      (thenP (store_fee NonAnchorChannelFee (ret no))
      (thenP (store_fee ChannelCloseMinimum (ret bg))
      (thenP (store_fee OutputSpendingFee (ret bg)) (emit (SleepMillis 60000))))))))))
    (\<lambda>_ s'. s' = s\<lparr>fees := fee_table mp bg no hi vh, trace := trace s @ [SleepMillis 60000]\<rparr>) (\<lambda>_ _. False) s"
proof -
  have "fees s = (\<lambda>t. Some (the (fees s t)))" using fees_okD [OF assms(1)] by auto
  then obtain g where g: "fees s = (\<lambda>t. Some (g t))" by (rule that)
  have table: "(fees s)(MaximumFeeEstimate \<mapsto> vh, UrgentOnChainSweep \<mapsto> hi,
      MinAllowedAnchorChannelRemoteFee \<mapsto> mp, MinAllowedNonAnchorChannelRemoteFee \<mapsto> bg - 250,
      AnchorChannelFee \<mapsto> bg, NonAnchorChannelFee \<mapsto> no, ChannelCloseMinimum \<mapsto> bg,
      OutputSpendingFee \<mapsto> bg) = fee_table mp bg no hi vh"
  proof
    fix t show "((fees s)(MaximumFeeEstimate \<mapsto> vh, UrgentOnChainSweep \<mapsto> hi,
      MinAllowedAnchorChannelRemoteFee \<mapsto> mp, MinAllowedNonAnchorChannelRemoteFee \<mapsto> bg - 250,
      AnchorChannelFee \<mapsto> bg, NonAnchorChannelFee \<mapsto> no, ChannelCloseMinimum \<mapsto> bg,
      OutputSpendingFee \<mapsto> bg)) t = fee_table mp bg no hi vh t"
      by (cases t) simp_all
  qed
  show ?thesis
    using min_sub_250 [OF assms(2)] by (simp add: wp_simps g table [unfolded g])
qed

lemma wp_val: "wp m (\<lambda>_ t. t = u) (\<lambda>_ _. False) s \<Longrightarrow> m s = (Val (), u)"
  by (auto simp: wp_def split: prod.splits outcome.splits)

text \<open>
  C29: a round in which bitcoind answers all five requests, with the supported mempool size, sends
  exactly those requests in order, replaces the whole table of estimates by the reported feerates
  (raised to 253 where they are lower, or the target's default where none is reported) and sleeps for a
  minute.
\<close>

theorem poll_round_table:
  assumes "fees_ok (fees s)" and "answers R (trace s) poll_requests = Some js"
    and "j_as_u64 (json R) (j_index (json R) (hd js) ''maxmempool'') = Some 300000000"
  shows "poll_once R s = (Val (),
    s\<lparr>fees := stored_fees R js,
      trace := trace s @ map (\<lambda>(m, args). Rpc m args) poll_requests @ [SleepMillis 60000]\<rparr>)"
proof -
  obtain j0 j1 j2 j3 j4 where js: "js = [j0, j1, j2, j3, j4]"
    and r: "rpc R (trace s) ''getmempoolinfo'' [] = Inr j0"
    "rpc R (trace s @ [Rpc ''getmempoolinfo'' []]) ''estimatesmartfee'' [JInt 144, JText ''ECONOMICAL''] = Inr j1"
    "rpc R (trace s @ [Rpc ''getmempoolinfo'' [], Rpc ''estimatesmartfee'' [JInt 144, JText ''ECONOMICAL'']])
      ''estimatesmartfee'' [JInt 18, JText ''ECONOMICAL''] = Inr j2"
    "rpc R (trace s @ [Rpc ''getmempoolinfo'' [], Rpc ''estimatesmartfee'' [JInt 144, JText ''ECONOMICAL''],
        Rpc ''estimatesmartfee'' [JInt 18, JText ''ECONOMICAL'']])
      ''estimatesmartfee'' [JInt 6, JText ''CONSERVATIVE''] = Inr j3"
    "rpc R (trace s @ [Rpc ''getmempoolinfo'' [], Rpc ''estimatesmartfee'' [JInt 144, JText ''ECONOMICAL''],
        Rpc ''estimatesmartfee'' [JInt 18, JText ''ECONOMICAL''],
        Rpc ''estimatesmartfee'' [JInt 6, JText ''CONSERVATIVE'']])
      ''estimatesmartfee'' [JInt 2, JText ''CONSERVATIVE''] = Inr j4"
    using assms(2) by (auto simp: poll_requests_def split: sum.splits)
  have m: "j_as_u64 (json R) (j_index (json R) j0 ''maxmempool'') = Some 300000000"
    using assms(3) js by simp
  have bg: "MIN_FEERATE \<le> estimate_in R ''feerate'' MIN_FEERATE j1" by (rule estimate_in_ge) simp
  show ?thesis
    by (rule wp_val, rule wp_mono [of _ _ "\<lambda>_ _. False"])
      (use stores_table [OF _ bg, of "s\<lparr>trace := trace s @ map (\<lambda>(m, args). Rpc m args) poll_requests\<rparr>"
          "estimate_in R ''feerate'' 50000 j4" "estimate_in R ''feerate'' 5000 j3"
          "estimate_in R ''mempoolminfee'' MIN_FEERATE j0" "estimate_in R ''feerate'' 2000 j2"] assms(1) in
        \<open>simp_all add: poll_once_def wp_bind wp_call_method wp_mempool_min_fee Let_def r m wp_unwrap_res
          wp_ret map_option_estimate wp_smart_fee stored_fees_def js poll_requests_def
          estimate_in_def [of _ "''mempoolminfee''"] MIN_FEERATE_def\<close>)
qed

lemma sample_answers:
  "answers sample_rpc (trace sample_start) poll_requests =
     Some (map sample_answer (map fst poll_requests))"
  by (simp add: poll_requests_def sample_start_eq sample_rpc_def)

theorem poll_round_table_witness:
  "fst (poll_once sample_rpc sample_start) = Val ()"
  using poll_round_table [OF _ sample_answers] sample_start_eq fees_ok_initial
  by (simp add: poll_requests_def sample_defs)

text \<open>
  A round that bitcoind does not answer, or answers with another mempool size than 300 million
  bytes, stops the node (the task unwraps the answer), and the table still holds the estimates it had:
  none of the stores of a round happens before its last request is answered. The subtraction of 250
  never is what stops it.
\<close>

lemma poll_round_failure:
  assumes "fees_ok (fees s)" and "poll_once R s = (Panic p, s')"
  shows "p \<noteq> Overflow \<and> fees s' = fees s"
  using poll_once_spec [OF assms(1), of R] assms(2) by (simp add: wp_def)

definition sample_late :: client_state where
  "sample_late = sample_client_state\<lparr>trace := replicate 10 Query\<rparr>"

text \<open>
  The conversion of \<open>getmempoolinfo\<close>'s answer panics exactly when bitcoind's mempool is not
  limited to 300 million bytes, Bitcoin Core's default, so the node does not run with another one.
\<close>

lemma mempool_size_required:
  "(\<exists>p. mempool_min_fee_of J j s = (Panic p, s)) \<longleftrightarrow>
     j_as_u64 J (j_index J j ''maxmempool'') \<noteq> Some 300000000"
  by (simp add: mempool_min_fee_of_def assertP_def Let_def run_simps)

section \<open>Requests\<close>

lemma wp_both: "wp m (\<lambda>_. P) (\<lambda>_. P) s \<Longrightarrow> m s = (r, s') \<Longrightarrow> P s'"
  by (cases r) (simp_all add: wp_def)

lemma spendable_utxo_Some:
  "spendable_utxo R l = Some u \<longleftrightarrow> (\<exists>prog.
      addr_program (utxo_address l) = Some (P2wpkh, prog)
         \<and> (\<exists>k. wpkh_of R prog = Some k
            \<and> u = new_v0_p2wpkh R (utxo_txid l, utxo_vout l) (utxo_amount l) k)
      \<or> addr_program (utxo_address l) = Some (P2tr, prog) \<and> xonly_of R prog \<noteq> None
         \<and> u = \<lparr>outpoint = (utxo_txid l, utxo_vout l), out_value = utxo_amount l,
             out_script = addr_script (utxo_address l), satisfaction_weight = p2tr_weight R\<rparr>)"
  by (cases "addr_program (utxo_address l)")
    (auto simp: spendable_utxo_def Let_def split: program_kind.splits)

lemma p2tr_weight_70 [simp]: "witness_scale_factor R = 4 \<Longrightarrow> p2tr_weight R = 70"
  by (simp add: p2tr_weight_def)

text \<open>
  The funding request bids, in satoshi per virtual byte, the estimate for a non-anchor channel
  divided by 250, off by less than one part in \<open>2 ^ 53\<close>, and never makes the funding transaction
  replaceable.
\<close>

lemma funding_request_feerate:
  assumes "fees s NonAnchorChannelFee = Some v" and "0 < v"
  shows "\<exists>q r rest s'. fund_raw_transaction R (RawTx hex) s = (r, s')
    \<and> trace s' = trace s @ [Rpc ''fundrawtransaction''
        [JText hex, JObject [(''fee_rate'', JFloat (Finite q)), (''replaceable'', JBool False)]]]
    \<and> \<bar>q - of_nat (unat v) / 250\<bar> \<le> of_nat (unat v) / 250 / 2 ^ 53"
proof -
  let ?x = "of_nat (unat v) / 250 :: rat"
  have v: "1 \<le> unat v" using assms(2) by (simp add: word_less_nat_alt)
  have "of_nat 1 \<le> (of_nat (unat v) :: rat)" using v unfolding of_nat_le_iff .
  then have "(1::rat) \<le> of_nat (unat v)" by (simp only: of_nat_1)
  have "(1 / 2 ^ 1022 :: rat) \<le> ?x"
  proof -
    have "(1 / 2 ^ 1022 :: rat) \<le> 1 / 250" by (simp add: divide_simps)
    also have "\<dots> \<le> ?x" using \<open>(1::rat) \<le> of_nat (unat v)\<close> by (intro divide_right_mono) auto
    finally show ?thesis .
  qed
  moreover have "?x \<le> 2 ^ 63"
  proof -
    have "unat v \<le> 4294967296" using unat_less_pow [of v] by simp
    then have "(of_nat (unat v) :: rat) \<le> of_nat 4294967296" unfolding of_nat_le_iff .
    then show ?thesis by simp
  qed
  ultimately obtain q where q: "f64_of ?x = Finite q" "\<bar>q - ?x\<bar> \<le> ?x / 2 ^ 53"
    using f64_of_close by blast
  let ?req = "\<lambda>s'. trace s' = trace s @ [Rpc ''fundrawtransaction''
        [JText hex, JObject [(''fee_rate'', JFloat (Finite q)), (''replaceable'', JBool False)]]]"
  have "f64_div (u32_as_f64 v) (Finite 250) = Finite q"
    using q(1) by (simp add: u32_as_f64_exact)
  moreover obtain r s' where run: "fund_raw_transaction R (RawTx hex) s = (r, s')" by fastforce
  ultimately have "wp (fund_raw_transaction R (RawTx hex)) (\<lambda>_ s'. ?req s') (\<lambda>_ s'. ?req s') s"
    by (simp add: fund_raw_transaction_def wp_simps assms(1) Let_def funded_tx_of_def
        split: sum.splits option.splits)
  then have "?req s'" using run by (rule wp_both)
  with run q(2) show ?thesis by blast
qed

text \<open>
  C36: the outputs offered to coin selection are those bitcoind listed that pay to a version 0 key hash
  or to a taproot key, with the listed outpoint and value; a taproot output is offered exactly when its
  program is a valid key, with a satisfaction weight of 70 units.
\<close>

theorem confirmed_utxos_spendable:
  assumes "witness_scale_factor R = 4" and "list_unspent R s = (Val ls, s')"
  shows "\<exists>us. list_confirmed_utxos R s = (Val us, s') \<and> (\<forall>u. u \<in> set us \<longleftrightarrow>
    (\<exists>l prog. l \<in> set ls \<and>
      (addr_program (utxo_address l) = Some (P2wpkh, prog)
         \<and> (\<exists>k. wpkh_of R prog = Some k
            \<and> u = new_v0_p2wpkh R (utxo_txid l, utxo_vout l) (utxo_amount l) k)
       \<or> addr_program (utxo_address l) = Some (P2tr, prog) \<and> xonly_of R prog \<noteq> None
         \<and> u = \<lparr>outpoint = (utxo_txid l, utxo_vout l), out_value = utxo_amount l,
             out_script = addr_script (utxo_address l), satisfaction_weight = 70\<rparr>)))"
proof -
  have run: "list_confirmed_utxos R s = (Val (List.map_filter (spendable_utxo R) ls), s')"
    using assms(2) by (simp add: list_confirmed_utxos_def run_simps)
  have mem: "u \<in> set (List.map_filter (spendable_utxo R) ls) \<longleftrightarrow> (\<exists>l \<in> set ls. spendable_utxo R l = Some u)" for u
    by (induction ls) (auto simp: map_filter_simps split: option.splits)
  show ?thesis
    by (rule exI, rule conjI [OF run]) (auto simp: mem spendable_utxo_Some assms(1))
qed

theorem confirmed_utxos_spendable_witness:
  "\<exists>us s'. list_confirmed_utxos sample_rpc sample_client_state = (Val us, s')
    \<and> \<lparr>outpoint = (as_bytes ''t'', 1), out_value = 5, out_script = as_bytes ''a'', satisfaction_weight = 70\<rparr> \<in> set us"
proof -
  let ?l = "\<lparr>utxo_txid = as_bytes ''t'', utxo_vout = 1, utxo_amount = 5,
      utxo_address = \<lparr>addr_program = Some (P2tr, as_bytes ''a''), addr_script = as_bytes ''a''\<rparr>\<rparr>"
  have "list_unspent sample_rpc sample_client_state =
      (Val [?l], sample_client_state\<lparr>trace := [Rpc ''listunspent'' []]\<rparr>)"
    by (simp add: list_unspent_def run_call_method run_simps bindP_def Let_def list_unspent_of_def
        utxo_of_def sample_defs)
  from confirmed_utxos_spendable [OF _ this] show ?thesis
    by (auto simp: sample_rpc_def)
qed

text \<open>
  Signing sends bitcoind the hexadecimal text of the unsigned transaction's encoding and gives back
  the transaction the answer's hexadecimal text encodes; an answer that is not hexadecimal, or that
  does not decode, is an error and not a panic.
\<close>

lemma sign_psbt_request:
  "\<exists>h r s'. sign_psbt R psbt s = (r, s')
    \<and> trace s' = trace s @ [Rpc ''signrawtransactionwithwallet'' [JText h]]
    \<and> to_vec h = Some (encode_unsigned R psbt)
    \<and> r = (case rpc R (trace s) ''signrawtransactionwithwallet'' [JText h] of
        Inl _ \<Rightarrow> Panic UnwrapErr
      | Inr j \<Rightarrow>
          (case (j_as_str (json R) (j_index (json R) j ''hex''),
                 j_as_bool (json R) (j_index (json R) j ''complete'')) of
             (Some hex, Some _) \<Rightarrow> Val (Option.bind (to_vec hex) (decode_tx R))
           | _ \<Rightarrow> Panic UnwrapNone))"
proof -
  let ?h = "hex_str (encode_unsigned R psbt)"
  let ?s = "s\<lparr>trace := trace s @ [Rpc ''signrawtransactionwithwallet'' [JText ?h]]\<rparr>"
  have "sign_psbt R psbt s = (case rpc R (trace s) ''signrawtransactionwithwallet'' [JText ?h] of
        Inl _ \<Rightarrow> (Panic UnwrapErr, ?s)
      | Inr j \<Rightarrow>
          (case (j_as_str (json R) (j_index (json R) j ''hex''),
                 j_as_bool (json R) (j_index (json R) j ''complete'')) of
             (Some hex, Some _) \<Rightarrow> (Val (Option.bind (to_vec hex) (decode_tx R)), ?s)
           | _ \<Rightarrow> (Panic UnwrapNone, ?s)))"
    by (simp add: sign_psbt_def sign_raw_transaction_with_wallet_def run_simps
        run_call_method Let_def bindP_def signed_tx_of_def split: sum.splits option.splits)
  then show ?thesis
    by (intro exI [of _ ?h] exI [of _ "fst (sign_psbt R psbt s)"] exI [of _ ?s])
      (simp add: hex_text.decode_encode split: sum.splits option.splits)
qed

section \<open>Broadcasting\<close>

text \<open>
  C37: broadcasting a package makes exactly one request, \<open>sendrawtransaction\<close> for a single transaction
  and \<open>submitpackage\<close> otherwise, with the serialized transactions in the order given. A request that
  fails is reported and ignored if the error carries one, and stops the node if it does not, as an
  error of the operating system (a refused connection) does not.
\<close>

theorem broadcast_one_request:
  "\<exists>m a rest r s'. broadcast_transactions R txs s = (r, s')
    \<and> trace s' = trace s @ Rpc m a # rest \<and> (\<forall>m' a'. Rpc m' a' \<notin> set rest)
    \<and> (m, a) = (if length txs = 1 then (''sendrawtransaction'', [JText (serialize_hex R (hd txs))])
        else (''submitpackage'', [JArray (map (JText \<circ> serialize_hex R) txs)]))
    \<and> ((\<exists>p. r = Panic p) \<longleftrightarrow> rpc R (trace s) m a = Inl None)"
proof -
  obtain m a where req: "(m, a) = (if length txs = 1 then (''sendrawtransaction'', [JText (serialize_hex R (hd txs))])
        else (''submitpackage'', [JArray (map (JText \<circ> serialize_hex R) txs)]))"
    by (metis surj_pair)
  have hd: "length txs = 1 \<Longrightarrow> hd (map (serialize_hex R) txs) = serialize_hex R (hd txs)"
    by (cases txs) simp_all
  obtain r s' where run: "broadcast_transactions R txs s = (r, s')" by fastforce
  then have "\<exists>rest. trace s' = trace s @ Rpc m a # rest \<and> (\<forall>m' a'. Rpc m' a' \<notin> set rest)
      \<and> ((\<exists>p. r = Panic p) \<longleftrightarrow> rpc R (trace s) m a = Inl None)"
    using req hd
    by (cases "length txs = 1")
      (auto simp: broadcast_transactions_def run_simps run_call_method Let_def bindP_def thenP_def
        unwrap_def comp_def split: sum.splits option.splits)
  with run req show ?thesis by blast
qed

end
