(* ===== verification/Event_Properties.thy ===== *)
theory Event_Properties
  imports Events Cli_Properties Client_Properties "HOL-Library.List_Lexorder"
begin

text \<open>
  What \<open>handle_ldk_events\<close> does to the payment maps, refined to an abstract ledger of payment statuses,
  and what it hands to LDK when a channel is to be funded.
\<close>

section \<open>Libraries for examples\<close>

text \<open>Maps are iterated in the order of their keys.\<close>

definition sample_iter :: "payments \<Rightarrow> (bytes \<times> payment_info) list" where
  "sample_iter m = map (\<lambda>k. (k, the (fmlookup m k))) (sorted_list_of_fset (fmdom m))"

definition sample_events :: event_lib where
  "sample_events =
     \<lparr>kv_write_ok = (\<lambda>h. True), enc = (\<lambda>h m. replicate (to_nat m) 0), dec = (\<lambda>b. Some (from_nat (length b))),
      iter = (\<lambda>h. sample_iter), random_bytes = (\<lambda>h. [1]), sha256 = (\<lambda>b. 7 # b), show_hash = hex_str,
      show_pubkey = hex_str, pay_result = (\<lambda>h. Inr ()), create_bolt11 = (\<lambda>h. Inl ''no''),
      parse_offer = (\<lambda>s. None), parse_hrn = (\<lambda>s. None), parse_bolt11 = (\<lambda>s. Inr sample_invoice),
      graph_nodes = (\<lambda>h. []), as_pubkey = (\<lambda>i. None),
      key_from_slice = Some, key_from_str = (\<lambda>s. Inl ''no''), resolve_addr = (\<lambda>h s. Some s),
      peer_connected = (\<lambda>h p. length h > 3), connect_outbound = (\<lambda>h. True), select_closed = (\<lambda>h. False),
      connect_fuel = 5, peers_of = (\<lambda>h. []),
      channels_of = (\<lambda>h. []), create_channel = (\<lambda>h. Inr ()), close_result = (\<lambda>h. Inr ()),
      offer_builder = (\<lambda>h. Inr ()), build_offer = (\<lambda>h. Inr ''lno''), our_node_id = [2],
      balances_of = (\<lambda>h. []), claimable_amount = (\<lambda>b. 0), graph_size = (\<lambda>h. (0, 0)),
      graph_node = (\<lambda>h p. None), show_channel_id = hex_str, sign_message = (\<lambda>b. ''sig''),
      to_bech32 = (\<lambda>net sc. Some ''addr''), deserialize_tx = Some, funding_result = (\<lambda>h. Inr ()),
      accept_result = (\<lambda>h. Inr ()), track_result = (\<lambda>h. Inr ()), resolve_all = (\<lambda>h a. None)\<rparr>"

lemma sample_events_ok:
  "codec_ok sample_events" "iter_ok sample_events" "kv_write_ok sample_events h"
proof -
  show "codec_ok sample_events" by (simp add: codec_ok_def sample_events_def)
  show "iter_ok sample_events"
    by (auto simp: iter_ok_def sample_events_def sample_iter_def distinct_map inj_on_def image_iff
        sorted_list_of_fset.rep_eq intro: fmdomI)
  show "kv_write_ok sample_events h" by (simp add: sample_events_def)
qed

definition sample_paid :: node where
  "sample_paid = sample_node\<lparr>outbound := fmupd [9] (payment_entry (Some [3]) Pending 1000) fmempty\<rparr>"

section \<open>Outgoing payments\<close>

text \<open>The map after a successful payment, and after a failed one.\<close>

definition mark_sent :: "payment_preimage \<Rightarrow> payment_id \<Rightarrow> payments \<Rightarrow> payments" where
  "mark_sent p i m =
    (case fmlookup m i of
       Some e \<Rightarrow> fmupd i (e\<lparr>preimage := Some p, status := Succeeded\<rparr>) m | None \<Rightarrow> m)"

definition mark_failed :: "payment_id \<Rightarrow> payments \<Rightarrow> payments" where
  "mark_failed i m = (case fmlookup m i of Some e \<Rightarrow> fmupd i (e\<lparr>status := Failed\<rparr>) m | None \<Rightarrow> m)"

definition sent_message :: "'l ldk_scheme \<Rightarrow> payment_preimage \<Rightarrow> payment_hash \<Rightarrow> u64 option \<Rightarrow> payment_info \<Rightarrow> string" where
  "sent_message L p hash fee payment =
     nl @ ''EVENT: successfully sent payment of '' @ show_millisat (amt_msat payment)
          @ '' millisatoshis''
          @ (case fee of Some fee \<Rightarrow> '' (fee '' @ show_u64 fee @ '' msat)'' | None \<Rightarrow> [])
          @ '' from payment hash '' @ show_hash L hash @ '' with preimage '' @ show_hash L p"

lemma wp_sent_entry:
  "wp (sent_entry L p hash fee (Some pid) (i, payment)) Q E n =
     (if i = pid then
        Q () (n\<lparr>outbound := fmupd i (payment\<lparr>preimage := Some p, status := Succeeded\<rparr>) (outbound n),
          trace := trace n @ [Print (sent_message L p hash fee payment @ nl), Print ''> '']\<rparr>)
      else Q () n)"
  by (simp add: sent_entry_def wp_simps prompt_def sent_message_def)

text \<open>The loop over the entries changes the one with the identifier, whatever their order.\<close>

lemma wp_sent_loop:
  fixes n :: "'b node_scheme"
  assumes "distinct (map fst es)"
  shows "wp (forP es (sent_entry L p hash fee (Some i)))
    (\<lambda>_ n'. store n' = store n \<and> outbound n' =
      (case map_of es i of
         Some e \<Rightarrow> fmupd i (e\<lparr>preimage := Some p, status := Succeeded\<rparr>) (outbound n) | None \<Rightarrow> outbound n))
    (\<lambda>_ _. False) n"
  using assms
proof (induction es arbitrary: n)
  case Nil
  then show ?case by (simp add: wp_ret)
next
  case (Cons x es)
  obtain k e where x: "x = (k, e)" by fastforce
  have "distinct (map fst es)" using Cons.prems by simp
  note IH = Cons.IH [OF this]
  have step: "wp (forP es (sent_entry L p hash fee (Some i)))
      (\<lambda>_ n'. store n' = store n \<and> outbound n' = y) (\<lambda>_ _. False) m"
    if "store m = store n"
      "(case map_of es i of
          Some e \<Rightarrow> fmupd i (e\<lparr>preimage := Some p, status := Succeeded\<rparr>) (outbound m) | None \<Rightarrow> outbound m) = y"
    for m :: "'b node_scheme" and y
    by (rule wp_mono [OF IH]) (use that in simp_all)
  show ?case
  proof (cases "k = i")
    case True
    then have "map_of es i = None" using Cons.prems x by (auto simp: map_of_eq_None_iff)
    then show ?thesis
      using True by (simp add: x wp_then wp_sent_entry step)
  next
    case False
    then show ?thesis
      by (simp add: x wp_then wp_sent_entry step)
  qed
qed

lemma iter_map_of:
  assumes "iter_ok L"
  shows "distinct (map fst (iter L h m))" and "map_of (iter L h m) i = fmlookup m i"
proof -
  have s: "set (iter L h m) = {(k, v). fmlookup m k = Some v}" and d: "distinct (iter L h m)"
    using assms by (auto simp: iter_ok_def)
  have inj: "inj_on fst (set (iter L h m))" by (auto simp: s inj_on_def)
  with d show keys: "distinct (map fst (iter L h m))" by (simp add: distinct_map)
  show "map_of (iter L h m) i = fmlookup m i"
  proof (cases "fmlookup m i")
    case None
    then have "i \<notin> fst ` set (iter L h m)" by (auto simp: s)
    then show ?thesis using None by (simp add: map_of_eq_None_iff)
  next
    case (Some v)
    then have "(i, v) \<in> set (iter L h m)" by (simp add: s)
    then show ?thesis using keys Some by (simp add: map_of_is_SomeI)
  qed
qed

text \<open>What an update of the map followed by its write leaves.\<close>

definition outbound_written :: "'l ldk_scheme \<Rightarrow> payments \<Rightarrow> 'b node_scheme \<Rightarrow> bool" where
  "outbound_written L m n \<longleftrightarrow> outbound n = m
     \<and> (\<exists>b. kv_get (store n) outbound_key = Some b \<and> dec L b = Some m)"

lemma wp_write_outbound_written:
  "codec_ok L \<Longrightarrow> (\<And>h. kv_write_ok L h) \<Longrightarrow> outbound n = m \<Longrightarrow>
   wp (write_outbound L) (\<lambda>_. outbound_written L m) (\<lambda>_ _. False) n"
  by (simp add: wp_simps Let_def outbound_written_def kv.get_put codec_ok_def)

lemma wp_no_panic: "wp m (\<lambda>x. Q x) (\<lambda>_ _. False) s \<Longrightarrow> \<exists>x s'. m s = (Val x, s') \<and> Q x s'"
  by (auto simp: wp_def split: prod.splits outcome.splits)

lemma handle_sent_written:
  assumes "codec_ok L" and "iter_ok L" and "\<And>h. kv_write_ok L h"
  shows "\<exists>n'. handle_payment_event L (PaymentSent p hash fee (Some i)) n = (Val (), n')
    \<and> outbound_written L (mark_sent p i (outbound n)) n'"
proof -
  have "wp (handle_sent L p hash fee (Some i))
      (\<lambda>_. outbound_written L (mark_sent p i (outbound n))) (\<lambda>_ _. False) n"
    unfolding handle_sent_def wp_then wp_bind wp_gets wp_ask
    by (rule wp_mono [OF wp_sent_loop [OF iter_map_of(1) [OF assms(2)]]])
      (auto intro!: wp_write_outbound_written assms simp: iter_map_of(2) [OF assms(2)] mark_sent_def split: option.splits)
  then show ?thesis by (auto dest: wp_no_panic)
qed

text \<open>
  C25: when LDK reports that a payment succeeded, its entry becomes succeeded and gets the preimage, no
  other entry changes, and the map is on disk when the handler returns; a payment that has no entry gets
  none. The loop over the entries in the hash map's order does not depend on that order.
\<close>

theorem payment_sent_outcome:
  assumes "codec_ok L" and "iter_ok L" and "\<And>h. kv_write_ok L h"
  shows "\<exists>n'. handle_payment_event L (PaymentSent p hash fee (Some i)) n = (Val (), n')
    \<and> outbound_written L (mark_sent p i (outbound n)) n'"
  by (rule handle_sent_written [OF assms])

theorem payment_sent_outcome_witness:
  "\<exists>n'. handle_payment_event sample_events (PaymentSent [5] [9] None (Some [9])) sample_paid = (Val (), n')
    \<and> fmlookup (outbound n') [9] = Some ((payment_entry (Some [3]) Succeeded 1000)\<lparr>preimage := Some [5]\<rparr>)"
  using payment_sent_outcome [OF sample_events_ok, of "[5]" "[9]" None "[9]" sample_paid]
  by (auto simp: outbound_written_def mark_sent_def sample_paid_def payment_entry_def)

text \<open>
  A report of success without a payment identifier stops the node as soon as any payment has been
  recorded: the loop unwraps the identifier for every entry it looks at.
\<close>

lemma payment_sent_without_id:
  assumes "iter_ok L" and "outbound n \<noteq> fmempty"
  shows "fst (handle_payment_event L (PaymentSent p hash fee None) n) = Panic UnwrapNone"
proof -
  obtain k e where "fmlookup (outbound n) k = Some e"
    using assms(2) by (metis fmap_ext fmempty_lookup option.exhaust)
  then have "(k, e) \<in> set (iter L (trace n) (outbound n))"
    using assms(1) by (simp add: iter_ok_def)
  then obtain x es where "iter L (trace n) (outbound n) = x # es" by (cases "iter L (trace n) (outbound n)") auto
  then show ?thesis
    by (cases x) (simp add: handle_sent_def run_simps sent_entry_def)
qed

text \<open>
  When LDK reports that a payment failed its entry becomes failed and nothing else changes, and the
  map is on disk when the handler returns; this includes a payment for an offer whose invoice never
  came.
\<close>

lemma payment_failed_outcome:
  assumes "codec_ok L" and "\<And>h. kv_write_ok L h"
  shows "\<exists>n'. handle_payment_event L (PaymentFailed hash reason i) n = (Val (), n')
    \<and> outbound_written L (mark_failed i (outbound n)) n'"
proof -
  have "wp (handle_failed L hash reason i)
      (\<lambda>_. outbound_written L (mark_failed i (outbound n))) (\<lambda>_ _. False) n"
    unfolding handle_failed_def wp_then wp_print prompt_def wp_modify
    by (rule wp_write_outbound_written [OF assms]) (simp add: mark_failed_def split: option.splits)
  then show ?thesis by (auto dest: wp_no_panic)
qed

section \<open>Incoming payments\<close>

text \<open>
  C26: a claimed payment is recorded as succeeded, with the preimage LDK gives for its purpose, which a
  spontaneous payment always has, and with the secret of the invoice, offer or refund, which a spontaneous
  payment does not have; the amount is the recorded one where one was recorded and the claimed one otherwise.
  Other entries do not change, nor do the outgoing payments, and the map of incoming payments is on disk
  when the handler returns.
\<close>

theorem payment_claimed_outcome:
  assumes "codec_ok L" and "\<And>h. kv_write_ok L h"
  shows "\<exists>n' m b. handle_payment_event L (PaymentClaimed hash purpose amt) n = (Val (), n')
    \<and> inbound n' = m \<and> outbound n' = outbound n \<and> kv_get (store n') inbound_key = Some b \<and> dec L b = Some m
    \<and> (\<forall>i. fmlookup m i =
        (if i = hash then Some \<lparr>
           preimage = (case purpose of Bolt11InvoicePayment p _ \<Rightarrow> p | Bolt12OfferPayment p _ \<Rightarrow> p
             | Bolt12RefundPayment p _ \<Rightarrow> p | SpontaneousPayment p \<Rightarrow> Some p),
           secret = (case purpose of Bolt11InvoicePayment _ s \<Rightarrow> Some s | Bolt12OfferPayment _ s \<Rightarrow> Some s
             | Bolt12RefundPayment _ s \<Rightarrow> Some s | SpontaneousPayment _ \<Rightarrow> None),
           status = Succeeded,
           amt_msat = (case fmlookup (inbound n) hash of Some e \<Rightarrow> amt_msat e | None \<Rightarrow> MillisatAmount (Some amt))\<rparr>
         else fmlookup (inbound n) i))"
proof -
  have e: "claimed_entry (fmlookup (inbound n) hash) purpose amt =
      \<lparr>preimage = (case purpose of Bolt11InvoicePayment p _ \<Rightarrow> p | Bolt12OfferPayment p _ \<Rightarrow> p
         | Bolt12RefundPayment p _ \<Rightarrow> p | SpontaneousPayment p \<Rightarrow> Some p),
       secret = (case purpose of Bolt11InvoicePayment _ s \<Rightarrow> Some s | Bolt12OfferPayment _ s \<Rightarrow> Some s
         | Bolt12RefundPayment _ s \<Rightarrow> Some s | SpontaneousPayment _ \<Rightarrow> None), status = Succeeded,
       amt_msat = (case fmlookup (inbound n) hash of Some e \<Rightarrow> amt_msat e | None \<Rightarrow> MillisatAmount (Some amt))\<rparr>"
    by (cases purpose) (simp_all add: claimed_entry_def split: option.splits)
  have "wp (handle_claimed L hash purpose amt) (\<lambda>_ n'.
      inbound n' = fmupd hash (claimed_entry (fmlookup (inbound n) hash) purpose amt) (inbound n)
      \<and> outbound n' = outbound n
      \<and> (\<exists>b. kv_get (store n') inbound_key = Some b \<and> dec L b = Some (inbound n'))) (\<lambda>_ _. False) n"
    using assms by (simp add: handle_claimed_def wp_simps prompt_def Let_def kv.get_put codec_ok_def)
  then obtain n' b where
    "handle_claimed L hash purpose amt n = (Val (), n')"
    "inbound n' = fmupd hash (claimed_entry (fmlookup (inbound n) hash) purpose amt) (inbound n)"
    "outbound n' = outbound n" "kv_get (store n') inbound_key = Some b" "dec L b = Some (inbound n')"
    by (auto dest!: wp_no_panic)
  then show ?thesis
    by (intro exI [of _ n'] exI [of _ "inbound n'"] exI [of _ b]) (simp add: e)
qed

theorem payment_claimed_outcome_witness:
  "(\<exists>n'. handle_payment_event sample_events (PaymentClaimed [8] (SpontaneousPayment [6]) 70) sample_paid = (Val (), n')
     \<and> fmlookup (inbound n') [8] = Some \<lparr>preimage = Some [6], secret = None, status = Succeeded,
         amt_msat = MillisatAmount (Some 70)\<rparr>)
   \<and> (\<exists>n'. handle_payment_event sample_events (PaymentClaimed [8] (Bolt11InvoicePayment None [4]) 70) sample_paid = (Val (), n')
     \<and> fmlookup (inbound n') [8] = Some \<lparr>preimage = None, secret = Some [4], status = Succeeded,
         amt_msat = MillisatAmount (Some 70)\<rparr>)"
  using payment_claimed_outcome [OF sample_events_ok(1,3), of "[8]" "SpontaneousPayment [6]" 70 sample_paid]
    payment_claimed_outcome [OF sample_events_ok(1,3), of "[8]" "Bolt11InvoicePayment None [4]" 70 sample_paid]
  by (auto simp: sample_paid_def sample_node_def)

section \<open>The ledger of statuses\<close>

text \<open>
  An abstract view of the outgoing payments: the status of each identifier, and three operations. Only a
  report of success makes a payment succeeded, and only a recorded payment can end.
\<close>

type_synonym ledger = "payment_id \<rightharpoonup> htlc_status"

datatype ledger_op = Start payment_id | Succeed payment_id | Fail payment_id

fun ledger_step :: "ledger_op \<Rightarrow> ledger \<Rightarrow> ledger" where
  "ledger_step (Start i) l = l(i \<mapsto> Pending)"
| "ledger_step (Succeed i) l = (if l i = None then l else l(i \<mapsto> Succeeded))"
| "ledger_step (Fail i) l = (if l i = None then l else l(i \<mapsto> Failed))"

definition ledger_of :: "payments \<Rightarrow> ledger" where
  "ledger_of m = (\<lambda>i. map_option status (fmlookup m i))"

lemma ledger_of_fmupd: "ledger_of (fmupd i e m) = (ledger_of m)(i \<mapsto> status e)"
  by (simp add: ledger_of_def fun_eq_iff)

lemma ledger_of_mark_sent: "ledger_of (mark_sent p i m) = ledger_step (Succeed i) (ledger_of m)"
  by (cases "fmlookup m i") (simp_all add: mark_sent_def ledger_of_def fun_eq_iff)

lemma ledger_of_mark_failed: "ledger_of (mark_failed i m) = ledger_step (Fail i) (ledger_of m)"
  by (cases "fmlookup m i") (simp_all add: mark_failed_def ledger_of_def fun_eq_iff)

fun event_ops :: "payment_event \<Rightarrow> ledger_op list" where
  "event_ops (PaymentSent p hash fee (Some i)) = [Succeed i]"
| "event_ops (PaymentFailed hash reason i) = [Fail i]"
| "event_ops _ = []"

lemma outbound_trace_only:
  assumes "trace_only m"
  shows "wp m (\<lambda>_ n'. outbound n' = outbound n) (\<lambda>_ _. True) n"
proof -
  obtain as where "snd (m n) = n\<lparr>trace := trace n @ as\<rparr>" using assms by (auto simp: trace_only_def)
  then have "outbound (snd (m n)) = outbound n" by simp
  then show ?thesis by (auto simp: wp_def split: prod.splits outcome.splits)
qed

lemma wp_event_outbound:
  assumes "iter_ok L"
  shows "wp (handle_payment_event L e)
    (\<lambda>_ n'. ledger_of (outbound n') = fold ledger_step (event_ops e) (ledger_of (outbound n))) (\<lambda>_ _. True) n"
proof (cases e)
  case (PaymentSent p hash fee i)
  show ?thesis
  proof (cases i)
    case None
    have loop: "wp (forP es (sent_entry L p hash fee None)) (\<lambda>_ n'. outbound n' = outbound m) (\<lambda>_ _. True) m" for es m
      by (cases es) (auto simp: wp_simps sent_entry_def split: prod.splits)
    show ?thesis
      by (auto simp: PaymentSent None handle_sent_def wp_simps Let_def intro!: wp_mono [OF loop])
  next
    case (Some j)
    have "wp (handle_sent L p hash fee (Some j))
      (\<lambda>_ n'. outbound n' = mark_sent p j (outbound n)) (\<lambda>_ _. True) n"
      unfolding handle_sent_def wp_then wp_bind wp_gets wp_ask
      by (rule wp_mono [OF wp_sent_loop [OF iter_map_of(1) [OF assms]]])
        (auto simp: wp_write_outbound Let_def iter_map_of(2) [OF assms] mark_sent_def split: option.splits)
    then show ?thesis
      unfolding PaymentSent Some handle_payment_event.simps event_ops.simps
      by (rule wp_mono) (simp_all add: ledger_of_mark_sent)
  qed
next
  case (PaymentFailed hash reason i)
  have "wp (handle_failed L hash reason i)
      (\<lambda>_ n'. outbound n' = mark_failed i (outbound n)) (\<lambda>_ _. True) n"
    by (simp add: handle_failed_def wp_simps prompt_def Let_def mark_failed_def split: option.splits)
  then show ?thesis
    unfolding PaymentFailed handle_payment_event.simps event_ops.simps
    by (rule wp_mono) (simp_all add: ledger_of_mark_failed)
next
  case (PaymentClaimed hash purpose amt)
  then show ?thesis by (simp add: handle_claimed_def wp_simps prompt_def Let_def)
next
  case (PaymentClaimable hash purpose amt)
  show ?thesis
    unfolding PaymentClaimable handle_payment_event.simps
    by (rule wp_mono [OF outbound_trace_only [OF trace_only_claimable]]) simp_all
next
  case (PaymentForwarded a b c d f)
  show ?thesis
    unfolding PaymentForwarded handle_payment_event.simps
    by (rule wp_mono [OF outbound_trace_only [OF trace_only_forwarded]]) simp_all
qed

text \<open>
  C24: on the ledger of statuses the handler of payment events does exactly what the event reports, in
  every run that returns: a success reported for a recorded payment marks it succeeded, a failure marks
  it failed, an event on another identifier or an incoming payment changes nothing.
\<close>

theorem payment_events_refine_ledger:
  assumes "iter_ok L" and "handle_payment_event L e n = (Val (), n')"
  shows "ledger_of (outbound n') = fold ledger_step (event_ops e) (ledger_of (outbound n))"
  using wp_event_outbound [OF assms(1), of e n] assms(2) by (simp add: wp_def)

theorem payment_events_refine_ledger_witness:
  "\<exists>n'. handle_payment_event sample_events (PaymentFailed None None [9]) sample_paid = (Val (), n')
    \<and> ledger_of (outbound n') = [[9] \<mapsto> Failed]"
proof -
  obtain n' where n': "handle_payment_event sample_events (PaymentFailed None None [9]) sample_paid = (Val (), n')"
    by (simp add: handle_failed_def run_simps prompt_def Let_def sample_events_ok)
  have "ledger_of (outbound sample_paid) = [[9] \<mapsto> Pending]"
    by (auto simp: ledger_of_def sample_paid_def payment_entry_def)
  then show ?thesis
    using n' payment_events_refine_ledger [OF sample_events_ok(2) n'] by simp
qed

section \<open>Funding a channel\<close>

text \<open>
  C28: the amount of the funding output, which the wallet is asked for in BTC as a floating point number, is
  the channel's value to the satoshi: the double nearest to the quotient is less than half a satoshi off,
  for every value up to the 21 million bitcoin that exist.
\<close>

theorem funding_amount_exact:
  assumes "0 < v" and "v \<le> 2100000000000000"
  shows "\<exists>q. sat_as_btc v = Finite q \<and> \<bar>q * 100000000 - of_nat (unat v)\<bar> < 1 / 2"
proof -
  let ?n = "of_nat (unat v) :: rat"
  have "unat v \<le> 2100000000000000" using assms(2) by (simp add: word_le_nat_alt)
  then have hi: "?n \<le> of_nat 2100000000000000" unfolding of_nat_le_iff .
  have "1 \<le> unat v" using assms(1) by (simp add: word_less_nat_alt)
  then have "of_nat 1 \<le> ?n" unfolding of_nat_le_iff .
  then have lo: "1 \<le> ?n" by (simp only: of_nat_1)
  have "(1 / 2 ^ 1022 :: rat) \<le> 1 / 100000000" by (simp add: divide_simps)
  also have "\<dots> \<le> ?n / 100000000" using lo by (intro divide_right_mono) auto
  finally have "1 / 2 ^ 1022 \<le> ?n / 100000000" .
  moreover have "?n / 100000000 \<le> 2 ^ 63" using hi by simp
  ultimately obtain q where q: "f64_of (?n / 100000000) = Finite q"
    "\<bar>q - ?n / 100000000\<bar> \<le> ?n / 100000000 / 2 ^ 53"
    using f64_of_close by blast
  have "unat v < 2 ^ 53" using \<open>unat v \<le> 2100000000000000\<close> by simp
  then have "sat_as_btc v = Finite q"
    using q(1) by (simp add: sat_as_btc_def u64_as_f64_exact)
  moreover have "\<bar>q * 100000000 - ?n\<bar> < 1 / 2"
    using q(2) hi by (simp add: abs_le_iff abs_less_iff field_simps)
  ultimately show ?thesis by blast
qed

theorem funding_amount_exact_witness:
  "\<exists>q. sat_as_btc 123456789 = Finite q \<and> \<bar>q * 100000000 - 123456789\<bar> < 1 / 2"
  using funding_amount_exact [of 123456789] by simp

text \<open>The transaction in an answer of the wallet, if it says it is completely signed.\<close>

definition signed_answer :: "'l event_lib_scheme \<Rightarrow> ('j, 'r) rpc_lib_scheme \<Rightarrow> 'j \<Rightarrow> bytes option" where
  "signed_answer L R j =
    (if j_as_bool (json R) (j_index (json R) j ''complete'') = Some True
     then Option.bind (Option.bind (j_as_str (json R) (j_index (json R) j ''hex'')) to_vec) (deserialize_tx L)
     else None)"

definition funding_methods :: "string list" where
  "funding_methods = [''createrawtransaction'', ''fundrawtransaction'', ''signrawtransactionwithwallet'']"

definition rpc_methods :: "hist \<Rightarrow> string list" where
  "rpc_methods h = List.map_filter (\<lambda>a. case a of Rpc m _ \<Rightarrow> Some m | _ \<Rightarrow> None) h"

lemma rpc_methods_simps [simp]:
  "rpc_methods [] = []" "rpc_methods (h @ h') = rpc_methods h @ rpc_methods h'"
  "rpc_methods (Rpc m a # h) = m # rpc_methods h" "rpc_methods (Print t # h) = rpc_methods h"
  "rpc_methods (Channel c # h) = rpc_methods h"
  by (simp_all add: rpc_methods_def List.map_filter_def)

lemma wp_raw_tx [wp_simps]:
  "wp (raw_tx_of J r) Q E s = (case j_as_str J r of None \<Rightarrow> E UnwrapNone s | Some h \<Rightarrow> Q (RawTx h) s)"
  by (simp add: raw_tx_of_def wp_simps)

lemma wp_funded_tx [wp_simps]:
  "wp (funded_tx_of J r) Q E s =
     (case (j_as_i64 J (j_index J r ''changepos''), j_as_str J (j_index J r ''hex'')) of
        (Some c, Some h) \<Rightarrow> Q \<lparr>changepos = c, funded_hex = h\<rparr> s | _ \<Rightarrow> E UnwrapNone s)"
  by (simp add: funded_tx_of_def wp_simps split: option.splits)

lemma wp_signed_tx [wp_simps]:
  "wp (signed_tx_of J r) Q E s =
     (case (j_as_str J (j_index J r ''hex''), j_as_bool J (j_index J r ''complete'')) of
        (Some h, Some c) \<Rightarrow> Q \<lparr>complete = c, signed_hex = h\<rparr> s | _ \<Rightarrow> E UnwrapNone s)"
  by (simp add: signed_tx_of_def wp_simps split: option.splits)

text \<open>
  The three requests, for the address, the amount, the fee estimate, and the two transactions the wallet
  answers with on the way.
\<close>

definition funding_requests :: "string \<Rightarrow> u64 \<Rightarrow> u32 \<Rightarrow> string \<Rightarrow> string \<Rightarrow> (string \<times> json_arg list) list" where
  "funding_requests addr v est raw funded =
     [(''createrawtransaction'', [JArray [], JArray [JObject [(addr, JFloat (sat_as_btc v))]]]),
      (''fundrawtransaction'',
        [JText raw, JObject [(''fee_rate'', JFloat (f64_div (u32_as_f64 est) (Finite 250))), (''replaceable'', JBool False)]]),
      (''signrawtransactionwithwallet'', [JText funded])]"

text \<open>
  The requests \<open>qs\<close> and the transaction of a funding that works: each request is about the transaction in
  the answer to the one before it, and the last answer says the transaction is completely signed.
\<close>

definition funding_tx ::
  "'l event_lib_scheme \<Rightarrow> ('j, 'r) rpc_lib_scheme \<Rightarrow> network \<Rightarrow> u64 \<Rightarrow> bytes \<Rightarrow> 'b client_state_scheme \<Rightarrow>
   (string \<times> json_arg list) list \<Rightarrow> bytes \<Rightarrow> bool" where
  "funding_tx L R net v script s qs tx \<longleftrightarrow> (\<exists>addr est raw funded j0 j1 j2.
     to_bech32 L (bech32_network net) script = Some addr \<and> fees s NonAnchorChannelFee = Some est
     \<and> qs = funding_requests addr v est raw funded \<and> answers R (trace s) qs = Some [j0, j1, j2]
     \<and> j_as_str (json R) j0 = Some raw
     \<and> j_as_str (json R) (j_index (json R) j1 ''hex'') = Some funded \<and> j_as_i64 (json R) (j_index (json R) j1 ''changepos'') \<noteq> None
     \<and> signed_answer L R j2 = Some tx)"

text \<open>What the handler has done in a run that began in \<open>s\<close>, when the trace is \<open>h\<close>.\<close>

definition funding_run ::
  "'l event_lib_scheme \<Rightarrow> ('j, 'r) rpc_lib_scheme \<Rightarrow> network \<Rightarrow> channel_id \<Rightarrow> pubkey \<Rightarrow> u64 \<Rightarrow> bytes \<Rightarrow>
   'b client_state_scheme \<Rightarrow> hist \<Rightarrow> bool" where
  "funding_run L R net i pk v script s h \<longleftrightarrow> (\<exists>as k. h = trace s @ as \<and> rpc_methods as = take k funding_methods
     \<and> (\<forall>c. Channel c \<in> set as \<longrightarrow> (\<exists>qs tx post. c = FundingGenerated i pk tx \<and> funding_tx L R net v script s qs tx
         \<and> as = map (\<lambda>(m, args). Rpc m args) qs @ Channel c # post \<and> (\<forall>a \<in> set post. \<exists>t. a = Print t)))
     \<and> (\<forall>qs tx. funding_tx L R net v script s qs tx \<longrightarrow> Channel (FundingGenerated i pk tx) \<in> set as))"

lemma wp_create_raw:
  "wp (create_raw_transaction R outs) Q E s =
    (let args = [JArray [], JArray (map (\<lambda>o'. JObject (map (\<lambda>(a, v). (a, JFloat v)) o')) outs)];
         t = s\<lparr>trace := trace s @ [Rpc ''createrawtransaction'' args]\<rparr> in
     case rpc R (trace s) ''createrawtransaction'' args of
       Inl e \<Rightarrow> E UnwrapErr t
     | Inr j \<Rightarrow> (case j_as_str (json R) j of None \<Rightarrow> E UnwrapNone t | Some h \<Rightarrow> Q (RawTx h) t))"
  by (simp add: create_raw_transaction_def wp_simps Let_def split: sum.splits option.splits)

lemma wp_fund_raw:
  "fees s NonAnchorChannelFee = Some est \<Longrightarrow> wp (fund_raw_transaction R (RawTx raw)) Q E s =
    (let args = [JText raw, JObject [(''fee_rate'', JFloat (f64_div (u32_as_f64 est) (Finite 250))), (''replaceable'', JBool False)]];
         t = s\<lparr>trace := trace s @ [Rpc ''fundrawtransaction'' args]\<rparr> in
     case rpc R (trace s) ''fundrawtransaction'' args of
       Inl e \<Rightarrow> E UnwrapErr t
     | Inr j \<Rightarrow>
         (case (j_as_i64 (json R) (j_index (json R) j ''changepos''), j_as_str (json R) (j_index (json R) j ''hex'')) of
            (Some c, Some h) \<Rightarrow> Q \<lparr>changepos = c, funded_hex = h\<rparr> t | _ \<Rightarrow> E UnwrapNone t))"
  by (simp add: fund_raw_transaction_def wp_simps Let_def split: sum.splits option.splits)

lemma wp_sign_raw:
  "wp (sign_raw_transaction_with_wallet R hex) Q E s =
    (let t = s\<lparr>trace := trace s @ [Rpc ''signrawtransactionwithwallet'' [JText hex]]\<rparr> in
     case rpc R (trace s) ''signrawtransactionwithwallet'' [JText hex] of
       Inl e \<Rightarrow> E UnwrapErr t
     | Inr j \<Rightarrow>
         (case (j_as_str (json R) (j_index (json R) j ''hex''), j_as_bool (json R) (j_index (json R) j ''complete'')) of
            (Some h, Some c) \<Rightarrow> Q \<lparr>complete = c, signed_hex = h\<rparr> t | _ \<Rightarrow> E UnwrapNone t))"
  by (simp add: sign_raw_transaction_with_wallet_def wp_simps Let_def split: sum.splits option.splits)

text \<open>A run that did not hand over a transaction, because there is none.\<close>

lemma funding_stopped:
  "h = trace s @ as \<Longrightarrow> rpc_methods as = take k funding_methods \<Longrightarrow> \<forall>c. Channel c \<notin> set as \<Longrightarrow>
   \<forall>qs tx. \<not> funding_tx L R net v script s qs tx \<Longrightarrow> funding_run L R net i pk v script s h"
  unfolding funding_run_def by blast

lemma funding_handed:
  fixes s :: "'b client_state_scheme"
  assumes tx: "funding_tx L R net v script s qs tx"
    and only: "\<And>qs' tx'. funding_tx L R net v script s qs' tx' \<Longrightarrow> qs' = qs \<and> tx' = tx"
    and as: "as = map (\<lambda>(m, args). Rpc m args) qs" "rpc_methods as = take 3 funding_methods" "\<forall>c. Channel c \<notin> set as"
    and post: "\<forall>a \<in> set post. \<exists>t. a = Print t"
  shows "funding_run L R net i pk v script s (trace s @ as @ Channel (FundingGenerated i pk tx) # post)"
proof -
  have methods: "rpc_methods (as @ Channel (FundingGenerated i pk tx) # post) = take 3 funding_methods"
  proof -
    have "rpc_methods post = []" using post by (induction post) auto
    then show ?thesis using as(2) by simp
  qed
  have chan: "c = FundingGenerated i pk tx" if "Channel c \<in> set (as @ Channel (FundingGenerated i pk tx) # post)" for c
    using that as(3) post by auto
  show ?thesis
    unfolding funding_run_def
  proof (intro exI [of _ "as @ Channel (FundingGenerated i pk tx) # post"] exI [of _ 3] conjI allI impI)
    fix c assume "Channel c \<in> set (as @ Channel (FundingGenerated i pk tx) # post)"
    from chan [OF this] tx post show "\<exists>qs tx' post'. c = FundingGenerated i pk tx' \<and> funding_tx L R net v script s qs tx'
        \<and> as @ Channel (FundingGenerated i pk tx) # post = map (\<lambda>(m, args). Rpc m args) qs @ Channel c # post'
        \<and> (\<forall>a \<in> set post'. \<exists>t. a = Print t)"
      using as(1) by blast
  next
    fix qs' tx' assume "funding_tx L R net v script s qs' tx'"
    from only [OF this] show "Channel (FundingGenerated i pk tx') \<in> set (as @ Channel (FundingGenerated i pk tx) # post)" by simp
  qed (simp_all only: methods)
qed

text \<open>The last steps, after the three answers.\<close>

definition hand_over_tx ::
  "'l event_lib_scheme \<Rightarrow> channel_id \<Rightarrow> pubkey \<Rightarrow> signed_tx \<Rightarrow> ('b client_state_scheme, unit) prog" where
  "hand_over_tx L i pk signed_tx =
    thenP (assertP (complete signed_tx = True))
    (bindP (unwrap (to_vec (signed_hex signed_tx))) (\<lambda>tx_bytes.
    bindP (unwrap (deserialize_tx L tx_bytes)) (\<lambda>final_tx.
    bindP (call (Channel (FundingGenerated i pk final_tx)) (funding_result L)) (\<lambda>r.
      case r of
        Inr _ \<Rightarrow> ret ()
      | Inl _ \<Rightarrow> thenP (println (nl @ funding_gone)) prompt))))"

definition sign_and_hand_over ::
  "'l event_lib_scheme \<Rightarrow> ('j, 'r) rpc_lib_scheme \<Rightarrow> channel_id \<Rightarrow> pubkey \<Rightarrow> funded_tx \<Rightarrow> ('b client_state_scheme, unit) prog" where
  "sign_and_hand_over L R i pk funded_tx =
    bindP (sign_raw_transaction_with_wallet R (funded_hex funded_tx)) (hand_over_tx L i pk)"

lemma handle_funding_parts:
  "handle_funding L R net i pk v script =
    bindP (expect ''Lightning funding tx should always be to a SegWit output'' (to_bech32 L (bech32_network net) script)) (\<lambda>addr.
    bindP (create_raw_transaction R [[(addr, sat_as_btc v)]]) (\<lambda>raw_tx.
    bindP (fund_raw_transaction R raw_tx) (sign_and_hand_over L R i pk)))"
  by (simp only: handle_funding_def sign_and_hand_over_def [abs_def] hand_over_tx_def [abs_def])

lemma wp_hand_over_tx:
  fixes s :: "'b client_state_scheme"
  assumes addr: "to_bech32 L (bech32_network net) script = Some addr" and est: "fees s NonAnchorChannelFee = Some est"
    and qs: "qs = funding_requests addr v est raw funded" "answers R (trace s) qs = Some [j0, j1, j2]"
    and tx: "j_as_str (json R) j0 = Some raw" "j_as_str (json R) (j_index (json R) j1 ''hex'') = Some funded"
      "j_as_i64 (json R) (j_index (json R) j1 ''changepos'') = Some cp"
    and hex: "j_as_str (json R) (j_index (json R) j2 ''hex'') = Some hex" "j_as_bool (json R) (j_index (json R) j2 ''complete'') = Some c"
    and none: "\<And>qs' tx. funding_tx L R net v script s qs' tx \<Longrightarrow> qs' = qs \<and> signed_answer L R j2 = Some tx"
    and t: "trace t = trace s @ map (\<lambda>(m, args). Rpc m args) qs"
  shows "wp (hand_over_tx L i pk \<lparr>complete = c, signed_hex = hex\<rparr>)
    (\<lambda>_ t. funding_run L R net i pk v script s (trace t)) (\<lambda>_ t. funding_run L R net i pk v script s (trace t)) t"
proof -
  have methods: "rpc_methods (map (\<lambda>(m, args). Rpc m args) qs) = take 3 funding_methods"
    "Channel ch \<notin> set (map (\<lambda>(m, args). Rpc m args) qs)" for ch
    by (auto simp: qs(1) funding_requests_def funding_methods_def)
  have stop: "funding_run L R net i pk v script s (trace t)" if "signed_answer L R j2 = None"
    by (rule funding_stopped [where as = "map (\<lambda>(m, args). Rpc m args) qs" and k = 3]) (use t methods none that in auto)
  have hand: "funding_run L R net i pk v script s (trace s @ map (\<lambda>(m, args). Rpc m args) qs @ Channel (FundingGenerated i pk x) # post)"
    if "signed_answer L R j2 = Some x" "\<forall>a \<in> set post. \<exists>t. a = Print t" for x post
  proof (rule funding_handed [OF _ _ refl methods(1)])
    show "funding_tx L R net v script s qs x" unfolding funding_tx_def using addr est qs tx that(1) by blast
    show "qs' = qs \<and> tx' = x" if "funding_tx L R net v script s qs' tx'" for qs' tx'
      using none [OF that] \<open>signed_answer L R j2 = Some x\<close> by simp
  qed (use methods(2) that(2) in simp_all)
  show ?thesis
  proof (cases "signed_answer L R j2")
    case None
    then have "\<not> c \<or> Option.bind (to_vec hex) (deserialize_tx L) = None"
      by (auto simp: signed_answer_def hex split: if_splits)
    then show ?thesis
      using stop [OF None] by (cases "to_vec hex") (auto simp: hand_over_tx_def wp_then wp_assert wp_bind wp_panic)
  next
    case (Some x)
    then obtain b where c: "c" "to_vec hex = Some b" "deserialize_tx L b = Some x"
      by (cases "to_vec hex") (auto simp: signed_answer_def hex split: if_splits)
    have "funding_run L R net i pk v script s (trace t @ Channel (FundingGenerated i pk x) # post)"
      if "\<forall>a \<in> set post. \<exists>t. a = Print t" for post
      using hand [OF Some that] by (simp add: t)
    from this [of "[]"] this [of "[Print (nl @ funding_gone @ nl), Print ''> '']"]
    show ?thesis
      by (simp add: hand_over_tx_def wp_then wp_assert wp_bind c wp_call wp_case_sum wp_ret wp_println prompt_def wp_print
        split: sum.splits)
  qed
qed

lemma wp_handle_funding:
  fixes s :: "'b client_state_scheme"
  shows "wp (handle_funding L R net i pk v script) (\<lambda>_ t. funding_run L R net i pk v script s (trace t))
    (\<lambda>_ t. funding_run L R net i pk v script s (trace t)) s"
proof (cases "to_bech32 L (bech32_network net) script")
  case None
  then have "funding_run L R net i pk v script s (trace s)"
    by (intro funding_stopped [where as = "[]" and k = 0]) (auto simp: funding_tx_def)
  with None show ?thesis by (simp add: handle_funding_def expect_def wp_simps)
next
  case (Some addr)
  let ?q0 = "[JArray [], JArray [JObject [(addr, JFloat (sat_as_btc v))]]]"
  let ?h1 = "trace s @ [Rpc ''createrawtransaction'' ?q0]"
  note simps = funding_tx_def funding_requests_def funding_methods_def Some
  let ?raw = "case rpc R (trace s) ''createrawtransaction'' ?q0 of Inl _ \<Rightarrow> None | Inr j \<Rightarrow> j_as_str (json R) j"
  have stop1: "funding_run L R net i pk v script s ?h1" if "?raw = None \<or> fees s NonAnchorChannelFee = None"
    by (rule funding_stopped [where as = "[Rpc ''createrawtransaction'' ?q0]" and k = 1])
      (use that in \<open>auto simp: simps split: sum.splits\<close>)
  show ?thesis
  proof (cases "?raw = None \<or> fees s NonAnchorChannelFee = None")
    case True
    with stop1 show ?thesis
      by (cases "fees s NonAnchorChannelFee"; cases "rpc R (trace s) ''createrawtransaction'' ?q0")
        (auto simp: handle_funding_parts expect_def Some wp_bind wp_create_raw Let_def fund_raw_transaction_def
          wp_get_est split: option.splits)
  next
    case False
    then obtain j0 raw est where r0: "rpc R (trace s) ''createrawtransaction'' ?q0 = Inr j0" "j_as_str (json R) j0 = Some raw"
      and est: "fees s NonAnchorChannelFee = Some est"
      by (auto split: sum.splits)
    let ?q1 = "[JText raw, JObject [(''fee_rate'', JFloat (f64_div (u32_as_f64 est) (Finite 250))), (''replaceable'', JBool False)]]"
    let ?as2 = "[Rpc ''createrawtransaction'' ?q0, Rpc ''fundrawtransaction'' ?q1]"
    let ?funded = "case rpc R ?h1 ''fundrawtransaction'' ?q1 of Inl _ \<Rightarrow> None
      | Inr j \<Rightarrow> (case j_as_i64 (json R) (j_index (json R) j ''changepos'') of None \<Rightarrow> None
          | Some _ \<Rightarrow> j_as_str (json R) (j_index (json R) j ''hex''))"
    have head: "wp (handle_funding L R net i pk v script) Q E s =
        wp (fund_raw_transaction R (RawTx raw)) (\<lambda>x. wp (sign_and_hand_over L R i pk x) Q E) E (s\<lparr>trace := ?h1\<rparr>)" for Q E
      by (simp add: handle_funding_parts expect_def Some wp_bind wp_create_raw r0 Let_def)
    have stop2: "funding_run L R net i pk v script s (trace s @ ?as2)" if "?funded = None"
      by (rule funding_stopped [where as = ?as2 and k = 2])
        (use that r0 est in \<open>auto simp: simps numeral_2_eq_2 split: sum.splits option.splits\<close>)
    show ?thesis
    proof (cases ?funded)
      case None
      with stop2 show ?thesis
        by (cases "rpc R ?h1 ''fundrawtransaction'' ?q1")
          (auto simp: head wp_fund_raw est Let_def split: option.splits)
    next
      case (Some funded)
      then obtain j1 cp where r1: "rpc R ?h1 ''fundrawtransaction'' ?q1 = Inr j1"
          "j_as_i64 (json R) (j_index (json R) j1 ''changepos'') = Some cp"
          "j_as_str (json R) (j_index (json R) j1 ''hex'') = Some funded"
        by (auto split: sum.splits option.splits)
      let ?qs = "funding_requests addr v est raw funded"
      let ?as3 = "map (\<lambda>(m, args). Rpc m args) ?qs" and ?h2 = "trace s @ ?as2"
      let ?signed = "case rpc R ?h2 ''signrawtransactionwithwallet'' [JText funded] of Inl _ \<Rightarrow> None
        | Inr j \<Rightarrow> (case (j_as_str (json R) (j_index (json R) j ''hex''), j_as_bool (json R) (j_index (json R) j ''complete'')) of
            (Some h, Some c) \<Rightarrow> Some (j, h, c) | _ \<Rightarrow> None)"
      have h3: "trace s @ ?as3 = ?h2 @ [Rpc ''signrawtransactionwithwallet'' [JText funded]]"
        by (simp add: funding_requests_def)
      have stop3: "funding_run L R net i pk v script s (trace s @ ?as3)" if "?signed = None"
        by (rule funding_stopped [where as = ?as3 and k = 3])
          (use that r0 r1 est in \<open>auto simp: simps signed_answer_def split: sum.splits option.splits if_splits\<close>)
      show ?thesis
      proof (cases ?signed)
        case None
        with stop3 show ?thesis unfolding h3
          by (cases "rpc R ?h2 ''signrawtransactionwithwallet'' [JText funded]")
            (auto simp: head wp_fund_raw est Let_def r1 sign_and_hand_over_def wp_bind wp_sign_raw split: option.splits)
      next
        case (Some x)
        then obtain j2 hex c where r2: "rpc R ?h2 ''signrawtransactionwithwallet'' [JText funded] = Inr j2"
            "j_as_str (json R) (j_index (json R) j2 ''hex'') = Some hex"
            "j_as_bool (json R) (j_index (json R) j2 ''complete'') = Some c"
          by (auto split: sum.splits option.splits)
        have ans: "answers R (trace s) ?qs = Some [j0, j1, j2]"
          using r0 r1 r2 by (simp add: funding_requests_def)
        have none: "qs' = ?qs \<and> signed_answer L R j2 = Some tx" if "funding_tx L R net v script s qs' tx" for qs' tx
          using that r0 r1 r2 est by (auto simp: simps split: sum.splits)
        have "trace (s\<lparr>trace := ?h2 @ [Rpc ''signrawtransactionwithwallet'' [JText funded]]\<rparr>) = trace s @ ?as3"
          by (simp add: h3)
        note last = wp_hand_over_tx [OF \<open>to_bech32 L (bech32_network net) script = Some addr\<close> est refl ans r0(2) r1(3,2) r2(2,3) none this]
        show ?thesis
          using last by (simp add: head wp_fund_raw est Let_def r1 sign_and_hand_over_def wp_bind wp_sign_raw r2)
      qed
    qed
  qed
qed

text \<open>
  C27: funding a channel asks bitcoind for at most three things, in this order: to create a transaction
  that pays the channel's amount to the address of its script, to fund the one it answered with, and
  to sign the one that came back funded, never to broadcast it. LDK is handed a transaction exactly if
  all three are answered and the last answer says the transaction in it is completely signed: that one,
  once, for the channel of the event, after the three requests.
\<close>

theorem funding_hands_over_signed_tx:
  fixes s :: "'b client_state_scheme"
  assumes "handle_channel_event L R net (FundingGenerationReady i pk v script) s = (r, s')"
  shows "\<exists>as k. trace s' = trace s @ as \<and> rpc_methods as = take k funding_methods
    \<and> (\<forall>c. Channel c \<in> set as \<longrightarrow> (\<exists>qs tx post. c = FundingGenerated i pk tx \<and> funding_tx L R net v script s qs tx
        \<and> as = map (\<lambda>(m, args). Rpc m args) qs @ Channel c # post \<and> (\<forall>a \<in> set post. \<exists>t. a = Print t)))
    \<and> (\<forall>qs tx. funding_tx L R net v script s qs tx \<longrightarrow> Channel (FundingGenerated i pk tx) \<in> set as)"
  using wp_handle_funding [of L R net i pk v script s] assms
  by (auto simp: wp_def funding_run_def split: outcome.splits)

text \<open>A wallet that funds and signs.\<close>

definition sample_wallet :: "sample_json rpc_lib" where
  "sample_wallet = sample_rpc\<lparr>rpc := (\<lambda>h m args.
     if m = ''createrawtransaction'' then Inr (SText ''00'')
     else if m = ''fundrawtransaction'' then Inr (SObj [(''changepos'', SNum 1), (''hex'', SText ''01'')])
     else Inr (SObj [(''hex'', SText ''02''), (''complete'', SBool True)]))\<rparr>"

theorem funding_hands_over_signed_tx_witness:
  "\<exists>r s'. handle_channel_event sample_events sample_wallet Regtest (FundingGenerationReady [1] [2] 5000 [])
      sample_client_state = (r, s')
    \<and> Channel (FundingGenerated [1] [2] [2]) \<in> set (trace s')"
proof -
  obtain r s' where run: "handle_channel_event sample_events sample_wallet Regtest (FundingGenerationReady [1] [2] 5000 [])
      sample_client_state = (r, s')"
    by fastforce
  have "to_vec ''02'' = Some [2]" by code_simp
  moreover have "initial_fees NonAnchorChannelFee = Some 2000" by (simp add: initial_fees_def)
  ultimately have "funding_tx sample_events sample_wallet Regtest 5000 [] sample_client_state
      (funding_requests ''addr'' 5000 2000 ''00'' ''01'') [2]"
    by (simp add: funding_tx_def funding_requests_def signed_answer_def sample_wallet_def sample_events_def sample_defs)
  with funding_hands_over_signed_tx [OF run] run show ?thesis by (fastforce simp: sample_client_state_def)
qed

end
