(* ===== verification/Args_Properties.thy ===== *)
theory Args_Properties
  imports Args
begin

text \<open>
  What \<open>src/args.rs\<close> makes of the arguments: a command line written in the documented form is read back,
  mainnet is never chosen, and credentials that are not on the command line come from the environment,
  the \<open>.env\<close> file and the cookie, in this order.
\<close>

section \<open>The documented form\<close>

fun network_text :: "network \<Rightarrow> string" where
  "network_text Testnet = ''testnet''"
| "network_text Regtest = ''regtest''"
| "network_text Signet = ''signet''"
| "network_text Bitcoin = ''bitcoin''"
| "network_text Testnet4 = ''testnet4''"

lemma network_arg_text:
  "net = Testnet \<or> net = Regtest \<or> net = Signet \<Longrightarrow> network_arg (Some (network_text net)) = ret net"
  by (auto simp: network_arg_def)

lemma listen_addrs_ok:
  "map (parse_socket_address E) ss = map Some addrs \<Longrightarrow> listen_addrs E ss = ret addrs"
proof (induction ss arbitrary: addrs)
  case (Cons a ss)
  then obtain x xs where "addrs = x # xs" by (cases addrs) auto
  with Cons show ?case by simp
qed simp

lemma show_u16_plain: "CHR '':'' \<notin> set (show_u16 x)" "CHR ''@'' \<notin> set (show_u16 x)"
  using show_nat_char_range [of _ "unat x"] by (fastforce simp: show_u16_def)+

lemma parse_rpc_auth_pair:
  "CHR '':'' \<notin> set u \<Longrightarrow> CHR '':'' \<notin> set p \<Longrightarrow> parse_rpc_auth (u @ '':'' @ p) = ret (Inr (u, p))"
  by (simp add: parse_rpc_auth_def split_on_append split_on_none)

lemma documented_args:
  fixes s :: "'b world_scheme"
  assumes "argv E = [prog, user @ '':'' @ pw @ ''@'' @ host @ '':'' @ show_u16 port, dir, show_u16 lport,
      network_text net, name] @ addr_texts"
    and "CHR '':'' \<notin> set user" and "CHR '':'' \<notin> set pw" and "CHR '':'' \<notin> set host" and "CHR ''@'' \<notin> set host"
    and "net = Testnet \<or> net = Regtest \<or> net = Signet"
    and "length name \<le> 32" and "map (parse_socket_address E) addr_texts = map Some addrs"
  shows "parse_startup_args E s = (Val (Inr
    \<lparr>bitcoind_rpc_username = user, bitcoind_rpc_password = pw, bitcoind_rpc_port = port,
     bitcoind_rpc_host = host, ldk_storage_dir_path = dir, ldk_peer_listening_port = lport,
     ldk_announced_listen_addr = addrs,
     ldk_announced_node_name = as_bytes name @ replicate (32 - length name) 0, user_network = net\<rparr>), s)"
proof -
  define path auth where "path = host @ '':'' @ show_u16 port" and "auth = user @ '':'' @ pw"
  define info where "info = auth @ ''@'' @ path"
  have "rsplitn 2 (CHR ''@'') info = [path, auth]"
    using rsplitn_2_append [of "CHR ''@''" path auth] assms(5) show_u16_plain
    by (simp add: info_def path_def)
  moreover have "split_on (CHR '':'') path = [host, show_u16 port]"
    using assms(4) show_u16_plain by (simp add: path_def split_on_append split_on_none)
  moreover have "parse_rpc_auth auth = (ret (Inr (user, pw)) :: ('b world_scheme, _) prog)"
    unfolding auth_def by (rule parse_rpc_auth_pair [OF assms(2,3)])
  moreover have args: "arg E 1 = Some info"
    "arg E 2 = Some dir" "arg E 3 = Some (show_u16 lport)" "arg E 4 = Some (network_text net)"
    "arg E 5 = Some name" "drop 6 (argv E) = addr_texts" "\<not> length (argv E) < 3"
    by (simp_all add: arg_def assms(1) info_def path_def auth_def)
  moreover have "announced E 4 = (ret (pad_name name, addrs) :: ('b world_scheme, _) prog)"
    using assms(7) by (simp add: announced_def args(5,6) listen_addrs_ok [OF assms(8)])
  ultimately show ?thesis
    by (simp add: parse_startup_args_def listening_port_def Let_def network_arg_text [OF assms(6)]
        pad_name_def run_simps del: One_nat_def)
qed

text \<open>
  C20: a command line in the documented form is read back: user, password, host and port of the first
  argument, the storage directory, the listening port, the network, the node's name padded with zeros to
  32 bytes, and the addresses to announce, with nothing printed. The user and the password may contain
  \<open>@\<close> but no colon.
\<close>

theorem startup_args_roundtrip:
  fixes s :: "'b world_scheme"
  assumes "argv E = [prog, user @ '':'' @ pw @ ''@'' @ host @ '':'' @ show_u16 port, dir, show_u16 lport,
      network_text net, name] @ addr_texts"
    and "CHR '':'' \<notin> set user" and "CHR '':'' \<notin> set pw" and "CHR '':'' \<notin> set host" and "CHR ''@'' \<notin> set host"
    and "net = Testnet \<or> net = Regtest \<or> net = Signet"
    and "length name \<le> 32" and "map (parse_socket_address E) addr_texts = map Some addrs"
  shows "parse_startup_args E s = (Val (Inr
    \<lparr>bitcoind_rpc_username = user, bitcoind_rpc_password = pw, bitcoind_rpc_port = port,
     bitcoind_rpc_host = host, ldk_storage_dir_path = dir, ldk_peer_listening_port = lport,
     ldk_announced_listen_addr = addrs,
     ldk_announced_node_name = as_bytes name @ replicate (32 - length name) 0, user_network = net\<rparr>), s)"
  by (rule documented_args [OF assms])

definition sample_env :: "string list \<Rightarrow> env" where
  "sample_env args =
     \<lparr>argv = args, env_var = (\<lambda>k. if k = ''RPC_USER'' then Some ''alice'' else None), home_dir = Some ''/home/alice'',
      read_file = (\<lambda>p. if p = ''.env'' then Some (''RPC_USER=bob'' @ nl @ ''RPC_PASSWORD=a=b'') else None),
      parse_socket_address = (\<lambda>s. Some (ClearNet s))\<rparr>"

lemma sample_ports: "show_u16 18443 = ''18443''" "show_u16 9735 = ''9735''"
  by (simp_all add: show_u16_def show_nat.simps digit_char_def char_of_def bit_0)

theorem startup_args_roundtrip_witness:
  "\<exists>info. fst (parse_startup_args (sample_env [''ldk-sample'', ''alice:p@w@localhost:18443'', ''dir'', ''9735'',
       ''regtest'', ''node'', ''10.0.0.1:9735'']) \<lparr>trace = []\<rparr>) = Val (Inr info)
     \<and> bitcoind_rpc_password info = ''p@w'' \<and> user_network info = Regtest"
  using startup_args_roundtrip [of "sample_env [''ldk-sample'', ''alice:p@w@localhost:18443'', ''dir'', ''9735'',
       ''regtest'', ''node'', ''10.0.0.1:9735'']" "''ldk-sample''" "''alice''" "''p@w''" "''localhost''" 18443
       "''dir''" 9735 Regtest "''node''" "[''10.0.0.1:9735'']" "[ClearNet ''10.0.0.1:9735'']" "\<lparr>trace = []\<rparr>"]
  by (simp add: sample_env_def sample_ports)

section \<open>Networks and names\<close>

lemma length_pad_name: "length s \<le> 32 \<Longrightarrow> length (pad_name s) = 32"
  by (simp add: pad_name_def as_bytes_def)

text \<open>A program whose result, if it returns one, satisfies \<open>P\<close>.\<close>

definition returns :: "('a \<Rightarrow> bool) \<Rightarrow> ('s, 'a) prog \<Rightarrow> bool" where
  "returns P m \<longleftrightarrow> (\<forall>s x t. m s = (Val x, t) \<longrightarrow> P x)"

lemma returns_True [simp]: "returns (\<lambda>_. True) m"
  by (simp add: returns_def)

lemma returns_ret [simp]: "returns P (ret x) \<longleftrightarrow> P x"
  by (simp add: returns_def run_simps)

lemma returns_panic [simp]: "returns P (panic p)"
  by (simp add: returns_def run_simps)

lemma returns_bind: "returns Q m \<Longrightarrow> (\<And>x. Q x \<Longrightarrow> returns P (f x)) \<Longrightarrow> returns P (bindP m f)"
  by (fastforce simp: returns_def elim: bindP_cases)

lemma returns_then: "returns P n \<Longrightarrow> returns P (thenP m n)"
  by (simp add: thenP_def returns_bind [of "\<lambda>_. True"])

lemma returns_network_arg:
  "returns (\<lambda>net. net = Testnet \<or> net = Regtest \<or> net = Signet) (network_arg a)"
  by (simp add: network_arg_def split: option.splits)

lemma returns_announced: "returns (\<lambda>(name, as). length name = 32) (announced E i)"
  by (auto simp: announced_def length_pad_name intro!: returns_bind [of "\<lambda>_. True"] split: option.splits)

text \<open>
  C21: the node never starts on mainnet, and its announced name always takes up 32 bytes: whatever the
  arguments and the environment, a successful parse has one of the three test networks.
\<close>

theorem startup_never_mainnet:
  assumes "parse_startup_args E s = (Val (Inr info), s')"
  shows "user_network info \<noteq> Bitcoin \<and> user_network info \<noteq> Testnet4
    \<and> length (ldk_announced_node_name info) = 32"
proof -
  let ?P = "\<lambda>r. \<forall>info. r = Inr info \<longrightarrow> user_network info \<noteq> Bitcoin \<and> user_network info \<noteq> Testnet4
    \<and> length (ldk_announced_node_name info) = 32"
  have last: "returns ?P (bindP (announced E i) (\<lambda>(node_name, addrs). ret (Inr
      \<lparr>bitcoind_rpc_username = u, bitcoind_rpc_password = p, bitcoind_rpc_port = po,
       bitcoind_rpc_host = h, ldk_storage_dir_path = d, ldk_peer_listening_port = lp,
       ldk_announced_listen_addr = addrs, ldk_announced_node_name = node_name,
       user_network = net\<rparr>)))"
    if "net = Testnet \<or> net = Regtest \<or> net = Signet" for i u p po h d lp net
    by (rule returns_bind [OF returns_announced]) (use that in auto)
  have "returns ?P (parse_startup_args E)"
    unfolding parse_startup_args_def Let_def
    by (auto intro!: returns_then returns_bind [of "\<lambda>_. True" "unwrap a" for a]
        returns_bind [of "\<lambda>_. True" "unwrap_res a" for a] returns_bind [OF returns_network_arg]
        returns_bind [of "\<lambda>_. True" "case_list a b c" for a b c] last
        split: list.splits prod.splits sum.splits)
  with assms show ?thesis by (auto simp: returns_def)
qed

theorem startup_never_mainnet_witness:
  "\<exists>info s'. parse_startup_args (sample_env [''ldk-sample'', ''alice:pw@localhost:18443'', ''dir'', ''9735'',
       ''regtest'', ''node'']) \<lparr>trace = []\<rparr> = (Val (Inr info), s')
     \<and> user_network info \<noteq> Bitcoin \<and> length (ldk_announced_node_name info) = 32"
proof -
  have "\<exists>info. parse_startup_args (sample_env [''ldk-sample'', ''alice:pw@localhost:18443'', ''dir'', ''9735'',
       ''regtest'', ''node'']) \<lparr>trace = []\<rparr> = (Val (Inr info), \<lparr>trace = []\<rparr>)"
    using documented_args [of "sample_env [''ldk-sample'', ''alice:pw@localhost:18443'', ''dir'', ''9735'',
       ''regtest'', ''node'']" "''ldk-sample''" "''alice''" "''pw''" "''localhost''" 18443
       "''dir''" 9735 Regtest "''node''" "[]" "[]" "\<lparr>trace = []\<rparr>"]
    by (simp add: sample_env_def sample_ports)
  then show ?thesis using startup_never_mainnet by blast
qed

section \<open>Where credentials come from\<close>

text \<open>
  A reference for the \<open>.env\<close> file: every line holds a \<open>=\<close>, the first one ends the key, and the last
  line of a key counts.
\<close>

definition env_file_map :: "string \<Rightarrow> (string \<rightharpoonup> string) option" where
  "env_file_map contents =
    (if list_all (\<lambda>l. CHR ''='' \<in> set l) (lines contents)
     then Some (map_of (rev (map (\<lambda>l. (takeWhile (\<lambda>c. c \<noteq> CHR ''='') l, tl (dropWhile (\<lambda>c. c \<noteq> CHR ''='') l)))
       (lines contents))))
     else None)"

lemma env_lines_result:
  "\<exists>s'. env_lines ls m s = (Val (
     if list_all (\<lambda>l. CHR ''='' \<in> set l) ls
     then Inr (m ++ map_of (rev (map (\<lambda>l. (takeWhile (\<lambda>c. c \<noteq> CHR ''='') l, tl (dropWhile (\<lambda>c. c \<noteq> CHR ''='') l))) ls)))
     else Inl ()), s')"
proof (induction ls arbitrary: m s)
  case (Cons l ls)
  show ?case
  proof (cases "CHR ''='' \<in> set l")
    case True
    then obtain k v where l: "l = k @ CHR ''='' # v" "CHR ''='' \<notin> set k"
      by (meson split_list_first)
    have "takeWhile (\<lambda>c. c \<noteq> CHR ''='') l = k" "tl (dropWhile (\<lambda>c. c \<noteq> CHR ''='') l) = v"
      using l by (simp_all add: takeWhile_append_neq dropWhile_append_neq)
    moreover obtain s' where "env_lines ls (m(k \<mapsto> v)) s = (Val (
        if list_all (\<lambda>l. CHR ''='' \<in> set l) ls
        then Inr (m(k \<mapsto> v) ++ map_of (rev (map (\<lambda>l. (takeWhile (\<lambda>c. c \<noteq> CHR ''='') l, tl (dropWhile (\<lambda>c. c \<noteq> CHR ''='') l))) ls)))
        else Inl ()), s')"
      using Cons.IH by blast
    ultimately show ?thesis
      using True l by (simp add: splitn_2_append)
  next
    case False
    then show ?thesis by (simp add: splitn_2_none run_simps)
  qed
qed (simp add: run_simps)

text \<open>The credentials each of the three places has.\<close>

definition file_credentials :: "env \<Rightarrow> unit + string \<times> string" where
  "file_credentials E =
    (case Option.bind (read_file E ''.env'') env_file_map of
       Some m \<Rightarrow>
         (case (m ''RPC_USER'', m ''RPC_PASSWORD'') of (Some u, Some p) \<Rightarrow> Inr (u, p) | _ \<Rightarrow> Inl ())
     | None \<Rightarrow> Inl ())"

fun test_network_dir :: "network \<Rightarrow> string" where
  "test_network_dir Testnet = ''/testnet3''"
| "test_network_dir Regtest = ''/regtest''"
| "test_network_dir Signet = ''/signet''"
| "test_network_dir _ = []"

definition cookie_credentials :: "env \<Rightarrow> string \<Rightarrow> network \<Rightarrow> unit + string \<times> string" where
  "cookie_credentials E home net =
    (case read_file E (home @ ''/.bitcoin'' @ test_network_dir net @ ''/.cookie'') of
       Some c \<Rightarrow> (case split_on (CHR '':'') c of [u, p] \<Rightarrow> Inr (u, p) | _ \<Rightarrow> Inl ())
     | None \<Rightarrow> Inl ())"

lemma env_file_run: "\<exists>s'. get_rpc_auth_from_env_file E None s = (Val (file_credentials E), s')"
proof (cases "read_file E ''.env''")
  case None
  then show ?thesis
    by (simp add: get_rpc_auth_from_env_file_def parse_env_file_def run_simps file_credentials_def)
next
  case (Some c)
  obtain s' where "env_lines (lines c) Map.empty s = (Val (
     if list_all (\<lambda>l. CHR ''='' \<in> set l) (lines c)
     then Inr (Map.empty ++ map_of (rev (map (\<lambda>l. (takeWhile (\<lambda>c. c \<noteq> CHR ''='') l, tl (dropWhile (\<lambda>c. c \<noteq> CHR ''='') l))) (lines c))))
     else Inl ()), s')"
    using env_lines_result [of "lines c" Map.empty s] by blast
  then show ?thesis
    using Some
    by (simp add: get_rpc_auth_from_env_file_def parse_env_file_def run_simps file_credentials_def
        env_file_map_def BITCOIND_RPC_USER_KEY_def BITCOIND_RPC_PASSWORD_KEY_def)
qed

lemma cookie_path:
  assumes "home_dir E = Some home" and "home \<noteq> []" and "last home \<noteq> CHR ''/''"
  shows "get_cookie_path E None (Some net) None =
    Inr (home @ ''/.bitcoin'' @ test_network_dir net @ ''/.cookie'')"
  using assms
  by (cases net) (simp_all add: get_cookie_path_def path_join_def starts_with_def DEFAULT_BITCOIN_DATADIR_def)

lemma cookie_run:
  assumes "home_dir E = Some home" and "home \<noteq> []" and "last home \<noteq> CHR ''/''"
  shows "\<exists>s'. get_rpc_auth_from_cookie E None (Some net) None s = (Val (cookie_credentials E home net), s')"
  by (auto simp: get_rpc_auth_from_cookie_def cookie_path [OF assms] cookie_credentials_def
      parse_rpc_auth_def run_simps split: option.splits list.splits)

text \<open>
  C22: when the first argument has no credentials they are those of the environment variables, else those
  of the \<open>.env\<close> file, else those of the cookie of the chosen network in the user's data directory. Also
  when one of them is found, the program prints that it found none, and the help on how to give them:
  the argument of the last \<open>or\<close> is a block, evaluated whether or not it is needed.
\<close>

theorem default_credentials:
  assumes "home_dir E = Some home" and "home \<noteq> []" and "last home \<noteq> CHR ''/''"
  shows "\<exists>s' before rest. default_auth E net s =
      (Val (case (env_var E ''RPC_USER'', env_var E ''RPC_PASSWORD'') of
           (Some u, Some p) \<Rightarrow> Inr (u, p)
         | _ \<Rightarrow> or_else (file_credentials E) (cookie_credentials E home net)), s')
    \<and> stdout_of (trace s') = before @ auth_error @ nl @ rest"
proof -
  obtain s1 where 1: "get_rpc_auth_from_env_file E None s = (Val (file_credentials E), s1)"
    using env_file_run by blast
  obtain s2 where 2: "get_rpc_auth_from_cookie E None (Some net) None s1 = (Val (cookie_credentials E home net), s2)"
    using cookie_run [OF assms] by blast
  define s3 where "s3 = s2\<lparr>trace := trace s2 @ [Print (auth_error @ nl)]\<rparr>"
  obtain s4 rest where 4: "print_rpc_auth_help E s3 = (Val (), s4)" "stdout_of (trace s4) = stdout_of (trace s3) @ rest"
    by (simp add: print_rpc_auth_help_def Let_def run_simps)
  have or: "or_else (or_else (or_else a b) c) (Inl ()) = or_else a (or_else b c)" for a b c :: "unit + string \<times> string"
    by (cases a; cases b; cases c) simp_all
  have "default_auth E net s = (Val (or_else (get_rpc_auth_from_env_vars E)
      (or_else (file_credentials E) (cookie_credentials E home net))), s4)"
    by (simp add: default_auth_def run_simps 1 2 s3_def [symmetric] 4(1) or)
  moreover have "or_else (get_rpc_auth_from_env_vars E) r =
      (case (env_var E ''RPC_USER'', env_var E ''RPC_PASSWORD'') of (Some u, Some p) \<Rightarrow> Inr (u, p) | _ \<Rightarrow> r)" for r
    by (simp add: get_rpc_auth_from_env_vars_def BITCOIND_RPC_USER_KEY_def BITCOIND_RPC_PASSWORD_KEY_def
        split: option.splits)
  ultimately show ?thesis
    using 4(2) by (auto simp: s3_def)
qed

theorem default_credentials_witness:
  "\<exists>s' before rest. default_auth (sample_env []) Regtest \<lparr>trace = []\<rparr> = (Val (Inr (''bob'', ''a=b'')), s')
    \<and> stdout_of (trace s') = before @ auth_error @ nl @ rest"
  using default_credentials [of "sample_env []" "''/home/alice''" Regtest "\<lparr>trace = []\<rparr>"]
  by (simp add: sample_env_def file_credentials_def env_file_map_def lines_def nl_def strip_cr_def)

end
