(* ===== verification/Node_Properties.thy ===== *)
theory Node_Properties
  imports Node Event_Properties Args_Properties
begin

text \<open>
  What holds in every state the running node reaches, whatever the order of commands, events and ticks,
  and however the libraries answer; and what starting and stopping the node do to the stored state.
\<close>

section \<open>Tasks that only talk\<close>

lemma trace_only_check [trace_only_intros]: "trace_only (check b)"
  by (simp add: check_def trace_only_intros)

lemma trace_only_try_u32 [trace_only_intros]: "trace_only (try_u32 x)"
  by (simp add: try_u32_def trace_only_intros)

lemma trace_only_do_connect [trace_only_intros]: "trace_only (do_connect_peer L pk addr)"
  unfolding do_connect_peer_def by (intro trace_only_intros) simp_all

lemma trace_only_connect_all [trace_only_intros]: "trace_only (connect_all L pk as)"
  by (induction as) (auto intro!: trace_only_intros)

lemma trace_only_connect_addresses [trace_only_intros]: "trace_only (connect_addresses L pk as)"
  by (induction as) (auto intro!: trace_only_intros)

lemma trace_only_reconnect_peers [trace_only_intros]: "trace_only (reconnect_peers S pks)"
  by (induction pks) (auto intro!: trace_only_intros)

lemma trace_only_ticks [trace_only_intros]:
  "trace_only (reconnect_tick S)" "trace_only (accept_turn S)" "trace_only (poll_blocks_turn S)"
  "trace_only (announce_tick S args)" "trace_only (stop_background S)" "trace_only (greeting S)" "trace_only (bind_listener S)"
  unfolding reconnect_tick_def accept_turn_def poll_blocks_turn_def announce_tick_def stop_background_def
    greeting_def bind_listener_def
  by (intro trace_only_intros; simp)+

text \<open>Starting the node, but for the files of the seed and the payments and the table of fees.\<close>

lemma trace_only_rpc_auth [trace_only_intros]:
  "trace_only (parse_rpc_auth s)" "trace_only (print_rpc_auth_help E)"
  unfolding parse_rpc_auth_def print_rpc_auth_help_def Let_def
  by (intro trace_only_intros)+

lemma trace_only_env_lines [trace_only_intros]: "trace_only (env_lines ls m)"
proof (induction ls arbitrary: m)
  case (Cons l ls)
  show ?case unfolding env_lines.simps by (intro trace_only_intros Cons.IH)
qed (simp add: trace_only_intros)

lemma trace_only_default_auth [trace_only_intros]: "trace_only (default_auth E net)"
  unfolding default_auth_def get_rpc_auth_from_env_file_def parse_env_file_def get_rpc_auth_from_cookie_def
  by (intro trace_only_intros)

lemma trace_only_listen_addrs [trace_only_intros]: "trace_only (listen_addrs E ss)"
  by (induction ss) (auto intro!: trace_only_intros)

lemma trace_only_network_arg [trace_only_intros]: "trace_only (network_arg a)"
  unfolding network_arg_def by (intro trace_only_intros)

lemma trace_only_startup_args [trace_only_intros]: "trace_only (parse_startup_args E)"
  unfolding parse_startup_args_def announced_def Let_def by (intro trace_only_intros)

lemma trace_only_check_chain [trace_only_intros]: "trace_only (check_chain R net)"
  unfolding check_chain_def by (intro trace_only_intros)

lemma trace_only_sweeper [trace_only_intros]:
  "trace_only (case r of SweeperNotFound \<Rightarrow> ret () | SweeperBytes b \<Rightarrow> if p b then ret () else panic e
     | SweeperError x \<Rightarrow> panic (f x))"
  by (cases r) (simp_all add: trace_only_intros)

lemma trace_only_restore_node [trace_only_intros]: "trace_only (restore_node S)"
  unfolding restore_node_def channel_manager_def output_sweeper_def sync_and_load_def
  by (intro trace_only_intros) simp_all

section \<open>Payments stay recorded before they are made\<close>

interpretation logged: frame "logged L" "logged L" "\<lambda>a. \<not> is_pay a" for L
  by unfold_locales (simp_all add: logged_def)

section \<open>Memory stays on disk\<close>

text \<open>Whatever is done to the map of outgoing payments, writing it afterwards puts it on disk.\<close>

lemma keeps_then_write_outbound:
  "codec_ok L \<Longrightarrow> keeps (synced L) (\<lambda>_. True) (thenP m (write_outbound L))"
  unfolding keeps_def wp_then
  by (auto simp: wp_def [of m] write_outbound_syncs split: prod.splits outcome.splits)

lemma thenP_assoc: "thenP m (thenP n k) = thenP (thenP m n) k"
  by (simp add: thenP_def bindP_assoc)

lemma keeps_payment_event_synced:
  "codec_ok L \<Longrightarrow> keeps (synced L) (\<lambda>_. True) (handle_payment_event L e)"
proof (cases e)
  case (PaymentClaimed hash purpose amt)
  show ?thesis
    unfolding PaymentClaimed handle_payment_event.simps handle_claimed_def
    by (rule synced_rules keeps_then | simp)+
next
  case (PaymentFailed hash reason i)
  assume "codec_ok L"
  then show ?thesis
    unfolding PaymentFailed handle_payment_event.simps handle_failed_def thenP_assoc
    by (rule keeps_then_write_outbound)
qed (simp_all add: synced_trace_only trace_only_intros handle_sent_def keeps_then_write_outbound)

lemma keeps_event_synced:
  "codec_ok L \<Longrightarrow> keeps (synced L) (\<lambda>_. True) (handle_ldk_events L R net e)"
  by (cases e) (simp_all add: synced_trace_only trace_only_intros keeps_payment_event_synced keeps_intros)

section \<open>Fee estimates stay available\<close>

interpretation fees: full_frame "\<lambda>s. fees_ok (fees s)" "\<lambda>_. True"
  by unfold_locales (auto simp: keeps_def confirm_def wp_simps Let_def split: prod.splits)

lemma keeps_fees_poll: "keeps (\<lambda>s. fees_ok (fees s)) (\<lambda>_. True) (poll_once R)"
proof (rule keepsI)
  fix s :: "'a client_state_scheme" assume "fees_ok (fees s)"
  then have "fees_ok (fees (snd (poll_once R s)))"
    by (rule poll_step_ok) (auto simp: poll_step_def intro: surjective_pairing)
  then show "wp (poll_once R) (\<lambda>_ s. fees_ok (fees s)) (\<lambda>_ _. True) s"
    by (auto simp: wp_def split: prod.splits outcome.splits)
qed

section \<open>What every activity keeps\<close>

lemma keeps_conj: "keeps I E m \<Longrightarrow> keeps J F m \<Longrightarrow> keeps (\<lambda>s. I s \<and> J s) (\<lambda>s. E s \<and> F s) m"
  unfolding keeps_def by (fastforce simp: wp_def split: prod.splits outcome.splits)

lemma keeps_imp: "(P \<Longrightarrow> keeps I E m) \<Longrightarrow> keeps (\<lambda>s. P \<longrightarrow> I s) (\<lambda>s. P \<longrightarrow> E s) m"
  by (cases P) (auto simp: keeps_def wp_def split: prod.splits outcome.splits)

text \<open>
  What an invariant of the node needs so that all its activities keep it, as long as the events are
  \<open>allowed\<close> ones.
\<close>

locale node_invariant =
  fixes S :: "'l start_lib_scheme" and R :: "('j, 'r) rpc_lib_scheme"
    and allowed :: "event \<Rightarrow> bool" and I E :: "'b running_scheme \<Rightarrow> bool"
  assumes acts: "list_all (\<lambda>a. \<not> is_pay a \<and> \<not> is_write a) as \<Longrightarrow> I n \<Longrightarrow> I (n\<lparr>trace := trace n @ as\<rparr>)"
    and dies: "I n \<Longrightarrow> E n"
    and inp: "I n \<Longrightarrow> I (n\<lparr>stdin := rest\<rparr>)"
    and commands: "keeps I E (command S line w ws)"
    and events: "allowed e \<Longrightarrow> keeps I E (handle_ldk_events S R net e)"
    and refreshes: "keeps I E (poll_once R)"
begin

lemma keeps_talk: "trace_only m \<Longrightarrow> keeps I E m"
  by (erule keeps_trace_only) (simp_all add: acts dies)

lemma keeps_activity:
  assumes "\<And>e. a = HandleEvent e \<Longrightarrow> allowed e"
  shows "keeps I E (run_activity S R args a)"
proof (cases a)
  case ReadCommand
  show ?thesis
    unfolding ReadCommand run_activity.simps
    by (intro keeps_bind keeps_ret keeps_read_command commands keeps_talk inp)
next
  case (HandleEvent e)
  show ?thesis unfolding HandleEvent run_activity.simps by (intro keeps_then events keeps_ret assms HandleEvent)
next
  case RefreshFees
  show ?thesis unfolding RefreshFees run_activity.simps by (intro keeps_then refreshes keeps_ret)
qed (simp_all add: keeps_talk trace_only_intros)

lemma keeps_schedule:
  assumes "\<And>e. HandleEvent e \<in> set as \<Longrightarrow> allowed e"
  shows "keeps I E (run_schedule S R args cli as)"
  using assms
proof (induction as arbitrary: cli)
  case (Cons a as)
  have "keeps I E (run_activity S R args a)"
    by (rule keeps_activity) (use Cons.prems in auto)
  moreover
  have "keeps I E (case r of Going \<Rightarrow> run_schedule S R args cli as
      | CliWaiting \<Rightarrow> run_schedule S R args False as | Ended bg_res \<Rightarrow> ret (Some bg_res))" for r
    using Cons.prems by (cases r) (simp_all add: Cons.IH keeps_ret)
  ultimately show ?case
    using Cons.prems by (auto intro!: keeps_bind Cons.IH)
qed (simp add: keeps_ret)

end

text \<open>
  The invariant of the running node. The parts on the payments need that an encoded map reads back.
\<close>

definition node_ok :: "'l ldk_scheme \<Rightarrow> 'b node_scheme \<Rightarrow> bool" where
  "node_ok L n \<longleftrightarrow> (codec_ok L \<longrightarrow> logged L n) \<and> (codec_ok L \<longrightarrow> synced L n) \<and> fees_ok (fees n)"

definition node_dead_ok :: "'l ldk_scheme \<Rightarrow> 'b node_scheme \<Rightarrow> bool" where
  "node_dead_ok L n \<longleftrightarrow> (codec_ok L \<longrightarrow> logged L n)"

lemma keeps_node_ok:
  assumes "codec_ok L \<Longrightarrow> keeps (logged L) (logged L) m"
    and "codec_ok L \<Longrightarrow> keeps (synced L) (\<lambda>_. True) m"
    and "keeps (\<lambda>s. fees_ok (fees s)) (\<lambda>_. True) m"
  shows "keeps (node_ok L) (node_dead_ok L) m"
  using keeps_conj [OF keeps_imp [OF assms(1)] keeps_conj [OF keeps_imp [OF assms(2)] assms(3)]]
  by (simp add: node_ok_def [abs_def] node_dead_ok_def [abs_def])

text \<open>Refreshing the fees, for what does not depend on them.\<close>

lemma trace_only_smart_fee [trace_only_intros]: "trace_only (smart_fee R t mode dflt)"
  unfolding smart_fee_def by (intro trace_only_intros)

lemma keeps_poll_once:
  assumes acts: "\<And>n as. list_all (\<lambda>a. \<not> is_pay a \<and> \<not> is_write a) as \<Longrightarrow> I n \<Longrightarrow> I (n\<lparr>trace := trace n @ as\<rparr>)"
    and dies: "\<And>n. I n \<Longrightarrow> E n"
    and fee: "\<And>n f. I n \<Longrightarrow> I (n\<lparr>fees := f\<rparr>)"
  shows "keeps I E (poll_once R)"
proof -
  have talk: "keeps I E m" if "trace_only m" for m :: "('a client_state_scheme, 'c) prog"
    using that by (rule keeps_trace_only) (simp_all add: acts dies)
  have talk': "keeps I E m" if "trace_only m" for m :: "('a client_state_scheme, unit) prog"
    using that by (rule keeps_trace_only) (simp_all add: acts dies)
  have resp: "keeps I E m" if "trace_only m" for m :: "('a client_state_scheme, io_error + fee_response) prog"
    using that by (rule keeps_trace_only) (simp_all add: acts dies)
  have est: "keeps I E m" if "trace_only m" for m :: "('a client_state_scheme, u32) prog"
    using that by (rule keeps_trace_only) (simp_all add: acts dies)
  have store: "keeps I E (store_fee t m)" if "keeps I E m" for t m
    unfolding store_fee_def by (intro keeps_intros keeps_modify that fee dies)
  show ?thesis
    unfolding poll_once_def
    by (intro keeps_bind keeps_then store est talk' resp; (intro trace_only_intros | simp add: sub_u32_def trace_only_intros)?) simp_all
qed

lemma keeps_node_poll: "keeps (node_ok L) (node_dead_ok L) (poll_once R)"
  by (rule keeps_node_ok; (rule keeps_fees_poll)?; rule keeps_poll_once)
    (auto simp: logged_def synced_def pay_logged_append list_all_iff)

lemma keeps_node_command: "keeps (node_ok L) (node_dead_ok L) (command L line w ws)"
  by (intro keeps_node_ok keeps_command_logged keeps_command_synced fees.keeps_command)

lemma keeps_node_event: "keeps (node_ok L) (node_dead_ok L) (handle_ldk_events L R net e :: ('b cli_node_scheme, unit) prog)"
  by (intro keeps_node_ok logged.keeps_event keeps_event_synced fees.keeps_event)

interpretation node: node_invariant S R "\<lambda>_. True" "node_ok S" "node_dead_ok S" for S R
proof unfold_locales
  show "node_ok S (n\<lparr>trace := trace n @ as\<rparr>)"
    if "list_all (\<lambda>a. \<not> is_pay a \<and> \<not> is_write a) as" "node_ok S n" for as n
    using that by (auto simp: node_ok_def logged_def synced_def pay_logged_append list_all_iff)
  show "node_dead_ok S n" if "node_ok S n" for n
    using that by (simp add: node_ok_def node_dead_ok_def)
  show "node_ok S (n\<lparr>stdin := rest\<rparr>)" if "node_ok S n" for n rest
    using that by (simp add: node_ok_def logged_def synced_def)
qed (rule keeps_node_command keeps_node_event keeps_node_poll)+

section \<open>Starting the node\<close>

lemma wp_anywhere:
  assumes "\<And>x t. wp (f x) Q (\<lambda>_ _. True) t"
  shows "wp (bindP m f) Q (\<lambda>_ _. True) s"
  unfolding wp_bind by (auto simp: wp_def [of m] assms split: prod.splits outcome.splits)

lemma wp_anywhere_then:
  assumes "\<And>t. wp n Q (\<lambda>_ _. True) t"
  shows "wp (thenP m n) Q (\<lambda>_ _. True) s"
  unfolding thenP_def using assms by (rule wp_anywhere)

lemma wp_anywhere_cases:
  "(\<And>e. wp (g e) Q E s) \<Longrightarrow> (\<And>v. wp (f v) Q E s) \<Longrightarrow> wp (case x of Inl e \<Rightarrow> g e | Inr v \<Rightarrow> f v) Q E s"
  "wp m Q E s \<Longrightarrow> (\<And>v. wp (f' v) Q E s) \<Longrightarrow> wp (case y of None \<Rightarrow> m | Some v \<Rightarrow> f' v) Q E s"
  "wp m Q E s \<Longrightarrow> wp n Q E s \<Longrightarrow> wp (if b then m else n) Q E s"
  by (cases x; simp) (cases y; simp)+

lemma keeps_client_new:
  assumes acts: "\<And>n as. list_all (\<lambda>a. \<not> is_pay a \<and> \<not> is_write a) as \<Longrightarrow> I n \<Longrightarrow> I (n\<lparr>trace := trace n @ as\<rparr>)"
    and dies: "\<And>n. I n \<Longrightarrow> E n"
    and fee: "\<And>n. I n \<Longrightarrow> I (n\<lparr>fees := initial_fees\<rparr>)"
  shows "keeps I E (client_new R h p u pw net)"
proof -
  have talk: "keeps I E m" if "trace_only m" for m :: "('a client_state_scheme, io_error + blockchain_info) prog"
    using that by (rule keeps_trace_only) (simp_all add: acts dies)
  have emits: "keeps I E m" if "trace_only m" for m :: "('a client_state_scheme, unit) prog"
    using that by (rule keeps_trace_only) (simp_all add: acts dies)
  show ?thesis
    unfolding client_new_def
    by (intro keeps_bind keeps_case_sum keeps_then keeps_ret talk emits keeps_modify fee trace_only_intros) simp_all
qed

lemma wp_client_new_fees:
  "wp (client_new R h p u pw net)
     (\<lambda>r s. case r of Inl _ \<Rightarrow> True | Inr _ \<Rightarrow> fees_ok (fees s)) (\<lambda>_ _. True) s"
  by (simp add: client_new_def wp_simps blockchain_info_of_def fees_ok_initial Let_def split: sum.splits option.splits)

text \<open>The seed and the payments touch only what the frame allows.\<close>

context frame
begin

lemma is_base: "base_frame I E ok"
  by (rule base_frame_axioms)

lemma keeps_seed: "keeps I E (keys_seed S path)"
  unfolding keys_seed_def
  by (intro keeps_intros keeps_basic keeps_action dies keeps_talk trace_only_intros ok_talk) simp_all

lemma keeps_load_payments: "keeps I E (load_payments S)"
proof -
  have "keeps I E (reconcile_entry ids x)" for ids x
    unfolding reconcile_entry_def by (rule keeps_intros keeps_outbound)+
  moreover have "keeps I E (modify (\<lambda>n. n\<lparr>inbound := f n, outbound := g n\<rparr>))" for f g
    by (rule keeps_modify) (simp add: inb outb)
  ultimately show ?thesis
    unfolding load_payments_def
    by (intro keeps_intros keeps_basic keeps_storage)
qed

lemma keeps_spawn_tasks: "keeps I E (spawn_tasks S)"
  unfolding spawn_tasks_def
  by (intro keeps_then keeps_load_payments keeps_talk trace_only_intros) simp_all

end

lemma keeps_start_node:
  fixes I E :: "'b cli_node_scheme \<Rightarrow> bool"
  assumes "frame I E okay" and fee: "\<And>n. I n \<Longrightarrow> I (n\<lparr>fees := initial_fees\<rparr>)"
  shows "keeps I E (start_node S R)"
proof -
  note base = frame.is_base [OF assms(1)]
  have client: "keeps I E (client_new R h p u pw net)" for h p u pw net
    by (rule keeps_client_new)
      (simp_all add: base_frame.acts [OF base] base_frame.dies [OF base] fee)
  show ?thesis
    unfolding start_node_def Let_def
    by (intro keeps_intros client frame.keeps_seed [OF assms(1)] frame.keeps_spawn_tasks [OF assms(1)]
      base_frame.keeps_talk [OF base] trace_only_intros)
qed

lemma start_node_logged: "keeps (logged S) (logged S) (start_node S R :: ('b cli_node_scheme, _) prog)"
  by (rule keeps_start_node [OF logged.frame_axioms]) (simp add: logged_def)

lemma load_payments_syncs: "codec_ok S \<Longrightarrow> wp (load_payments S) (\<lambda>_. synced S) (\<lambda>_ _. True) n"
  unfolding load_payments_def
  by (intro wp_anywhere_then wp_anywhere write_outbound_syncs)

lemma keeps_then_wp: "wp m (\<lambda>_. I) (\<lambda>_ _. True) s \<Longrightarrow> keeps I (\<lambda>_. True) n \<Longrightarrow> wp (thenP m n) (\<lambda>_. I) (\<lambda>_ _. True) s"
  unfolding wp_then by (erule wp_mono) (auto intro: keeps_wp)

lemma spawn_tasks_syncs: "codec_ok S \<Longrightarrow> wp (spawn_tasks S) (\<lambda>_. synced S) (\<lambda>_ _. True) n"
  unfolding spawn_tasks_def
  by (intro wp_anywhere_then keeps_then_wp load_payments_syncs keeps_then synced_trace_only trace_only_intros)
    simp_all

lemma wp_spawned:
  "(\<And>t. wp m (\<lambda>_. I) (\<lambda>_ _. True) t) \<Longrightarrow> wp (thenP m (ret (Some x))) (\<lambda>r n'. r \<noteq> None \<longrightarrow> I n') (\<lambda>_ _. True) n"
  by (simp add: wp_then wp_ret)

text \<open>When the node has started the invariant holds.\<close>

lemma start_node_syncs:
  assumes "codec_ok S"
  shows "wp (start_node S R) (\<lambda>r n'. r \<noteq> None \<longrightarrow> synced S n') (\<lambda>_ _. True) n"
proof -
  have none: "wp (ret None) (\<lambda>r n'. r \<noteq> None \<longrightarrow> synced S n') (\<lambda>_ _. True) t" for t
    by (simp add: wp_ret)
  show ?thesis
    unfolding start_node_def Let_def
    by (intro wp_anywhere wp_anywhere_then wp_anywhere_cases none spawn_tasks_syncs assms
      wp_spawned [OF spawn_tasks_syncs])
qed

abbreviation fees_if_started :: "'a option \<Rightarrow> 'b client_state_scheme \<Rightarrow> bool" where
  "fees_if_started r n \<equiv> r \<noteq> None \<longrightarrow> fees_ok (fees n)"

lemma wp_client_new_then:
  assumes "\<And>e t. wp (g e) fees_if_started (\<lambda>_ _. True) t"
    and "\<And>v. keeps (\<lambda>s. fees_ok (fees s)) (\<lambda>_. True) (f v)"
  shows "wp (bindP (client_new R h p u pw net) (\<lambda>r. case r of Inl e \<Rightarrow> g e | Inr v \<Rightarrow> f v))
    fees_if_started (\<lambda>_ _. True) t"
proof (rule wp_seq [OF wp_client_new_fees])
  fix x :: "string + client" and s :: "'a client_state_scheme"
  assume "case x of Inl _ \<Rightarrow> True | Inr _ \<Rightarrow> fees_ok (fees s)"
  then show "wp (case x of Inl e \<Rightarrow> g e | Inr v \<Rightarrow> f v) fees_if_started (\<lambda>_ _. True) s"
    by (cases x; simp only: sum.case) (rule assms(1), rule wp_mono [OF keeps_wp [OF assms(2)]], simp_all)
qed

lemma wp_refused: "wp (ret None) fees_if_started (\<lambda>_ _. True) t"
  by (simp add: wp_ret)

lemma start_node_fees:
  "wp (start_node S R) fees_if_started (\<lambda>_ _. True) (n :: 'b cli_node_scheme)"
  unfolding start_node_def Let_def
  by (rule wp_client_new_then wp_refused wp_anywhere wp_anywhere_then wp_anywhere_cases keeps_intros
      fees.keeps_seed fees.keeps_spawn_tasks TrueI fees.keeps_talk trace_only_intros)+

lemma start_node_ok:
  fixes n :: "'b cli_node_scheme"
  assumes "codec_ok S \<Longrightarrow> logged S n" and "start_node S R n = (Val (Some args), n')"
  shows "node_ok S n'"
  using start_node_fees [of S R n] start_node_syncs [of S R n] keeps_Val [OF start_node_logged _ assms(2)] assms
  by (auto simp: node_ok_def wp_def)

section \<open>The node as a transition system\<close>

text \<open>
  A state of the running node, with whether its command line still reads commands; a step is one
  activity after which the node goes on.
\<close>

inductive node_step ::
  "'l start_lib_scheme \<Rightarrow> ('j, 'r) rpc_lib_scheme \<Rightarrow> ldk_user_info \<Rightarrow>
   bool \<times> 'b running_scheme \<Rightarrow> bool \<times> 'b running_scheme \<Rightarrow> bool"
  for S :: "'l start_lib_scheme" and R :: "('j, 'r) rpc_lib_scheme" and args where
  step_on: "(a = ReadCommand \<longrightarrow> cli) \<Longrightarrow> run_activity S R args a n = (Val Going, n') \<Longrightarrow>
     node_step S R args (cli, n) (cli, n')"
| step_wait: "(a = ReadCommand \<longrightarrow> cli) \<Longrightarrow> run_activity S R args a n = (Val CliWaiting, n') \<Longrightarrow>
     node_step S R args (cli, n) (False, n')"

inductive_cases node_stepE: "node_step S R args s t"

definition started ::
  "'l start_lib_scheme \<Rightarrow> ('j, 'r) rpc_lib_scheme \<Rightarrow> ldk_user_info \<Rightarrow> bool \<times> 'b running_scheme \<Rightarrow> bool" where
  "started S R args s \<longleftrightarrow>
     (\<exists>n0 n1. trace n0 = [] \<and> start_node S R n0 = (Val (Some args), n1) \<and> greeting S n1 = (Val (), snd s))"

interpretation reached: invariant_system "started S R args" "node_step S R args" "\<lambda>s. node_ok S (snd s)"
  for S R args
proof unfold_locales
  fix s assume "started S R args s"
  then obtain n0 n1 where n: "trace n0 = []" "start_node S R n0 = (Val (Some args), n1)" "greeting S n1 = (Val (), snd s)"
    by (auto simp: started_def)
  have "node_ok S n1" using n by (intro start_node_ok [of S n0 R]) (simp_all add: logged_def)
  then show "node_ok S (snd s)"
    by (rule keeps_Val [OF node.keeps_talk [OF trace_only_ticks(6)] _ n(3)])
next
  fix s t assume "node_ok S (snd s)" "node_step S R args s t"
  then show "node_ok S (snd t)"
    by (auto elim!: node_stepE dest: keeps_Val [OF node.keeps_activity [OF TrueI]])
qed

text \<open>A schedule that leaves the node running is a sequence of steps.\<close>

lemma schedule_steps:
  "run_schedule S R args cli as n = (Val None, n') \<Longrightarrow>
   \<exists>cli'. (node_step S R args)\<^sup>*\<^sup>* (cli, n) (cli', n')"
proof (induction as arbitrary: cli n)
  case (Cons a as)
  show ?case
  proof (cases "a = ReadCommand \<and> \<not> cli")
    case False
    with Cons.prems have "bindP (run_activity S R args a) (\<lambda>r. case r of
          Going \<Rightarrow> run_schedule S R args cli as | CliWaiting \<Rightarrow> run_schedule S R args False as
        | Ended bg_res \<Rightarrow> ret (Some bg_res)) n = (Val None, n')"
      by simp
    then obtain r n1 where r: "run_activity S R args a n = (Val r, n1)"
      and rest: "(case r of Going \<Rightarrow> run_schedule S R args cli as | CliWaiting \<Rightarrow> run_schedule S R args False as
        | Ended bg_res \<Rightarrow> ret (Some bg_res)) n1 = (Val None, n')"
      by (cases rule: bindP_cases) auto
    show ?thesis
    proof (cases r)
      case Going
      with r False have "node_step S R args (cli, n) (cli, n1)" by (auto intro: step_on)
      with Cons.IH rest Going show ?thesis by (fastforce intro: converse_rtranclp_into_rtranclp)
    next
      case CliWaiting
      with r False have "node_step S R args (cli, n) (False, n1)" by (auto intro: step_wait)
      with Cons.IH rest CliWaiting show ?thesis by (fastforce intro: converse_rtranclp_into_rtranclp)
    next
      case (Ended bg)
      with rest show ?thesis by (simp add: run_simps)
    qed
  qed (use Cons in simp)
qed (auto simp: run_simps)

end
