(* ===== verification/System_Properties.thy ===== *)
theory System_Properties
  imports Node_Properties
begin

text \<open>
  The properties of the whole program (\<open>start_ldk\<close> of \<open>src/main.rs\<close>) under a schedule of whole commands,
  events and ticks, from an empty trace and whatever is on disk: payments are recorded first, and the
  statuses of the payments follow a ledger. What holds between the steps of a command is in
  \<open>Interleaving_Properties\<close> and \<open>Concurrent_Node\<close>.
\<close>

section \<open>A node for examples\<close>

definition sample_argv :: "string list" where
  "sample_argv = [''ldk-sample'', ''alice:pw@localhost:18443'', ''dir'', ''9735'', ''regtest'', ''node'']"

definition sample_start_lib :: start_lib where
  "sample_start_lib = event_lib.extend sample_events
     \<lparr>environment = sample_env sample_argv, dir_ok = (\<lambda>h. True), clock = (\<lambda>h. Inr 1700000000),
      file_readable = (\<lambda>h. True), create_file = (\<lambda>h. Inr ()), write_seed_ok = (\<lambda>h. True),
      random_seed = (\<lambda>h. replicate 32 7), read_monitors = (\<lambda>h. Inr [[4]]), best_header = (\<lambda>h. Inr ()),
      read_manager = (\<lambda>b c ms. True), stored_sweeper = (\<lambda>h. SweeperNotFound), read_sweeper = (\<lambda>b. True),
      synchronize = (\<lambda>h. Inr ()), load_monitor = (\<lambda>h. True), recent_payments = (\<lambda>h. []),
      bind_ok = (\<lambda>h. True), accept_stream = (\<lambda>h. Inr ()), poll_tip = (\<lambda>h. Inr ()), encode_manager = (\<lambda>h. [1]),
      exit_closed = (\<lambda>h. False), send_exit = (\<lambda>h. True), background_end = (\<lambda>h. Inr (Inr ()))\<rparr>"

lemmas sample_start_lib_defs = sample_start_lib_def event_lib.extend_def sample_events_def

lemma sample_start_lib_ok: "codec_ok sample_start_lib" "iter_ok sample_start_lib"
proof -
  show "codec_ok sample_start_lib" by (simp add: codec_ok_def sample_start_lib_defs)
  have "iter sample_start_lib = iter sample_events" by (simp add: sample_start_lib_defs)
  then show "iter_ok sample_start_lib" using sample_events_ok(2) by (simp add: iter_ok_def)
qed

definition sample_boot :: "stdin_item list \<Rightarrow> (kv_key \<Rightarrow> bytes option) \<Rightarrow> running" where
  "sample_boot ls st = \<lparr>trace = [], fees = Map.empty, inbound = fmempty, outbound = fmempty, store = st,
     stdin = ls, stop_listen_connect = False\<rparr>"

lemma sample_args:
  "\<exists>info. parse_startup_args (environment sample_start_lib) (n :: running) = (Val (Inr info), n)
     \<and> user_network info = Regtest"
  using documented_args [of "sample_env sample_argv" "''ldk-sample''" "''alice''" "''pw''" "''localhost''" 18443
       "''dir''" 9735 Regtest "''node''" "[]" "[]" n]
  by (auto simp: sample_env_def sample_ports sample_argv_def sample_start_lib_defs)

lemma sample_lib_answers [simp]:
  "dir_ok sample_start_lib h" "clock sample_start_lib h = Inr 1700000000" "file_readable sample_start_lib h"
  "create_file sample_start_lib h = Inr ()" "write_seed_ok sample_start_lib h"
  "random_seed sample_start_lib h = replicate 32 7" "read_monitors sample_start_lib h = Inr [[4]]"
  "best_header sample_start_lib h = Inr ()" "read_manager sample_start_lib b c ms"
  "stored_sweeper sample_start_lib h = SweeperNotFound" "synchronize sample_start_lib h = Inr ()"
  "load_monitor sample_start_lib h" "recent_payments sample_start_lib h = []"
  "kv_write_ok sample_start_lib h" "exit_closed sample_start_lib h = False"
  "send_exit sample_start_lib h" "background_end sample_start_lib h = Inr (Inr ())"
  "encode_manager sample_start_lib h = [1]" "environment sample_start_lib = sample_env sample_argv"
  "iter sample_start_lib h = sample_iter"
  by (simp_all add: sample_start_lib_defs)

lemma sample_client:
  "length (trace n) < 10 \<Longrightarrow> \<exists>c. client_new sample_rpc ho po u pw net n =
     (Val (Inr c), n\<lparr>fees := initial_fees,
        trace := trace n @ [Rpc ''getblockchaininfo'' [], Spawn ''poll_for_fee_estimates'']\<rparr>)"
  by (simp add: client_new_def run_call_method run_simps Let_def blockchain_info_of_def sample_defs)

lemma sample_chain:
  "length (trace n) < 10 \<Longrightarrow>
   check_chain sample_rpc Regtest n = (Val True, n\<lparr>trace := trace n @ [Rpc ''getblockchaininfo'' []]\<rparr>)"
  by (simp add: check_chain_def get_blockchain_info_def run_call_method run_simps Let_def
      blockchain_info_of_def sample_defs)

lemma sample_seed:
  fixes n :: "'b node_scheme"
  assumes "kv_get (store n) seed_key = None"
  shows "keys_seed sample_start_lib path n = (Val (Some (replicate 32 7)),
     n\<lparr>store := kv_put seed_key (replicate 32 7) (kv_put seed_key [] (store n)),
       trace := trace n @ [Query, RandomBytes, Query, Query]\<rparr>)"
  using assms by (simp add: keys_seed_def run_simps)

lemma sample_manager:
  "kv_get (store n) manager_key = None \<Longrightarrow>
   channel_manager sample_start_lib ms n = (Val False, n\<lparr>trace := trace n @ [Query]\<rparr>)"
  by (simp add: channel_manager_def bindP_def thenP_def run_simps)

lemma sample_sweeper: "output_sweeper sample_start_lib n = (Val (), n\<lparr>trace := trace n @ [Query]\<rparr>)"
  by (simp add: output_sweeper_def run_simps)

lemma sample_restore:
  fixes n :: "'b node_scheme"
  assumes "kv_get (store n) manager_key = None"
  shows "restore_node sample_start_lib n = (Val (), n\<lparr>trace := trace n @ [Query, Query, Query, Query]\<rparr>)"
  using assms
  by (simp add: restore_node_def sample_manager sample_sweeper sync_and_load_def bindP_def thenP_def run_simps)

lemma sample_spawn:
  fixes n :: "'b cli_node_scheme"
  assumes "kv_get (store n) outbound_key = None"
  shows "\<exists>n'. spawn_tasks sample_start_lib n = (Val (), n') \<and> stdin n' = stdin n \<and> outbound n' = fmempty"
proof -
  have "sample_iter fmempty = []" by (simp add: sample_iter_def sorted_list_of_fset.rep_eq)
  then have "wp (spawn_tasks sample_start_lib) (\<lambda>_ n'. stdin n' = stdin n \<and> outbound n' = fmempty) (\<lambda>_ _. False) n"
    using assms
    by (simp add: spawn_tasks_def load_payments_def read_outbound_payment_info_def wp_simps Let_def)
  then show ?thesis by (auto dest: wp_no_panic)
qed

lemma sample_start_node:
  "\<exists>info n. start_node sample_start_lib sample_rpc (sample_boot ls Map.empty) = (Val (Some info), n)
     \<and> stdin n = ls \<and> outbound n = fmempty"
proof -
  obtain info where info: "parse_startup_args (sample_env sample_argv) (sample_boot ls Map.empty) =
      (Val (Inr info), sample_boot ls Map.empty)" "user_network info = Regtest"
    using sample_args [of "sample_boot ls Map.empty"] by auto
  define n1 where "n1 = (sample_boot ls Map.empty)\<lparr>trace := [Query, Query]\<rparr>"
  obtain c where c: "client_new sample_rpc (bitcoind_rpc_host info) (bitcoind_rpc_port info)
      (bitcoind_rpc_username info) (bitcoind_rpc_password info) Regtest n1 = (Val (Inr c), n1\<lparr>fees := initial_fees,
        trace := trace n1 @ [Rpc ''getblockchaininfo'' [], Spawn ''poll_for_fee_estimates'']\<rparr>)"
    using sample_client [of n1 "bitcoind_rpc_host info" "bitcoind_rpc_port info" "bitcoind_rpc_username info"
      "bitcoind_rpc_password info" Regtest]
    by (auto simp: n1_def)
  have k: "kv_get Map.empty k = None" for k :: kv_key by (simp add: kv_get_def)
  have keys: "seed_key \<noteq> manager_key" "seed_key \<noteq> outbound_key"
    by (simp_all add: seed_key_def manager_key_def outbound_key_def OUTBOUND_PAYMENTS_FNAME_def)
  define n2 where "n2 = n1\<lparr>fees := initial_fees, trace := trace n1 @ [Rpc ''getblockchaininfo'' [],
    Spawn ''poll_for_fee_estimates'', Rpc ''getblockchaininfo'' [], Query, RandomBytes, Query, Query, Query],
    store := kv_put seed_key (replicate 32 7) (kv_put seed_key [] Map.empty)\<rparr>"
  obtain as where as: "restore_node sample_start_lib n2 = (Val (), n2\<lparr>trace := trace n2 @ as\<rparr>)"
    using sample_restore [of n2] keys by (auto simp: n2_def n1_def kv.get_put_other k)
  obtain n3 where n3: "spawn_tasks sample_start_lib (n2\<lparr>trace := trace n2 @ as @ [Query]\<rparr>) = (Val (), n3)"
      "stdin n3 = ls" "outbound n3 = fmempty"
    using sample_spawn [of "n2\<lparr>trace := trace n2 @ as @ [Query]\<rparr>"] keys
    by (auto simp: n2_def n1_def sample_boot_def kv.get_put_other k)
  show ?thesis
    using info c as n3
    by (simp add: start_node_def bindP_def thenP_def run_simps sample_chain sample_seed check_def try_u32_def n1_def n2_def sample_boot_def k)
qed

section \<open>Payments and the store\<close>

lemma logged_shutdown: "keeps (logged L) (logged L) (shutdown S bg)"
proof -
  have "keeps (logged L) (logged L) (modify (\<lambda>n. n\<lparr>stop_listen_connect := True\<rparr>))"
    by (rule keeps_modify) (simp add: logged_def)
  then show ?thesis
    unfolding shutdown_def
    by (intro keeps_then keeps_case_sum keeps_bind keeps_gets keeps_panic logged.keeps_kv_write
        logged.keeps_talk [OF trace_only_emit] logged.keeps_talk [OF trace_only_ticks(5)]) simp_all
qed

lemma keeps_start_ldk_logged:
  fixes n :: "'b running_scheme"
  assumes "codec_ok S" and that: "logged S n"
  shows "wp (start_ldk S R schedule) (\<lambda>_. logged S) (\<lambda>_. logged S) n"
proof -
  have run: "wp (bindP (run_schedule S R args True schedule) (\<lambda>r. case r of
      None \<Rightarrow> ret StillRunning | Some bg_res \<Rightarrow> thenP (shutdown S bg_res) (ret Stopped)))
      (\<lambda>_. logged S) (\<lambda>_. logged S) t" if "node_ok S t" for args and t :: "'b running_scheme"
  proof (rule wp_seq)
    show "wp (run_schedule S R args True schedule) (\<lambda>_. node_ok S) (\<lambda>_. logged S) t"
      by (rule wp_mono [OF keeps_wp [OF node.keeps_schedule [OF TrueI] that]]) (simp_all add: node_dead_ok_def assms)
  next
    fix r :: "bg_result option" and u :: "'b running_scheme" assume "node_ok S u"
    then have u: "logged S u" by (simp add: node_ok_def assms)
    show "wp (case r of None \<Rightarrow> ret StillRunning | Some bg_res \<Rightarrow> thenP (shutdown S bg_res) (ret Stopped))
        (\<lambda>_. logged S) (\<lambda>_. logged S) u"
      by (rule keeps_wp [where I = "logged S" and E = "logged S"])
        (intro keeps_case_option keeps_then keeps_ret logged_shutdown, rule u)
  qed
  have start: "wp (start_node S R) (\<lambda>r t. logged S t \<and> (r \<noteq> None \<longrightarrow> node_ok S t)) (\<lambda>_. logged S) n"
    using keeps_wp [OF start_node_logged that, of R] start_node_ok [of S n R] that
    by (auto simp: wp_def split: prod.splits outcome.splits)
  show ?thesis
    unfolding start_ldk_def
  proof (rule wp_seq [OF start])
    fix r :: "ldk_user_info option" and t :: "'b running_scheme" assume t: "logged S t \<and> (r \<noteq> None \<longrightarrow> node_ok S t)"
    show "wp (case r of None \<Rightarrow> ret Refused | Some args \<Rightarrow> thenP (greeting S) (bindP (run_schedule S R args True schedule)
        (\<lambda>r. case r of None \<Rightarrow> ret StillRunning | Some bg_res \<Rightarrow> thenP (shutdown S bg_res) (ret Stopped))))
        (\<lambda>_. logged S) (\<lambda>_. logged S) t"
    proof (cases r)
      case (Some args)
      with t have "wp (greeting S) (\<lambda>_. node_ok S) (\<lambda>_. node_dead_ok S) t"
        by (intro keeps_wp [OF node.keeps_talk [OF trace_only_ticks(6)]]) simp
      then show ?thesis
        unfolding Some option.case wp_then
        by (rule wp_mono) (auto intro: run simp: node_dead_ok_def assms)
    qed (simp add: wp_ret t)
  qed
qed

text \<open>
  C1: whatever the node is asked to do and in whichever order, from its start to its end and also when it
  dies in the middle, every payment the channel manager is asked to make has at that moment a pending
  entry with its identifier in the last map of outgoing payments written to the store.
\<close>

theorem payments_recorded_first:
  assumes "codec_ok S" and "trace n = []"
  shows "pay_logged S (trace (snd (main S R schedule n)))"
proof -
  have "logged S (n\<lparr>trace := [SigAction ''SIGINT'']\<rparr>)"
    using pay_logged_other [of "SigAction ''SIGINT''" S "[]"] by (simp add: logged_def)
  from keeps_start_ldk_logged [OF assms(1) this, of R schedule] show ?thesis
    using assms(2)
    by (auto simp: main_def thenP_def bindP_def run_emit wp_def logged_def split: prod.splits outcome.splits)
qed

theorem payments_recorded_first_witness:
  "pay_logged sample_start_lib (trace (snd (main sample_start_lib sample_rpc
     [ReadCommand, HandleEvent (PaymentEvent (PaymentSent [5] [9] None (Some [9]))), ReadCommand]
     (sample_boot [Line ''sendpayment lnbc'', Line ''quit''] Map.empty))))"
  by (rule payments_recorded_first [OF sample_start_lib_ok(1)]) (simp add: sample_boot_def)

lemma sample_started:
  "\<exists>info n. started sample_start_lib sample_rpc info (True, n :: running) \<and> outbound n = fmempty"
proof -
  obtain info n where n: "start_node sample_start_lib sample_rpc (sample_boot [] Map.empty) = (Val (Some info), n)"
    "outbound n = fmempty"
    using sample_start_node by blast
  obtain n' where n': "greeting sample_start_lib n = (Val (), n')" "outbound n' = fmempty"
    using n(2) by (simp add: greeting_def run_simps)
  with n have "started sample_start_lib sample_rpc info (True, n')"
    by (simp only: started_def snd_conv)
      (intro exI [of _ "sample_boot [] Map.empty"] exI [of _ n], simp add: sample_boot_def)
  with n'(2) show ?thesis by blast
qed

section \<open>The whole node refines the ledger\<close>

text \<open>The ledger has moved from \<open>l\<close> by steps of which only those in \<open>A\<close> report a success.\<close>

definition follows :: "payment_id set \<Rightarrow> ledger \<Rightarrow> 'b node_scheme \<Rightarrow> bool" where
  "follows A l n \<longleftrightarrow> (\<exists>ops. ledger_of (outbound n) = fold ledger_step ops l \<and> (\<forall>i. Succeed i \<in> set ops \<longrightarrow> i \<in> A))"

lemma follows_refl: "follows A (ledger_of (outbound n)) n"
  by (auto simp: follows_def intro: exI [of _ "[]"])

lemma follows_more:
  assumes "follows A l n" and "ledger_of (outbound n') = fold ledger_step ops (ledger_of (outbound n))"
    and "\<And>i. Succeed i \<in> set ops \<Longrightarrow> i \<in> A"
  shows "follows A l n'"
proof -
  obtain ops0 where "ledger_of (outbound n) = fold ledger_step ops0 l" "\<forall>i. Succeed i \<in> set ops0 \<longrightarrow> i \<in> A"
    using assms(1) by (auto simp: follows_def)
  then show ?thesis
    unfolding follows_def by (intro exI [of _ "ops0 @ ops"]) (auto simp: assms(2,3))
qed

lemma follows_cong: "outbound n' = outbound n \<Longrightarrow> follows A l n' = follows A l n"
  by (simp add: follows_def)

interpretation ledger: command_frame "follows A l" "\<lambda>_. True" for A l
proof unfold_locales
  show "follows A l (n\<lparr>outbound := fmupd i info (outbound n)\<rparr>)"
    if "follows A l n" "status info = Pending" for n i info
    by (rule follows_more [OF that(1), of _ "[Start i]"]) (simp_all add: ledger_of_fmupd that(2))
  show "follows A l (n\<lparr>outbound := fmupd i (info\<lparr>status := Failed\<rparr>) (outbound n)\<rparr>)"
    if "follows A l n" "fmlookup (outbound n) i = Some info" for n i info
    by (rule follows_more [OF that(1), of _ "[Fail i]"])
      (simp_all add: ledger_of_fmupd ledger_of_def [of "outbound n"] that(2))
  show "keeps (follows A l) (\<lambda>_. True) (confirm amt)" for amt
    by (auto simp: keeps_def confirm_def wp_simps Let_def follows_def split: prod.splits)
qed (simp_all add: follows_def)

text \<open>The event reports a success only for a payment in \<open>A\<close>.\<close>

definition reports_in :: "payment_id set \<Rightarrow> event \<Rightarrow> bool" where
  "reports_in A e \<longleftrightarrow> (\<forall>p hash fee i. e = PaymentEvent (PaymentSent p hash fee (Some i)) \<longrightarrow> i \<in> A)"

lemma keeps_event_follows:
  assumes "iter_ok L" and "reports_in A e"
  shows "keeps (follows A l) (\<lambda>_. True) (handle_ldk_events L R net e :: ('b cli_node_scheme, unit) prog)"
proof (cases e)
  case (PaymentEvent pe)
  have "Succeed i \<in> set (event_ops pe) \<Longrightarrow> i \<in> A" for i
    using assms(2) by (cases pe rule: event_ops.cases) (auto simp: PaymentEvent reports_in_def)
  then show ?thesis
    unfolding PaymentEvent handle_ldk_events.simps
    by (intro keepsI wp_mono [OF wp_event_outbound [OF assms(1)]]) (auto intro: follows_more)
qed (simp_all add: ledger.keeps_talk trace_only_intros keeps_intros)

interpretation ledger_node: node_invariant S R "reports_in A" "\<lambda>n. iter_ok S \<longrightarrow> follows A l n" "\<lambda>_. True" for S R A l
proof unfold_locales
  show "keeps (\<lambda>n. iter_ok S \<longrightarrow> follows A l n) (\<lambda>_. True) (command S line w ws)" for line w ws
    using keeps_imp [OF ledger.keeps_command] by simp
  show "keeps (\<lambda>n. iter_ok S \<longrightarrow> follows A l n) (\<lambda>_. True)
      (handle_ldk_events S R net e :: (_ running_scheme, unit) prog)"
    if "reports_in A e" for net e
    by (rule keeps_imp [where E = "\<lambda>_. True", simplified]) (rule keeps_event_follows, assumption, rule that)
  show "keeps (\<lambda>n. iter_ok S \<longrightarrow> follows A l n) (\<lambda>_. True) (poll_once R)"
    by (rule keeps_poll_once) (simp_all add: follows_def)
qed (simp_all add: follows_def)

definition sample_info :: ldk_user_info where
  "sample_info = \<lparr>bitcoind_rpc_username = ''alice'', bitcoind_rpc_password = ''pw'', bitcoind_rpc_port = 18443,
     bitcoind_rpc_host = ''localhost'', ldk_storage_dir_path = ''dir'', ldk_peer_listening_port = 9735,
     ldk_announced_listen_addr = [], ldk_announced_node_name = replicate 32 0, user_network = Regtest\<rparr>"

text \<open>The payments that the events of a schedule report as successful.\<close>

definition sent_ids :: "activity list \<Rightarrow> payment_id set" where
  "sent_ids as = {i. \<exists>p hash fee. HandleEvent (PaymentEvent (PaymentSent p hash fee (Some i))) \<in> set as}"

text \<open>
  C3: a run of the node, by commands, events, refreshes and ticks in any order, does to the statuses of
  the outgoing payments what a sequence of steps of the ledger does: a payment starts as pending, ends
  as failed or succeeded, and no step makes a payment succeeded unless LDK reported that it succeeded.
\<close>

theorem node_refines_ledger:
  assumes "iter_ok S" and "run_schedule S R args cli as n = (Val r, n')"
  shows "\<exists>ops. ledger_of (outbound n') = fold ledger_step ops (ledger_of (outbound n))
    \<and> (\<forall>i. Succeed i \<in> set ops \<longrightarrow> i \<in> sent_ids as)"
proof -
  have "follows (sent_ids as) (ledger_of (outbound n)) n'"
    using keeps_Val [OF ledger_node.keeps_schedule [of as "sent_ids as"] _ assms(2), of "ledger_of (outbound n)"]
      assms(1) follows_refl
    by (auto simp: reports_in_def sent_ids_def)
  then show ?thesis by (simp add: follows_def)
qed

theorem node_refines_ledger_witness:
  "\<exists>n' ops. run_schedule sample_start_lib sample_rpc sample_info True
       [HandleEvent (PaymentEvent (PaymentFailed None None [9])), BackgroundExit (Inr (Inr ()))]
       ((sample_boot [] Map.empty)\<lparr>outbound := fmupd [9] (payment_entry (Some [3]) Pending 1000) fmempty\<rparr>)
     = (Val (Some (Inr (Inr ()))), n')
   \<and> ledger_of (outbound n') = fold ledger_step ops [[9] \<mapsto> Pending] \<and> (\<forall>i. Succeed i \<notin> set ops)"
proof -
  let ?n = "(sample_boot [] Map.empty)\<lparr>outbound := fmupd [9] (payment_entry (Some [3]) Pending 1000) fmempty\<rparr>"
  let ?as = "[HandleEvent (PaymentEvent (PaymentFailed None None [9])), BackgroundExit (Inr (Inr ()))]"
  have "wp (run_schedule sample_start_lib sample_rpc sample_info True ?as)
      (\<lambda>r _. r = Some (Inr (Inr ()))) (\<lambda>_ _. False) ?n"
    by (simp add: handle_failed_def wp_simps prompt_def Let_def)
  then obtain n' where n': "run_schedule sample_start_lib sample_rpc sample_info True ?as ?n =
      (Val (Some (Inr (Inr ()))), n')"
    by (auto dest: wp_no_panic)
  have "ledger_of (outbound ?n) = [[9] \<mapsto> Pending]"
    by (auto simp: ledger_of_def payment_entry_def)
  moreover have "sent_ids ?as = {}" by (simp add: sent_ids_def)
  ultimately show ?thesis
    using n' node_refines_ledger [OF sample_start_lib_ok(2) n'] by auto
qed

end
