(* ===== verification/Startup_Properties.thy ===== *)
theory Startup_Properties
  imports System_Properties
begin

text \<open>
  What starting and stopping the node do to the stored state: the payments left from an earlier run, the
  seed of the keys, the monitors of the channels, and the last attempt to store the channel manager.
\<close>

section \<open>Payments left from an earlier run\<close>

text \<open>The reference: a pending payment LDK no longer knows has failed.\<close>

definition reconciled :: "payment_id set \<Rightarrow> payments \<Rightarrow> payments" where
  "reconciled ids m =
    fmmap_keys (\<lambda>i e. if status e = Pending \<and> i \<notin> ids then e\<lparr>status := Failed\<rparr> else e) m"

lemma wp_reconcile_entry:
  "wp (reconcile_entry ids (k, e)) Q E n =
     (if status e = Pending \<and> k \<notin> set ids
      then Q () (n\<lparr>outbound := fmupd k (e\<lparr>status := Failed\<rparr>) (outbound n)\<rparr>) else Q () n)"
  by (simp add: reconcile_entry_def wp_simps)

definition reconciled_at :: "payment_id list \<Rightarrow> (bytes \<times> payment_info) list \<Rightarrow> payments \<Rightarrow> bytes \<Rightarrow> payment_info option" where
  "reconciled_at ids es m i =
    (case map_of es i of
       Some e \<Rightarrow> if status e = Pending \<and> i \<notin> set ids then Some (e\<lparr>status := Failed\<rparr>) else fmlookup m i
     | None \<Rightarrow> fmlookup m i)"

lemma reconcile_loop:
  fixes n :: "'b node_scheme"
  assumes "distinct (map fst es)"
  shows "wp (forP es (reconcile_entry ids))
    (\<lambda>_ n'. \<forall>i. fmlookup (outbound n') i = reconciled_at ids es (outbound n) i) (\<lambda>_ _. False) n"
  using assms
proof (induction es arbitrary: n)
  case (Cons x es)
  obtain k e where x: "x = (k, e)" by fastforce
  have k: "map_of es k = None" "distinct (map fst es)"
    using Cons.prems x by (auto simp: map_of_eq_None_iff)
  have step: "wp (forP es (reconcile_entry ids)) (\<lambda>_ n'. \<forall>i. fmlookup (outbound n') i = g i) (\<lambda>_ _. False) m"
    if "\<And>i. reconciled_at ids es (outbound m) i = g i" for g and m :: "'b node_scheme"
    by (rule wp_mono [OF Cons.IH [OF k(2)]]) (simp_all add: that)
  have "reconciled_at ids es (if status e = Pending \<and> k \<notin> set ids
      then fmupd k (e\<lparr>status := Failed\<rparr>) (outbound n) else outbound n) i
    = reconciled_at ids ((k, e) # es) (outbound n) i" for i
    using k(1) by (auto simp: reconciled_at_def split: option.split)
  then show ?case
    unfolding x forP.simps wp_then wp_reconcile_entry
    by (cases "status e = Pending \<and> k \<notin> set ids") (simp_all only: if_True if_False simp_thms, (rule step; simp)+)
qed (simp add: wp_ret reconciled_at_def)

lemma load_payments_reconciles:
  fixes n :: "'b node_scheme"
  assumes "codec_ok S" and "iter_ok S" and "\<And>h. kv_write_ok S h"
    and "kv_get (store n) outbound_key = Some b" and "dec S b = Some m"
  shows "\<exists>n'. load_payments S n = (Val (), n')
    \<and> outbound_written S (reconciled (recent_id ` set (recent_payments S (trace n))) m) n'"
proof -
  let ?ids = "recent_id ` set (recent_payments S (trace n))"
  have out: "read_outbound_payment_info S (kv_get (store n) outbound_key) = m"
    by (simp add: read_outbound_payment_info_def assms(4,5))
  have eq: "p = reconciled ?ids m"
    if "\<forall>i. fmlookup p i = reconciled_at (map recent_id (recent_payments S (trace n))) (iter S h m) m i" for p h
    by (rule fmap_ext) (simp add: that reconciled_def reconciled_at_def iter_map_of(2) [OF assms(2)] split: option.split)
  have "wp (load_payments S) (\<lambda>_. outbound_written S (reconciled ?ids m)) (\<lambda>_ _. False) n"
    unfolding load_payments_def wp_then wp_modify wp_bind wp_ask wp_gets
    by (simp add: out) (rule wp_mono [OF reconcile_loop [OF iter_map_of(1) [OF assms(2)]]],
      auto intro!: wp_write_outbound_written assms(1,3) intro: eq)
  then show ?thesis by (auto dest: wp_no_panic)
qed

text \<open>
  C16: at startup every outgoing payment that was stored as pending and that LDK no longer lists is marked
  as failed; every other entry is what was stored, and the result is on disk before the tasks that use it
  start.
\<close>

theorem lost_payments_fail:
  fixes n :: "'b node_scheme"
  assumes "codec_ok S" and "iter_ok S" and "\<And>h. kv_write_ok S h"
    and "kv_get (store n) outbound_key = Some b" and "dec S b = Some m"
  shows "\<exists>n'. load_payments S n = (Val (), n')
    \<and> outbound_written S (reconciled (recent_id ` set (recent_payments S (trace n))) m) n'"
  by (rule load_payments_reconciles [OF assms])

text \<open>
  A stored map of outgoing payments that does not decode is gone after the next start: the node goes
  on with no payments and overwrites the file with the empty map.
\<close>

lemma undecodable_payments_lost:
  fixes n :: "'b node_scheme"
  assumes "codec_ok S" and "iter_ok S" and "\<And>h. kv_write_ok S h"
    and "kv_get (store n) outbound_key = Some b" and "dec S b = None"
  shows "\<exists>n'. load_payments S n = (Val (), n') \<and> outbound_written S fmempty n'"
proof -
  have out: "read_outbound_payment_info S (kv_get (store n) outbound_key) = fmempty"
    by (simp add: read_outbound_payment_info_def assms(4,5))
  have "iter S h fmempty = []" for h
    using assms(2) by (auto simp: iter_ok_def dest!: spec [of _ h] spec [of _ fmempty])
  then have "wp (load_payments S) (\<lambda>_. outbound_written S fmempty) (\<lambda>_ _. False) n"
    unfolding load_payments_def wp_then wp_modify wp_bind wp_ask wp_gets
    by (simp add: out wp_ret) (rule wp_write_outbound_written; simp add: assms)
  then show ?thesis by (auto dest: wp_no_panic)
qed

definition sample_restart :: "bytes \<Rightarrow> running" where
  "sample_restart b = sample_boot [] (kv_put outbound_key b Map.empty)"

lemma sample_restart_store: "kv_get (store (sample_restart b)) outbound_key = Some b"
  by (simp add: sample_restart_def sample_boot_def kv.get_put)

theorem lost_payments_fail_witness:
  "\<exists>n' b. load_payments sample_start_lib
      (sample_restart (enc sample_start_lib [] (fmupd [9] (payment_entry None Pending 5) fmempty))) = (Val (), n')
    \<and> fmlookup (outbound n') [9] = Some (payment_entry None Failed 5)"
proof -
  let ?m = "fmupd [9] (payment_entry None Pending 5) fmempty"
  have "dec sample_start_lib (enc sample_start_lib [] ?m) = Some ?m"
    using sample_start_lib_ok(1) by (simp add: codec_ok_def)
  from lost_payments_fail [OF sample_start_lib_ok sample_lib_answers(14) sample_restart_store this]
  show ?thesis
    by (auto simp: outbound_written_def reconciled_def payment_entry_def)
qed

text \<open>A library whose decoder accepts nothing that was not written by this program.\<close>

definition sample_strict :: start_lib where
  "sample_strict = sample_start_lib\<lparr>enc := (\<lambda>h m. 1 # replicate (to_nat m) 0),
     dec := (\<lambda>b. case b of [] \<Rightarrow> None | x # xs \<Rightarrow> if x = 1 then Some (from_nat (length xs)) else None)\<rparr>"

section \<open>The seed of the keys\<close>

text \<open>
  C18: the seed survives restarts: once a start of the node has a seed, a later start that finds the file
  as it was left and can read it has the same seed; a seed has 32 bytes.
\<close>

theorem seed_survives_restart:
  fixes n :: "'b node_scheme" and m :: "'c node_scheme"
  assumes "\<And>h. length (random_seed S h) = 32"
    and "keys_seed S path n = (Val (Some k), n')"
    and "kv_get (store m) seed_key = kv_get (store n') seed_key" and "file_readable S' (trace m)"
  shows "length k = 32 \<and> keys_seed S' path' m = (Val (Some k), m\<lparr>trace := trace m @ [Query]\<rparr>)"
proof -
  have "wp (keys_seed S path) (\<lambda>r n'. \<forall>k. r = Some k \<longrightarrow> length k = 32 \<and> kv_get (store n') seed_key = Some k)
      (\<lambda>_ _. True) n"
    by (auto simp: keys_seed_def wp_simps kv.get_put assms(1) split: option.split sum.split)
  then have "length k = 32 \<and> kv_get (store n') seed_key = Some k"
    using assms(2) by (simp add: wp_def)
  then show ?thesis
    using assms(3,4) by (simp add: keys_seed_def bindP_def thenP_def assertP_def run_simps)
qed

text \<open>
  A seed file that exists but cannot be read is replaced: the node makes a new seed and overwrites
  the file, and the old seed, from which every key of the node was derived, is gone.
\<close>

lemma unreadable_seed_replaced:
  fixes n :: "'b node_scheme"
  assumes "kv_get (store n) seed_key = Some old" and "\<not> file_readable S (trace n)"
    and "create_file S (trace n @ [Query, RandomBytes]) = Inr ()"
    and "write_seed_ok S (trace n @ [Query, RandomBytes, Query])"
  shows "\<exists>n'. keys_seed S path n = (Val (Some (random_seed S (trace n @ [Query]))), n')
    \<and> kv_get (store n') seed_key = Some (random_seed S (trace n @ [Query]))"
  using assms by (simp add: keys_seed_def bindP_def thenP_def run_simps kv.get_put)

definition sample_seeded :: running where
  "sample_seeded = sample_boot [] (kv_put seed_key (replicate 32 1) Map.empty)"

theorem seed_survives_restart_witness:
  "\<exists>m'. keys_seed sample_start_lib ''seed'' sample_seeded = (Val (Some (replicate 32 1)), m')"
proof -
  have "keys_seed sample_start_lib ''seed'' sample_seeded =
      (Val (Some (replicate 32 1)), sample_seeded\<lparr>trace := [Query]\<rparr>)"
    by (simp add: keys_seed_def bindP_def thenP_def assertP_def run_simps sample_seeded_def kv.get_put sample_boot_def)
  from seed_survives_restart [OF _ this, of sample_seeded sample_start_lib] show ?thesis
    by (simp add: sample_seeded_def sample_boot_def)
qed

section \<open>Only on the chain of the arguments\<close>

text \<open>Bitcoind has answered that it is on the chain of the network.\<close>

definition on_chain :: "('j, 'r) rpc_lib_scheme \<Rightarrow> network \<Rightarrow> bool" where
  "on_chain R net \<longleftrightarrow> (\<exists>h j. rpc R h ''getblockchaininfo'' [] = Inr j
     \<and> j_as_str (json R) (j_index (json R) j ''chain'') = Some (chain_name net))"

lemma wp_check_chain: "wp (check_chain R net) (\<lambda>r _. r \<longrightarrow> on_chain R net) (\<lambda>_ _. True) t"
  by (auto simp: on_chain_def check_chain_def get_blockchain_info_def wp_simps blockchain_info_of_def Let_def
      split: sum.split option.split)

lemma returns_wp: "returns P m \<Longrightarrow> wp m (\<lambda>x _. P x) (\<lambda>_ _. True) t"
  by (auto simp: wp_def returns_def split: prod.split outcome.split)

lemma wp_chain_then:
  assumes "returns (\<lambda>r. r = None \<or> r = Some args) m"
  shows "wp (bindP (check_chain R (user_network args)) (\<lambda>b. if \<not> b then ret None else m))
    (\<lambda>r _. \<forall>a. r = Some a \<longrightarrow> on_chain R (user_network a)) (\<lambda>_ _. True) t"
  by (rule wp_seq [OF wp_check_chain])
    (auto simp: wp_ret intro: wp_mono [OF returns_wp [OF assms]])

lemma returns_any: "(\<And>x. returns P (f x)) \<Longrightarrow> returns P (bindP m f)"
  by (rule returns_bind [of "\<lambda>_. True"]) simp_all

lemma returns_case_option: "returns P m \<Longrightarrow> (\<And>v. returns P (f v)) \<Longrightarrow> returns P (case x of None \<Rightarrow> m | Some v \<Rightarrow> f v)"
  by (cases x) simp_all

text \<open>
  C14: a node gets as far as starting its tasks only where an answer of bitcoind to \<open>getblockchaininfo\<close>,
  at some history of the two, names the chain of the network the user chose.
\<close>

theorem runs_only_on_matching_chain:
  fixes n :: "'b cli_node_scheme"
  assumes "start_node S R n = (Val (Some args), n')"
  shows "\<exists>h j. rpc R h ''getblockchaininfo'' [] = Inr j
    \<and> j_as_str (json R) (j_index (json R) j ''chain'') = Some (chain_name (user_network args))"
proof -
  have none: "wp (ret None) (\<lambda>r _. \<forall>a. r = Some a \<longrightarrow> on_chain R (user_network a)) (\<lambda>_ _. True) t"
    for t :: "'b cli_node_scheme"
    by (simp add: wp_ret)
  have "wp (start_node S R) (\<lambda>r _. \<forall>a. r = Some a \<longrightarrow> on_chain R (user_network a)) (\<lambda>_ _. True) n"
    unfolding start_node_def Let_def
    by (rule wp_chain_then none wp_anywhere wp_anywhere_then wp_anywhere_cases returns_any returns_then
        returns_case_option | simp)+
  then show ?thesis using assms by (simp add: wp_def on_chain_def)
qed

theorem runs_only_on_matching_chain_witness:
  "\<exists>info n h j. start_node sample_start_lib sample_rpc (sample_boot [] Map.empty) = (Val (Some info), n)
    \<and> rpc sample_rpc h ''getblockchaininfo'' [] = Inr j
    \<and> j_as_str (json sample_rpc) (j_index (json sample_rpc) j ''chain'') = Some (chain_name (user_network info))"
proof -
  obtain info n where n: "start_node sample_start_lib sample_rpc (sample_boot [] Map.empty) = (Val (Some info), n)"
    using sample_start_node by blast
  from runs_only_on_matching_chain [OF n] n show ?thesis by blast
qed

section \<open>A refused start\<close>

definition store_is :: "(kv_key \<Rightarrow> bytes option) \<Rightarrow> 'b node_scheme \<Rightarrow> bool" where
  "store_is st n \<longleftrightarrow> store n = st"

lemma store_trace_only: "trace_only m \<Longrightarrow> keeps (store_is st) (\<lambda>_. True) m"
  by (erule keeps_trace_only) (simp_all add: store_is_def)

lemma store_client_new: "keeps (store_is st) (\<lambda>_. True) (client_new R h p u pw net)"
  by (rule keeps_client_new) (simp_all add: store_is_def)

text \<open>The store is as it was if the start is refused.\<close>

abbreviation refused_ok :: "(kv_key \<Rightarrow> bytes option) \<Rightarrow> 'a option \<Rightarrow> 'b node_scheme \<Rightarrow> bool" where
  "refused_ok st r n \<equiv> r = None \<longrightarrow> store_is st n"

lemma wp_seed_refused:
  "store_is st t \<Longrightarrow> wp (keys_seed S path) (refused_ok st) (\<lambda>_ _. True) t"
  by (auto simp: keys_seed_def wp_simps store_is_def split: option.split sum.split)

lemma wp_keeps_then:
  assumes "keeps I (\<lambda>_. True) m" and "I t" and "\<And>x t. I t \<Longrightarrow> wp (f x) Q (\<lambda>_ _. True) t"
  shows "wp (bindP m f) Q (\<lambda>_ _. True) t"
  by (rule wp_seq [OF keeps_wp [OF assms(1,2)]]) (rule assms(3))

lemma wp_keeps_then':
  assumes "keeps I (\<lambda>_. True) m" and "I t" and "\<And>t. I t \<Longrightarrow> wp n Q (\<lambda>_ _. True) t"
  shows "wp (thenP m n) Q (\<lambda>_ _. True) t"
  unfolding thenP_def by (rule wp_keeps_then [OF assms])

lemma wp_seed_then:
  assumes "store_is st t" and "\<And>k. returns (\<lambda>r. r \<noteq> None) (f k)"
  shows "wp (bindP (keys_seed S path) (\<lambda>seed. case seed of None \<Rightarrow> ret None | Some k \<Rightarrow> f k))
    (refused_ok st) (\<lambda>_ _. True) t"
proof (rule wp_seq [OF wp_seed_refused [OF assms(1)]])
  fix x :: "bytes option" and u :: "'a node_scheme"
  assume "refused_ok st x u"
  then show "wp (case x of None \<Rightarrow> ret None | Some k \<Rightarrow> f k) (refused_ok st) (\<lambda>_ _. True) u"
    by (cases x) (auto simp: wp_ret intro: wp_mono [OF returns_wp [OF assms(2)]])
qed

text \<open>
  C15: a start that ends early, for its arguments, because bitcoind does not answer or is on another chain,
  or because the seed file cannot be made, leaves everything in the store as it was.
\<close>

theorem refused_start_keeps_store:
  fixes n :: "'b node_scheme"
  assumes "start_node S R n = (Val None, n')"
  shows "store n' = store n"
proof -
  have none: "store_is st t \<Longrightarrow> wp (ret None) (refused_ok st) (\<lambda>_ _. True) t" for st and t :: "'b node_scheme"
    by (simp add: wp_ret)
  have "wp (start_node S R) (refused_ok (store n)) (\<lambda>_ _. True) n"
    unfolding start_node_def Let_def
    by (rule wp_seed_then none wp_keeps_then [where I = "store_is (store n)"]
        wp_keeps_then' [where I = "store_is (store n)"] wp_anywhere_cases store_client_new store_trace_only
        trace_only_intros returns_any returns_then | assumption | simp add: store_is_def [of "store n" n])+
  then show ?thesis using assms by (simp add: wp_def store_is_def)
qed

theorem refused_start_keeps_store_witness:
  "\<exists>n'. start_node (sample_start_lib\<lparr>environment := sample_env []\<rparr>) sample_rpc sample_seeded = (Val None, n')
    \<and> store n' = store sample_seeded"
proof -
  obtain n' where n': "start_node (sample_start_lib\<lparr>environment := sample_env []\<rparr>) sample_rpc sample_seeded =
      (Val None, n')"
    by (simp add: start_node_def parse_startup_args_def sample_env_def run_simps)
  from refused_start_keeps_store [OF n'] n' show ?thesis by blast
qed

section \<open>The monitors of the channels\<close>

text \<open>The monitors given to the chain monitor, in order.\<close>

definition loaded :: "hist \<Rightarrow> channel_id list" where
  "loaded h = List.map_filter (\<lambda>a. case a of Channel (LoadMonitor i) \<Rightarrow> Some i | _ \<Rightarrow> None) h"

lemma loaded_simps [simp]:
  "loaded [] = []" "loaded (h @ h') = loaded h @ loaded h'"
  "loaded (Query # h) = loaded h" "loaded (Channel (LoadMonitor i) # h) = i # loaded h"
  by (simp_all add: loaded_def List.map_filter_def)

lemma wp_load_monitors:
  "wp (forP is (\<lambda>i. bindP (call (Channel (LoadMonitor i)) (load_monitor S)) assertP))
     (\<lambda>_ t. loaded (trace t) = loaded (trace s) @ is) (\<lambda>_ _. True) s"
proof (induction "is" arbitrary: s)
  case (Cons i "is")
  show ?case
    by (simp add: wp_simps) (auto intro: wp_mono [OF Cons.IH])
qed (simp add: wp_ret)

text \<open>
  C17: the monitors of the channels are loaded only if the file of the channel manager can be opened: then
  all that were read are loaded, in order. If it cannot, because it is missing or for any other reason,
  the node goes on as a new one, and the monitors it read, whose channels hold funds, are ignored.
\<close>

theorem monitors_loaded:
  fixes n :: "'b node_scheme"
  assumes "restore_node S n = (Val (), n')"
  shows "\<exists>ms. read_monitors S (trace n) = Inr ms
    \<and> loaded (trace n') = loaded (trace n) @
        (if file_readable S (trace n @ [Query, Query]) \<and> kv_get (store n) manager_key \<noteq> None then ms else [])"
proof -
  have "wp (restore_node S) (\<lambda>_ n'. \<exists>ms. read_monitors S (trace n) = Inr ms
    \<and> loaded (trace n') = loaded (trace n) @
        (if file_readable S (trace n @ [Query, Query]) \<and> kv_get (store n) manager_key \<noteq> None then ms else []))
    (\<lambda>_ _. True) n"
    unfolding restore_node_def channel_manager_def output_sweeper_def sync_and_load_def
    by (auto simp: wp_simps check_def split: sum.split option.split sweeper_read.split
        intro!: wp_mono [OF wp_load_monitors])
  then show ?thesis using assms by (simp add: wp_def)
qed

theorem monitors_loaded_witness:
  "\<exists>n'. restore_node sample_start_lib sample_seeded = (Val (), n')
    \<and> read_monitors sample_start_lib [] = Inr [[4]] \<and> loaded (trace n') = []"
proof -
  have "kv_get (store sample_seeded) manager_key = None"
    by (simp add: sample_seeded_def sample_boot_def kv.get_put_if seed_key_def manager_key_def) (simp add: kv_get_def)
  then obtain n' where n': "restore_node sample_start_lib sample_seeded = (Val (), n')"
    by (simp add: sample_restore)
  from monitors_loaded [OF n'] n' \<open>kv_get (store sample_seeded) manager_key = None\<close> show ?thesis
    by (auto simp: sample_seeded_def sample_boot_def)
qed

section \<open>Stopping\<close>

text \<open>
  When the background processor's task could not be joined the channel manager is written to the store
  before the process dies. In every other case stopping writes nothing: an error that the background
  processor itself ended with is dropped, and the node stops as after \<open>quit\<close>.
\<close>

lemma last_write_only_on_join_error:
  fixes n :: "'b running_scheme"
  assumes "\<And>h. kv_write_ok S h"
  shows "case bg_res of
      Inl e \<Rightarrow> (\<exists>n' msg. shutdown S bg_res n = (Panic (Explicit msg), n')
        \<and> kv_get (store n') manager_key = Some (encode_manager S (trace n @ [Peer DisconnectAllPeers])))
    | Inr own \<Rightarrow> shutdown S bg_res n = shutdown S (Inr (Inr ())) n \<and> store (snd (shutdown S bg_res n)) = store n"
proof (cases bg_res)
  case (Inl e)
  then show ?thesis
    by (simp add: shutdown_def bindP_def thenP_def run_simps kv_write_def assms manager_key_def kv.get_put)
next
  case (Inr own)
  obtain as where "snd (stop_background S m) = m\<lparr>trace := trace m @ as m\<rparr>" for m :: "'b running_scheme"
    using trace_only_ticks(5) unfolding trace_only_def by metis
  then show ?thesis
    by (simp add: Inr shutdown_def thenP_def bindP_def run_simps)
qed

section \<open>Reconnecting\<close>

text \<open>The peers connections were tried to, with the address.\<close>

definition tried :: "hist \<Rightarrow> (pubkey \<times> sock_addr) list" where
  "tried h = List.map_filter (\<lambda>a. case a of Peer (ConnectOutbound pk addr) \<Rightarrow> Some (pk, addr) | _ \<Rightarrow> None) h"

lemma tried_simps [simp]:
  "tried (h @ h') = tried h @ tried h'" "tried [] = []" "tried [Query] = []" "tried [SleepMillis k] = []"
  "tried [Peer (ConnectOutbound pk addr)] = [(pk, addr)]"
  by (simp_all add: tried_def List.map_filter_def)

text \<open>All connections tried since \<open>old\<close> are in \<open>A\<close>.\<close>

definition tries_in :: "(pubkey \<times> sock_addr) set \<Rightarrow> (pubkey \<times> sock_addr) list \<Rightarrow> 'b world_scheme \<Rightarrow> bool" where
  "tries_in A old s \<longleftrightarrow> (\<exists>new. tried (trace s) = old @ new \<and> set new \<subseteq> A)"

lemma tries_quiet: "tried [a] = [] \<Longrightarrow> tries_in A old s \<Longrightarrow> tries_in A old (s\<lparr>trace := trace s @ [a]\<rparr>)"
  by (simp add: tries_in_def)

lemma keeps_tries_ask: "keeps (tries_in A old) (tries_in A old) (ask f)"
  by (rule keeps_ask) (simp add: tries_quiet)

lemma keeps_tries_connect:
  assumes "(pk, addr) \<in> A"
  shows "keeps (tries_in A old) (tries_in A old) (do_connect_peer L pk addr)"
proof -
  have loop: "keeps (tries_in A old) (tries_in A old) (connect_loop k L pk)" for k
    by (induction k)
      (auto intro!: keeps_intros keeps_tries_ask keeps_emit tries_quiet)
  have "tries_in A old (s\<lparr>trace := trace s @ [Peer (ConnectOutbound pk addr)]\<rparr>)" if "tries_in A old s" for s :: "'c world_scheme"
    using that assms by (fastforce simp: tries_in_def)
  then show ?thesis
    unfolding do_connect_peer_def by (intro keeps_intros keeps_call loop)
qed

lemma keeps_tries_all:
  "set (map (Pair pk) addrs) \<subseteq> A \<Longrightarrow> keeps (tries_in A old) (tries_in A old) (connect_all L pk addrs)"
  by (induction addrs) (auto intro!: keeps_intros keeps_tries_connect)

lemma keeps_tries_addresses:
  assumes "\<And>a h socks. a \<in> set as \<Longrightarrow> resolve_all L h a = Some socks \<Longrightarrow> set (map (Pair pk) socks) \<subseteq> A"
  shows "keeps (tries_in A old) (tries_in A old) (connect_addresses L pk as :: ('b world_scheme, task) prog)"
  using assms
proof (induction as)
  case (Cons a as)
  have rest: "keeps (tries_in A old) (tries_in A old) (connect_addresses L pk as :: ('b world_scheme, task) prog)"
    by (rule Cons.IH, rule Cons.prems) simp_all
  have "wp (connect_addresses L pk (a # as)) (\<lambda>_. tries_in A old) (\<lambda>_. tries_in A old) s"
    if s: "tries_in A old s" for s :: "'b world_scheme"
  proof (cases "resolve_all L (trace s) a")
    case None
    then show ?thesis
      using keeps_wp [OF rest tries_quiet [OF _ s], of Query] by (simp add: wp_simps)
  next
    case (Some socks)
    have "keeps (tries_in A old) (tries_in A old)
      (bindP (connect_all L pk socks) (\<lambda>t. if t = TaskOn then connect_addresses L pk as else ret t) :: ('b world_scheme, task) prog)"
      using Cons.prems [of a "trace s"] Some by (intro keeps_intros keeps_tries_all rest) auto
    from keeps_wp [OF this tries_quiet [OF _ s], of Query] Some show ?thesis
      by (simp add: wp_ask wp_bind [of "ask f" for f])
  qed
  then show ?case by (rule keepsI)
qed (simp add: keeps_ret)

text \<open>The peers and addresses that may be tried: clear addresses the graph has for a peer of a channel.\<close>

definition reachable_peers :: "'l start_lib_scheme \<Rightarrow> channel_details list \<Rightarrow> (pubkey \<times> sock_addr) set" where
  "reachable_peers S cs = {(pk, sa). pk \<in> cd_node_id ` set cs
     \<and> (\<exists>h h' ann t socks. graph_node S h pk = Some (Some ann) \<and> ClearNet t \<in> set (ann_addresses ann)
          \<and> resolve_all S h' (ClearNet t) = Some socks \<and> sa \<in> set socks)}"

lemma clear_addresses_clear:
  "a \<in> set (clear_addresses node) \<Longrightarrow> \<exists>ann t. node = Some (Some ann) \<and> a = ClearNet t \<and> ClearNet t \<in> set (ann_addresses ann)"
proof -
  assume "a \<in> set (clear_addresses node)"
  then obtain ann b where "node = Some (Some ann)" "b \<in> set (ann_addresses ann)" "non_onion b = Some a"
    by (auto simp: clear_addresses_def List.map_filter_def split: option.splits)
  then show ?thesis by (cases b) auto
qed

lemma keeps_tries_peers:
  "set pks \<subseteq> cd_node_id ` set cs \<Longrightarrow>
   keeps (tries_in (reachable_peers S cs) old) (tries_in (reachable_peers S cs) old)
     (reconnect_peers S pks :: ('b running_scheme, task) prog)"
proof (induction pks)
  case (Cons pk pks)
  let ?I = "tries_in (reachable_peers S cs) old :: 'b running_scheme \<Rightarrow> bool"
  have rest: "keeps ?I ?I (reconnect_peers S pks :: ('b running_scheme, task) prog)" using Cons by simp
  have node: "wp (bindP (ask (\<lambda>h. graph_node S h pk)) (\<lambda>node.
      bindP (connect_addresses S pk (clear_addresses node)) (\<lambda>t. if t = TaskOn then reconnect_peers S pks else ret t)))
      (\<lambda>_. ?I) (\<lambda>_. ?I) s" if s: "?I s" for s :: "'b running_scheme"
  proof -
    have "keeps ?I ?I (bindP (connect_addresses S pk (clear_addresses (graph_node S (trace s) pk)))
        (\<lambda>t. if t = TaskOn then reconnect_peers S pks else ret t))"
    proof (intro keeps_bind keeps_if keeps_ret rest keeps_tries_addresses subsetI)
      fix a h socks x
      assume "a \<in> set (clear_addresses (graph_node S (trace s) pk))" "resolve_all S h a = Some socks"
        "x \<in> set (map (Pair pk) socks)"
      moreover from this(1) obtain ann t where "graph_node S (trace s) pk = Some (Some ann)" "a = ClearNet t"
          "ClearNet t \<in> set (ann_addresses ann)"
        by (auto dest: clear_addresses_clear)
      ultimately show "x \<in> reachable_peers S cs"
        using Cons.prems by (auto simp: reachable_peers_def) blast
    qed
    from keeps_wp [OF this tries_quiet [OF _ s], of Query] show ?thesis
      by (simp add: wp_ask wp_bind [of "ask f" for f])
  qed
  show ?case
    unfolding reconnect_peers.simps
    by (intro keeps_bind keeps_if keeps_ret keeps_gets keeps_tries_ask rest keepsI [OF node])
qed (simp add: keeps_ret)

lemma reconnect_stopped:
  fixes s :: "'b running_scheme"
  shows "stop_listen_connect s \<Longrightarrow> wp (reconnect_peers S pks)
    (\<lambda>_ m. tried (trace m) = tried (trace s)) (\<lambda>_ m. tried (trace m) = tried (trace s)) s"
proof (induction pks arbitrary: s)
  case (Cons pk pks)
  from Cons.IH [of "s\<lparr>trace := trace s @ [Query]\<rparr>"] Cons.prems show ?case by (simp add: wp_simps)
qed (simp add: wp_ret)

text \<open>
  C19: the task that reconnects tries only peers of the node's channels, at addresses of their announcement
  in the network graph that are not onion addresses; once the node is stopping it tries none.
\<close>

theorem reconnect_only_channel_peers:
  fixes n :: "'b running_scheme"
  assumes "reconnect_tick S n = (r, n')"
  shows "\<exists>new. tried (trace n') = tried (trace n) @ new
    \<and> (\<forall>(pk, sa) \<in> set new. \<not> stop_listen_connect n \<and> (\<exists>c \<in> set (channels_of S (trace n)). cd_node_id c = pk)
        \<and> (\<exists>h h' ann t socks. graph_node S h pk = Some (Some ann) \<and> ClearNet t \<in> set (ann_addresses ann)
          \<and> resolve_all S h' (ClearNet t) = Some socks \<and> sa \<in> set socks))"
proof -
  let ?cs = "channels_of S (trace n)"
  have "wp (reconnect_peers S (map cd_node_id ?cs)) (\<lambda>_. tries_in (reachable_peers S ?cs) (tried (trace n)))
      (\<lambda>_. tries_in (reachable_peers S ?cs) (tried (trace n))) (n\<lparr>trace := trace n @ [Query]\<rparr>)"
    by (rule keeps_wp [OF keeps_tries_peers]) (auto simp: tries_in_def)
  then have "tries_in (reachable_peers S ?cs) (tried (trace n)) n'"
    using assms by (auto simp: reconnect_tick_def bindP_def run_simps wp_def split: outcome.splits)
  moreover have "tried (trace n') = tried (trace n)" if stop: "stop_listen_connect n"
    using assms reconnect_stopped [of "n\<lparr>trace := trace n @ [Query]\<rparr>" S "map cd_node_id ?cs"] stop
    by (auto simp: reconnect_tick_def bindP_def run_simps wp_def split: outcome.splits)
  ultimately show ?thesis
    unfolding tries_in_def reachable_peers_def by fastforce
qed

text \<open>A channel with a peer that announced an onion address and another one.\<close>

definition sample_channel_peer :: channel_details where
  "sample_channel_peer = \<lparr>cd_channel_id = [1], cd_funding_txid = None, cd_node_id = [2], cd_scid = None,
     cd_is_ready = True, cd_value_sat = 1, cd_outbound_msat = 0, cd_inbound_msat = 0, cd_is_usable = True,
     cd_is_announced = True\<rparr>"

definition sample_offline :: start_lib where
  "sample_offline = sample_start_lib\<lparr>channels_of := (\<lambda>h. [sample_channel_peer]),
     graph_node := (\<lambda>h p. Some (Some \<lparr>ann_alias = [], ann_addresses = [OnionV3 ''o'', ClearNet ''a''],
       ann_dns_resolution = False, ann_onion_messages = False\<rparr>)),
     resolve_all := (\<lambda>h a. Some [''10.0.0.1'']), peer_connected := (\<lambda>h p. length h > 5), connect_fuel := 2\<rparr>"

theorem reconnect_only_channel_peers_witness:
  "\<exists>n'. reconnect_tick sample_offline sample_seeded = (Val TaskOn, n')
    \<and> tried (trace n') = [([2], ''10.0.0.1'')]
    \<and> (\<forall>(pk, sa) \<in> set (tried (trace n')). \<exists>c \<in> set (channels_of sample_offline []). cd_node_id c = pk)"
proof -
  have "connect_outbound sample_offline h" "\<not> select_closed sample_offline h" for h
    by (simp_all add: sample_offline_def sample_start_lib_defs)
  then obtain n' where n': "reconnect_tick sample_offline sample_seeded = (Val TaskOn, n')"
      "tried (trace n') = [([2], ''10.0.0.1'')]"
    by (simp add: reconnect_tick_def sample_offline_def sample_channel_peer_def bindP_def thenP_def run_simps
        clear_addresses_def List.map_filter_def do_connect_peer_def numeral_2_eq_2 sample_seeded_def
        sample_boot_def tried_def)
  moreover have "trace sample_seeded = []" by (simp add: sample_seeded_def sample_boot_def)
  ultimately show ?thesis
    using reconnect_only_channel_peers [OF n'(1)] by fastforce
qed

end
