(* ===== verification/Race.thy ===== *)
theory Race
  imports Startup_Properties
begin

text \<open>
  Writing the payments from two tasks (\<open>src/cli.rs\<close>). Everywhere else the map is changed and encoded and
  the write is called while the lock is held, so those operations are single steps here. The payment of
  an offer locks the map to insert the entry, locks it again to encode it, and calls the write without
  the lock: three steps between which the event handler can run.
\<close>

section \<open>The recording of an offer, step by step\<close>

text \<open>Where the task that pays an offer is.\<close>

datatype offer_task = Recording | Encoding | Writing bytes | Recorded

text \<open>
  One step of that task, or a payment event that \<open>may\<close> allows. The store gives a key the value of the
  write that was called last.
\<close>

inductive offer_step ::
  "'l cli_lib_scheme \<Rightarrow> (payment_event \<Rightarrow> bool) \<Rightarrow> payment_id \<Rightarrow> payment_info \<Rightarrow>
   'b node_scheme \<times> offer_task \<Rightarrow> 'b node_scheme \<times> offer_task \<Rightarrow> bool"
  for L may i info where
  insert: "offer_step L may i info (n, Recording) (n\<lparr>outbound := fmupd i info (outbound n)\<rparr>, Encoding)"
| encode: "offer_step L may i info (n, Encoding) (n, Writing (enc L (trace n) (outbound n)))"
| store: "kv_write L [] [] OUTBOUND_PAYMENTS_FNAME b n = (Val (), n') \<Longrightarrow>
    offer_step L may i info (n, Writing b) (n', Recorded)"
| event: "may e \<Longrightarrow> handle_payment_event L e n = (Val (), n') \<Longrightarrow> offer_step L may i info (n, t) (n', t)"

text \<open>Without an event between them the steps are the operation the other commands use.\<close>

lemma record_outbound_steps:
  assumes "record_outbound L i info n = (Val (), n')"
  shows "(offer_step L may i info)\<^sup>*\<^sup>* (n, Recording) (n', Recorded)"
proof -
  let ?n = "n\<lparr>outbound := fmupd i info (outbound n)\<rparr>"
  have "kv_write L [] [] OUTBOUND_PAYMENTS_FNAME (enc L (trace ?n) (outbound ?n)) ?n = (Val (), n')"
    using assms by (simp add: record_outbound_def write_outbound_def run_then_Val [OF run_modify] run_bind_Val [OF run_gets])
  then have w: "offer_step L may i info (?n, Writing (enc L (trace ?n) (outbound ?n))) (n', Recorded)"
    by (rule offer_step.store)
  show ?thesis
    by (rule converse_rtranclp_into_rtranclp, rule offer_step.insert,
      rule converse_rtranclp_into_rtranclp, rule offer_step.encode, rule r_into_rtranclp, rule w)
qed

section \<open>The entry is stored before the payment\<close>

text \<open>The payment an event changes.\<close>

fun event_payment :: "payment_event \<Rightarrow> payment_id option" where
  "event_payment (PaymentSent _ _ _ i) = i"
| "event_payment (PaymentFailed _ _ i) = Some i"
| "event_payment _ = None"

definition entry_is :: "payment_id \<Rightarrow> payment_info \<Rightarrow> 'b node_scheme \<Rightarrow> bool" where
  "entry_is i info n \<longleftrightarrow> fmlookup (outbound n) i = Some info"

definition entry_stored :: "'l ldk_scheme \<Rightarrow> payment_id \<Rightarrow> payment_info \<Rightarrow> 'b node_scheme \<Rightarrow> bool" where
  "entry_stored L i info n \<longleftrightarrow> fmlookup (outbound n) i = Some info \<and>
     (\<exists>b m. kv_get (store n) outbound_key = Some b \<and> dec L b = Some m \<and> fmlookup m i = Some info)"

fun offer_inv :: "'l ldk_scheme \<Rightarrow> payment_id \<Rightarrow> payment_info \<Rightarrow> 'b node_scheme \<times> offer_task \<Rightarrow> bool" where
  "offer_inv L i info (n, Recording) \<longleftrightarrow> True"
| "offer_inv L i info (n, Encoding) \<longleftrightarrow> entry_is i info n"
| "offer_inv L i info (n, Writing b) \<longleftrightarrow> entry_is i info n \<and> (\<exists>m. dec L b = Some m \<and> fmlookup m i = Some info)"
| "offer_inv L i info (n, Recorded) \<longleftrightarrow> entry_stored L i info n"

text \<open>What a predicate of the state needs so that an event about another payment keeps it.\<close>

locale other_payment =
  fixes L :: "'l cli_lib_scheme" and i :: payment_id and I :: "'b node_scheme \<Rightarrow> bool"
  assumes I_trace: "I n \<Longrightarrow> I (n\<lparr>trace := h\<rparr>)"
    and I_outbound: "k \<noteq> i \<Longrightarrow> I n \<Longrightarrow> I (n\<lparr>outbound := fmupd k e (outbound n)\<rparr>)"
    and I_inbound: "I n \<Longrightarrow> I (n\<lparr>inbound := m\<rparr>)"
    and I_write: "keeps I (\<lambda>_. True) (write_outbound L)" "keeps I (\<lambda>_. True) (write_inbound L)"
begin

lemma keeps_quiet: "trace_only m \<Longrightarrow> keeps I (\<lambda>_. True) m"
  by (rule keeps_trace_only) (auto intro: I_trace)

lemma keeps_change: "k \<noteq> i \<Longrightarrow> keeps I (\<lambda>_. True) (modify (\<lambda>n. n\<lparr>outbound := fmupd k e (outbound n)\<rparr>))"
  by (rule keeps_modify) (rule I_outbound)

lemma keeps_sent_entry:
  assumes "pid \<noteq> Some i"
  shows "keeps I (\<lambda>_. True) (sent_entry L p h f pid x)"
proof (cases pid)
  case None
  then show ?thesis by (cases x) (simp add: sent_entry_def keeps_panic)
next
  case (Some q)
  obtain k e where x: "x = (k, e)" by fastforce
  show ?thesis
  proof (cases "k = q")
    case True
    with assms Some have "k \<noteq> i" by simp
    with True show ?thesis
      unfolding sent_entry_def x Some
      by (simp only: prod.case unwrap_simps bindP_ret if_True simp_thms)
        (rule keeps_then keeps_change keeps_quiet trace_only_intros | simp)+
  qed (simp add: sent_entry_def x Some keeps_ret)
qed

lemma keeps_other_event:
  assumes "event_payment e \<noteq> Some i"
  shows "keeps I (\<lambda>_. True) (handle_payment_event L e)"
proof (cases e)
  case (PaymentClaimed hash purpose amt)
  show ?thesis
    unfolding PaymentClaimed handle_payment_event.simps handle_claimed_def
    by (intro keeps_then I_write keeps_quiet trace_only_intros keeps_modify I_inbound)
next
  case (PaymentSent p hash fee pid)
  then have pid: "pid \<noteq> Some i" using assms by simp
  show ?thesis
    unfolding PaymentSent handle_payment_event.simps handle_sent_def
    by (intro keeps_then keeps_bind keeps_gets keeps_forP I_write keeps_sent_entry [OF pid] keeps_quiet [OF trace_only_ask])
next
  case (PaymentFailed hash reason pid)
  then have m: "keeps I (\<lambda>_. True) (modify (\<lambda>n. case fmlookup (outbound n) pid of
      Some payment \<Rightarrow> n\<lparr>outbound := fmupd pid (payment\<lparr>status := Failed\<rparr>) (outbound n)\<rparr> | None \<Rightarrow> n))"
    using assms by (auto intro!: keeps_modify I_outbound split: option.split)
  show ?thesis
    unfolding PaymentFailed handle_payment_event.simps handle_failed_def
    by (rule keeps_then I_write m keeps_quiet trace_only_intros)+
qed (simp_all add: keeps_quiet trace_only_intros)

end

lemma keeps_write_outbound_entry: "keeps (entry_is i info) (\<lambda>_. True) (write_outbound L)"
  "keeps (entry_is i info) (\<lambda>_. True) (write_inbound L)"
  by (simp_all add: keeps_def wp_simps Let_def entry_is_def)

interpretation kept: other_payment L i "entry_is i info" for L i info
  by unfold_locales (rule keeps_write_outbound_entry | simp add: entry_is_def)+

lemma keeps_write_stored:
  "keeps (\<lambda>n. codec_ok L \<and> entry_stored L i info n) (\<lambda>_. True) (write_outbound L)"
  "keeps (\<lambda>n. codec_ok L \<and> entry_stored L i info n) (\<lambda>_. True) (write_inbound L)"
  by (auto simp: keeps_def wp_simps Let_def entry_stored_def kv.get_put_if codec_ok_def)

interpretation stored: other_payment L i "\<lambda>n. codec_ok L \<and> entry_stored L i info n" for L i info
  by unfold_locales (rule keeps_write_stored | simp add: entry_stored_def)+

abbreviation others :: "payment_id \<Rightarrow> payment_event \<Rightarrow> bool" where
  "others i e \<equiv> event_payment e \<noteq> Some i"

lemma offer_step_inv:
  assumes L: "codec_ok L" and "offer_step L (others i) i info x y" and "offer_inv L i info x"
  shows "offer_inv L i info y"
  using assms(2,3)
proof (cases rule: offer_step.cases)
  case (encode n)
  with assms show ?thesis by (auto simp: entry_is_def codec_ok_def)
next
  case (store b n n')
  from store(3) have "outbound n' = outbound n" "kv_get (store n') outbound_key = Some b"
    by (auto simp: run_simps Let_def outbound_key_def kv.get_put split: if_splits)
  with store assms show ?thesis by (auto simp: entry_is_def entry_stored_def)
next
  case (event e n n' t)
  note e = kept.keeps_other_event [OF event(3), THEN keeps_Val, OF _ event(4)]
    stored.keeps_other_event [OF event(3), THEN keeps_Val, OF _ event(4)]
  show ?thesis
    using event(1,2) assms(3) L e by (cases t) auto
qed (simp add: entry_is_def)

interpretation offers: invariant_system "\<lambda>x :: 'b node_scheme \<times> offer_task. codec_ok L \<and> snd x = Recording"
    "offer_step L (others i) i info" "\<lambda>x. codec_ok L \<and> offer_inv L i info x"
  for L :: "'l cli_lib_scheme" and i info
proof unfold_locales
  fix x y :: "'b node_scheme \<times> offer_task"
  show "codec_ok L \<and> snd x = Recording \<Longrightarrow> codec_ok L \<and> offer_inv L i info x"
    by (cases x) simp
  show "codec_ok L \<and> offer_inv L i info x \<Longrightarrow> offer_step L (others i) i info x y \<Longrightarrow> codec_ok L \<and> offer_inv L i info y"
    by (auto intro: offer_step_inv)
qed

text \<open>
  C10: However the steps that record the payment of an offer are interleaved with events about other
  payments, once the task goes on to pay, the map in the store has the new entry.
\<close>

theorem offer_stored_before_payment:
  assumes "codec_ok L" and "(offer_step L (others i) i info)\<^sup>*\<^sup>* (n, Recording) (n', Recorded)"
  shows "\<exists>b m. kv_get (store n') outbound_key = Some b \<and> dec L b = Some m \<and> fmlookup m i = Some info"
  using offers.inv_reachable [OF _ assms(2)] assms(1) by (simp add: entry_stored_def)

section \<open>A success that is lost\<close>

text \<open>
  C11: The interleaving the other commands exclude by calling the write under the lock. The event handler
  records a success, with its preimage, after the map was encoded and before the write is called:
  the write that is called last stores the older map. At the next start the payment is
  found as pending, LDK no longer lists it, and it is marked as failed.
\<close>

theorem offer_race_loses_success:
  fixes n :: "'b node_scheme"
  assumes "codec_ok S" and "iter_ok S" and "\<And>h. kv_write_ok S h"
    and "j \<noteq> i" and "fmlookup (outbound n) j = Some old" and "status old = Pending"
    and "\<And>h. j \<notin> recent_id ` set (recent_payments S h)"
  shows "\<exists>n' n''. (offer_step S (others i) i info)\<^sup>*\<^sup>* (n, Recording) (n', Recorded)
    \<and> fmlookup (outbound n') j = Some (old\<lparr>preimage := Some p, status := Succeeded\<rparr>)
    \<and> load_payments S n' = (Val (), n'') \<and> fmlookup (outbound n'') j = Some (old\<lparr>status := Failed\<rparr>)"
proof -
  let ?n = "n\<lparr>outbound := fmupd i info (outbound n)\<rparr>" and ?step = "offer_step S (others i) i info"
  let ?b = "enc S (trace ?n) (outbound ?n)"
  obtain m where sent: "handle_payment_event S (PaymentSent p p None (Some j)) ?n = (Val (), m)"
    and m: "outbound_written S (mark_sent p j (outbound ?n)) m"
    using handle_sent_written [OF assms(1-3)] by blast
  obtain n' where stored: "kv_write S [] [] OUTBOUND_PAYMENTS_FNAME ?b m = (Val (), n')"
    and n': "outbound n' = outbound m" "kv_get (store n') outbound_key = Some ?b"
    by (simp add: run_simps Let_def assms(3) outbound_key_def kv.get_put)
  have "?step\<^sup>*\<^sup>* (n, Recording) (n', Recorded)"
    by (rule converse_rtranclp_into_rtranclp, rule offer_step.insert,
      rule converse_rtranclp_into_rtranclp, rule offer_step.encode,
      rule converse_rtranclp_into_rtranclp, rule offer_step.event [OF _ sent], use assms(4) in simp,
      rule r_into_rtranclp, rule offer_step.store, rule stored)
  moreover have "fmlookup (outbound n') j = Some (old\<lparr>preimage := Some p, status := Succeeded\<rparr>)"
    using m assms(4,5) by (simp add: n' outbound_written_def mark_sent_def)
  moreover have "dec S ?b = Some (outbound ?n)" using assms(1) by (simp add: codec_ok_def)
  from load_payments_reconciles [OF assms(1-3) n'(2) this] assms(4-7)
  have "\<exists>n''. load_payments S n' = (Val (), n'') \<and> fmlookup (outbound n'') j = Some (old\<lparr>status := Failed\<rparr>)"
    by (auto simp: outbound_written_def reconciled_def)
  ultimately show ?thesis by blast
qed

section \<open>Two payments\<close>

definition sample_two :: running where
  "sample_two = (sample_boot [] Map.empty)\<lparr>outbound := fmupd [9] (payment_entry None Pending 5) fmempty\<rparr>"

theorem offer_stored_before_payment_witness:
  "\<exists>n' b m. record_outbound sample_start_lib [8] (payment_entry None Pending 6) sample_two = (Val (), n')
    \<and> kv_get (store n') outbound_key = Some b \<and> dec sample_start_lib b = Some m
    \<and> fmlookup m [8] = Some (payment_entry None Pending 6)"
proof -
  obtain n' where n': "record_outbound sample_start_lib [8] (payment_entry None Pending 6) sample_two = (Val (), n')"
    by (simp add: record_outbound_def run_simps Let_def)
  from offer_stored_before_payment [OF sample_start_lib_ok(1) record_outbound_steps, OF n'] n'
  show ?thesis by blast
qed

theorem offer_race_loses_success_witness:
  "\<exists>n' n'' :: running. (offer_step sample_start_lib (others [8]) [8] (payment_entry None Pending 6))\<^sup>*\<^sup>*
      (sample_two, Recording) (n', Recorded)
    \<and> fmlookup (outbound n') [9] = Some ((payment_entry None Pending 5)\<lparr>preimage := Some [5], status := Succeeded\<rparr>)
    \<and> fmlookup (outbound n'') [9] = Some (payment_entry None Failed 5)"
proof -
  have "fmlookup (outbound sample_two) [9] = Some (payment_entry None Pending 5)" by (simp add: sample_two_def)
  from offer_race_loses_success [OF sample_start_lib_ok sample_lib_answers(14) _ this, of "[8]" "payment_entry None Pending 6" "[5]"]
  show ?thesis by (fastforce simp: payment_entry_def)
qed

end
