(* ===== verification/Interleaving.thy ===== *)
theory Interleaving
  imports Race
begin

text \<open>
  The command line and the event handler run side by side (\<open>src/cli.rs\<close>, \<open>src/main.rs\<close>). The four ways
  to pay have one shape, a job; here the steps of a job are interleaved in every way with events and the
  making of invoices. An abstract machine with two copies of the payments, one in memory and one on
  disk, is what the steps implement.
\<close>

section \<open>Payments as jobs\<close>

text \<open>
  What is recorded, what LDK is asked, what is printed afterwards, whether the recording holds the lock
  until the write is called, and whether a refused payment is marked as failed.
\<close>

record job =
  job_call :: pay_call
  job_info :: payment_info
  locked :: bool
  rolls_back :: bool
  report :: "string + unit \<Rightarrow> string list"

definition job_id :: "job \<Rightarrow> payment_id" where
  "job_id j = pay_id (job_call j)"

definition prints :: "string list \<Rightarrow> ('b world_scheme, unit) prog" where
  "prints ts = forP ts print"

text \<open>Asking LDK to pay, and the report. The result says whether the payment was refused.\<close>

definition pay_and_report :: "'l ldk_scheme \<Rightarrow> job \<Rightarrow> ('b world_scheme, bool) prog" where
  "pay_and_report L j =
    bindP (call (Pay (job_call j)) (pay_result L)) (\<lambda>r. thenP (prints (report j r)) (ret (\<exists>e. r = Inl e)))"

definition run_job :: "'l ldk_scheme \<Rightarrow> job \<Rightarrow> ('b node_scheme, unit) prog" where
  "run_job L j =
    thenP (record_outbound L (job_id j) (job_info j))
    (bindP (pay_and_report L j) (\<lambda>refused.
      if refused \<and> rolls_back j then fail_outbound L (job_id j) else ret ()))"

definition sent_report :: "'l ldk_scheme \<Rightarrow> u64 \<Rightarrow> pubkey \<Rightarrow> string + unit \<Rightarrow> string list" where
  "sent_report L amt payee r =
    (case r of
       Inr _ \<Rightarrow> [''EVENT: initiated sending '' @ show_u64 amt @ '' msats to '' @ show_pubkey L payee @ nl, ''> '']
     | Inl e \<Rightarrow> [''ERROR: failed to send payment: '' @ e @ nl, ''> ''])"

definition bolt11_job :: "'l ldk_scheme \<Rightarrow> invoice \<Rightarrow> u64 option \<Rightarrow> u64 \<Rightarrow> job" where
  "bolt11_job L invoice req amt =
    \<lparr>job_call = PayForBolt11 invoice (inv_payment_hash invoice) req retry_secs,
     job_info = new_payment (Some (inv_payment_secret invoice)) amt, locked = True, rolls_back = True,
     report = sent_report L amt (inv_payee invoice)\<rparr>"

definition keysend_job :: "'l ldk_scheme \<Rightarrow> payment_preimage \<Rightarrow> pubkey \<Rightarrow> u64 \<Rightarrow> job" where
  "keysend_job L payment_preimage payee_pubkey amt =
    \<lparr>job_call = SendSpontaneous payment_preimage (sha256 L payment_preimage) payee_pubkey 40 amt retry_secs,
     job_info = new_payment None amt, locked = True, rolls_back = True, report = sent_report L amt payee_pubkey\<rparr>"

definition offer_job :: "offer \<Rightarrow> payment_id \<Rightarrow> u64 \<Rightarrow> job" where
  "offer_job off i amt =
    \<lparr>job_call = PayForOffer off (Some amt) i retry_secs, job_info = new_payment None amt,
     locked = False, rolls_back = False,
     report = (\<lambda>r. case r of Inr _ \<Rightarrow> [''Payment in flight'' @ nl]
       | Inl e \<Rightarrow> [''ERROR: Failed to pay: Err('' @ e @ '')'' @ nl])\<rparr>"

definition hrn_job :: "string \<Rightarrow> payment_id \<Rightarrow> u64 \<Rightarrow> pubkey list \<Rightarrow> job" where
  "hrn_job hrn i amt resolvers =
    \<lparr>job_call = PayForHrn hrn amt i retry_secs resolvers, job_info = new_payment None amt,
     locked = False, rolls_back = False,
     report = (\<lambda>r. case r of Inr _ \<Rightarrow> [''Payment in flight'' @ nl] | Inl _ \<Rightarrow> [''ERROR: Failed to pay'' @ nl])\<rparr>"

lemma job_simps [simp]:
  "job_id (bolt11_job L invoice req amt) = inv_payment_hash invoice" "job_id (keysend_job L p pk amt) = sha256 L p"
  "job_id (offer_job off i amt) = i" "job_id (hrn_job h i amt rs) = i"
  by (simp_all add: job_id_def bolt11_job_def keysend_job_def offer_job_def hrn_job_def)

lemma thenP_right: "thenP (thenP a b) c = thenP a (thenP b c)"
  by (simp add: thenP_def bindP_assoc)

lemma bindP_thenP: "bindP (thenP a b) f = thenP a (bindP b f)"
  by (simp add: thenP_def bindP_assoc)

lemma thenP_ret_unit: "thenP m (ret ()) = m"
  by (simp add: thenP_def)

lemma prints_simps: "prints [] = ret ()" "prints [a] = print a" "prints [a, b] = thenP (print a) (print b)"
  by (simp_all add: prints_def thenP_ret_unit)

lemma bindP_cong: "(\<And>x. f x = g x) \<Longrightarrow> bindP m f = bindP m g"
  by presburger

lemma thenP_bindP: "thenP (bindP m f) c = bindP m (\<lambda>x. thenP (f x) c)"
  by (simp add: thenP_def bindP_assoc)

lemma thenP_cong: "a = b \<Longrightarrow> thenP m a = thenP m b"
  by simp

text \<open>A job whose report and rollback are given case by case.\<close>

lemma run_job_cases:
  "run_job L j = thenP (record_outbound L (job_id j) (job_info j)) (bindP (call (Pay (job_call j)) (pay_result L)) (\<lambda>r.
     case r of Inr u \<Rightarrow> prints (report j (Inr u))
     | Inl e \<Rightarrow> thenP (prints (report j (Inl e))) (if rolls_back j then fail_outbound L (job_id j) else ret ())))"
  unfolding run_job_def pay_and_report_def bindP_assoc
  by (intro thenP_cong bindP_cong) (simp add: bindP_thenP thenP_ret_unit split: sum.split)

lemmas job_defs = run_job_cases job_id_def sent_report_def println_def print_def prompt_def
  bindP_assoc bindP_thenP thenP_bindP thenP_right thenP_ret_unit prints_simps

lemma run_job_bolt11:
  "choose_amount (inv_amount_msat invoice) req = PayAmount amt \<Longrightarrow>
   send_payment L invoice req = run_job L (bolt11_job L invoice req amt)"
  by (simp add: send_payment_def bolt11_job_def job_defs Let_def) (intro thenP_cong bindP_cong, simp add: job_defs split: sum.split)

lemma run_job_keysend: "keysend L pk amt = bindP (call RandomBytes (random_bytes L)) (\<lambda>p. run_job L (keysend_job L p pk amt))"
  by (simp add: keysend_def keysend_job_def job_defs Let_def) (intro thenP_cong bindP_cong, simp add: job_defs split: sum.split)

lemma run_job_offer: "pay_offer_now L off i amt = thenP (run_job L (offer_job off i amt)) (ret Continue)"
  by (simp add: pay_offer_now_def offer_job_def job_defs) (intro thenP_cong bindP_cong, simp add: job_defs split: sum.split)

lemma run_job_hrn:
  "pay_hrn L hrn (Some amt) = bindP (call RandomBytes (random_bytes L)) (\<lambda>i. bindP (ask (graph_nodes L)) (\<lambda>nodes.
     let resolvers = dns_resolvers (as_pubkey L) nodes [] in
     if resolvers = [] then
       thenP (println ''Failed to find any DNS resolving nodes, check your network graph is synced'') (ret Continue)
     else thenP (run_job L (hrn_job hrn i amt resolvers)) (ret Continue)))"
  unfolding pay_hrn_def option.case
  by (intro bindP_cong) (simp add: Let_def hrn_job_def job_defs, intro impI thenP_cong bindP_cong, simp add: job_defs split: sum.split)

section \<open>The interleaved system\<close>

text \<open>Where the command line is: between commands, or at a step of a job.\<close>

datatype payer = Idle | Locking job | Unlocked job offer_task | Stored job | Rejected job

text \<open>A program between jobs that leaves the maps and the store alone and asks for no payment.\<close>

definition quiet :: "'b node_scheme \<Rightarrow> 'b node_scheme \<Rightarrow> bool" where
  "quiet n n' \<longleftrightarrow> outbound n' = outbound n \<and> inbound n' = inbound n \<and> store n' = store n
     \<and> filter is_pay (trace n') = filter is_pay (trace n)"

text \<open>
  One step of the command line, or of the event handler, from the state \<open>n\<close>. \<open>jobs\<close> are the jobs commands
  may start, \<open>may\<close> the events LDK may report.
\<close>

inductive pay_step ::
  "'l cli_lib_scheme \<Rightarrow> (job \<Rightarrow> bool) \<Rightarrow> (payment_event \<Rightarrow> bool) \<Rightarrow>
   'b node_scheme \<times> payer \<Rightarrow> 'b node_scheme \<times> payer \<Rightarrow> bool"
  for L jobs may where
  begin_locked: "jobs j \<Longrightarrow> locked j \<Longrightarrow> pay_step L jobs may (n, Idle) (n, Locking j)"
| begin_unlocked: "jobs j \<Longrightarrow> \<not> locked j \<Longrightarrow> pay_step L jobs may (n, Idle) (n, Unlocked j Recording)"
| record_locked: "record_outbound L (job_id j) (job_info j) n = (Val (), n') \<Longrightarrow>
    pay_step L jobs may (n, Locking j) (n', Stored j)"
| unlocked: "offer_step L (\<lambda>_. False) (job_id j) (job_info j) (n, t) (n', t') \<Longrightarrow>
    pay_step L jobs may (n, Unlocked j t) (n', Unlocked j t')"
| recorded: "pay_step L jobs may (n, Unlocked j Recorded) (n, Stored j)"
| pay: "pay_and_report L j n = (Val refused, n') \<Longrightarrow>
    pay_step L jobs may (n, Stored j) (n', if refused \<and> rolls_back j then Rejected j else Idle)"
| roll_back: "fail_outbound L (job_id j) n = (Val (), n') \<Longrightarrow> pay_step L jobs may (n, Rejected j) (n', Idle)"
| invoice: "getinvoice_write L amt expiry n = (Val (), n') \<Longrightarrow> pay_step L jobs may (n, Idle) (n', Idle)"
| talk: "quiet n n' \<Longrightarrow> pay_step L jobs may (n, Idle) (n', Idle)"
| event: "may e \<Longrightarrow> handle_payment_event L e n = (Val (), n') \<Longrightarrow> pay_step L jobs may (n, p) (n', p)"

inductive_cases pay_stepE: "pay_step L jobs may x y"

text \<open>
  A step that leaves the fee estimates alone, as all do but those of the task that refreshes them.
\<close>

definition task_step ::
  "'l cli_lib_scheme \<Rightarrow> (job \<Rightarrow> bool) \<Rightarrow> (payment_event \<Rightarrow> bool) \<Rightarrow>
   'b node_scheme \<times> payer \<Rightarrow> 'b node_scheme \<times> payer \<Rightarrow> bool" where
  "task_step L jobs may x y \<longleftrightarrow> pay_step L jobs may x y \<and> fees (fst y) = fees (fst x)"

lemma task_pay_steps: "(task_step L jobs may)\<^sup>*\<^sup>* x y \<Longrightarrow> (pay_step L jobs may)\<^sup>*\<^sup>* x y"
  by (erule rtranclp_mono [THEN predicate2D, rotated]) (auto simp: task_step_def)

lemma run_fees: "wp m (\<lambda>_ n'. fees n' = f) (\<lambda>_ _. True) n \<Longrightarrow> m n = (Val r, n') \<Longrightarrow> fees n' = f"
  by (simp add: wp_def)

lemma wp_same_fees:
  "wp (record_outbound L i info) (\<lambda>_ n'. fees n' = fees n) (\<lambda>_ _. True) n"
  "wp (fail_outbound L i) (\<lambda>_ n'. fees n' = fees n) (\<lambda>_ _. True) n"
  "wp (kv_write L p s k v) (\<lambda>_ n'. fees n' = fees n) (\<lambda>_ _. True) n"
  "wp (getinvoice_write L amt expiry) (\<lambda>_ n'. fees n' = fees n) (\<lambda>_ _. True) n"
  by (simp_all add: record_outbound_def fail_outbound_def getinvoice_write_def get_invoice_def wp_simps Let_def
      split: option.split sum.split)

lemma wp_pay_fees:
  fixes n :: "'b node_scheme"
  shows "wp (pay_and_report L j) (\<lambda>_ n'. fees n' = fees n) (\<lambda>_ _. True) n"
proof -
  have p: "wp (prints ts) (\<lambda>_ n'. fees n' = fees n) (\<lambda>_ _. True) m" if "fees m = fees n" for ts and m :: "'b node_scheme"
    unfolding prints_def by (rule wp_forP [where I = "\<lambda>m. fees m = fees n"]) (use that in \<open>simp_all add: wp_simps\<close>)
  show ?thesis
    by (simp add: pay_and_report_def wp_bind wp_call wp_then wp_ret) (rule p, simp)
qed

lemmas step_fees = wp_same_fees [THEN run_fees] wp_pay_fees [THEN run_fees]

lemma offer_step_fees:
  "offer_step L (\<lambda>_. False) i info x y \<Longrightarrow> fees (fst y) = fees (fst x)"
  by (erule offer_step.cases) (auto dest: step_fees(3))

text \<open>The program's job is one of the interleavings: the one without events in between.\<close>

lemma offer_steps_unlocked:
  "(offer_step L (\<lambda>_. False) (job_id j) (job_info j))\<^sup>*\<^sup>* x y \<Longrightarrow>
   (task_step L jobs may)\<^sup>*\<^sup>* (fst x, Unlocked j (snd x)) (fst y, Unlocked j (snd y))"
proof (induction rule: rtranclp_induct)
  case (step y z)
  have "pay_step L jobs may (fst y, Unlocked j (snd y)) (fst z, Unlocked j (snd z))"
    by (rule pay_step.unlocked) (use step.hyps(2) in simp)
  then have "task_step L jobs may (fst y, Unlocked j (snd y)) (fst z, Unlocked j (snd z))"
    using offer_step_fees [OF step.hyps(2)] by (simp add: task_step_def)
  with step.IH show ?case by (rule rtranclp.rtrancl_into_rtrancl)
qed simp

lemma task_record_steps:
  assumes "jobs j" and "record_outbound L (job_id j) (job_info j) n = (Val (), n')"
  shows "(task_step L jobs may)\<^sup>*\<^sup>* (n, Idle) (n', Stored j)"
proof (cases "locked j")
  case True
  have "task_step L jobs may (n, Idle) (n, Locking j)" "task_step L jobs may (n, Locking j) (n', Stored j)"
    using assms True step_fees(1) [OF assms(2)]
    by (simp_all add: task_step_def pay_step.begin_locked pay_step.record_locked)
  then show ?thesis by (blast intro: converse_rtranclp_into_rtranclp)
next
  case False
  have "(task_step L jobs may)\<^sup>*\<^sup>* (n, Unlocked j Recording) (n', Unlocked j Recorded)"
    using offer_steps_unlocked [OF record_outbound_steps [OF assms(2)]] by simp
  moreover have "task_step L jobs may (n, Idle) (n, Unlocked j Recording)" "task_step L jobs may (n', Unlocked j Recorded) (n', Stored j)"
    using assms(1) False by (simp_all add: task_step_def pay_step.begin_unlocked pay_step.recorded)
  ultimately show ?thesis
    by (meson converse_rtranclp_into_rtranclp rtranclp.rtrancl_into_rtrancl)
qed

lemma task_run_job_steps:
  assumes "jobs j" and "run_job L j n = (Val (), n')"
  shows "(task_step L jobs may)\<^sup>*\<^sup>* (n, Idle) (n', Idle)"
proof -
  from assms(2) obtain n1 refused n2 where r: "record_outbound L (job_id j) (job_info j) n = (Val (), n1)"
    and p: "pay_and_report L j n1 = (Val refused, n2)"
    and f: "(if refused \<and> rolls_back j then fail_outbound L (job_id j) else ret ()) n2 = (Val (), n')"
    by (auto simp: run_job_def thenP_def elim!: bindP_cases)
  have "task_step L jobs may (n1, Stored j) (n2, if refused \<and> rolls_back j then Rejected j else Idle)"
    unfolding task_step_def by (intro conjI pay_step.pay [OF p]) (simp add: step_fees(5) [OF p])
  moreover have "(task_step L jobs may)\<^sup>*\<^sup>* (n2, if refused \<and> rolls_back j then Rejected j else Idle) (n', Idle)"
    using f step_fees(2) [of L "job_id j" n2 "()" n']
    by (auto simp: run_ret task_step_def split: if_splits intro!: r_into_rtranclp pay_step.roll_back)
  ultimately show ?thesis
    using task_record_steps [where jobs = jobs and j = j, OF assms(1) r] by (meson converse_rtranclp_into_rtranclp rtranclp_trans)
qed

lemmas record_steps = task_record_steps [THEN task_pay_steps]

section \<open>What events do to the payments\<close>

fun event_effect :: "payment_event \<Rightarrow> payments \<Rightarrow> payments" where
  "event_effect (PaymentSent p _ _ (Some i)) m = mark_sent p i m"
| "event_effect (PaymentFailed _ _ i) m = mark_failed i m"
| "event_effect _ m = m"

fun event_writes :: "payment_event \<Rightarrow> bool" where
  "event_writes (PaymentSent _ _ _ _) = True"
| "event_writes (PaymentFailed _ _ _) = True"
| "event_writes _ = False"

text \<open>The map the store holds.\<close>

definition stored_map :: "'l ldk_scheme \<Rightarrow> 'b node_scheme \<Rightarrow> payments option" where
  "stored_map L n = Option.bind (kv_get (store n) outbound_key) (dec L)"

text \<open>After a program the map in memory is \<open>m\<close>, and the stored one too if it was written.\<close>

definition leaves :: "'l ldk_scheme \<Rightarrow> payments \<Rightarrow> bool \<Rightarrow> 'b node_scheme \<Rightarrow> 'b node_scheme \<Rightarrow> bool" where
  "leaves L m written n n' \<longleftrightarrow> outbound n' = m
     \<and> stored_map L n' = (if written then Some m else stored_map L n)"

lemmas leaves_simps = leaves_def stored_map_def kv.get_put_if codec_ok_def

lemma wp_write_outbound_leaves:
  "codec_ok L \<Longrightarrow> outbound n = m \<Longrightarrow> wp (write_outbound L) (\<lambda>_. leaves L m True k) (\<lambda>_ _. True) n"
  by (simp add: wp_simps Let_def leaves_simps)

lemma wp_trace_only_leaves:
  assumes "trace_only m"
  shows "wp m (\<lambda>_. leaves L (outbound n) False n) (\<lambda>_ _. True) n"
proof -
  obtain as where "snd (m n) = n\<lparr>trace := trace n @ as\<rparr>" using assms by (auto simp: trace_only_def)
  then have "leaves L (outbound n) False n (snd (m n))" by (simp add: leaves_simps)
  then show ?thesis by (auto simp: wp_def split: prod.splits outcome.splits)
qed

lemma wp_sent_leaves:
  fixes n :: "'b node_scheme"
  assumes "codec_ok L" and "iter_ok L"
  shows "wp (handle_sent L p hash fee i)
    (\<lambda>_. leaves L (event_effect (PaymentSent p hash fee i) (outbound n)) True n) (\<lambda>_ _. True) n"
proof (cases i)
  case None
  have loop: "wp (forP es (sent_entry L p hash fee None)) (\<lambda>_ n'. outbound n' = outbound m) (\<lambda>_ _. True) m"
    for es and m :: "'b node_scheme"
    by (cases es) (auto simp: wp_simps sent_entry_def split: prod.splits)
  show ?thesis
    unfolding None handle_sent_def wp_then wp_bind wp_gets wp_ask
    by (rule wp_mono [OF loop]) (auto intro: wp_write_outbound_leaves [OF assms(1)])
next
  case (Some j)
  show ?thesis
    unfolding Some handle_sent_def wp_then wp_bind wp_gets wp_ask
    by (rule wp_mono [OF wp_sent_loop [OF iter_map_of(1) [OF assms(2)]]])
      (auto intro!: wp_write_outbound_leaves assms(1) simp: iter_map_of(2) [OF assms(2)] mark_sent_def split: option.splits)
qed

lemma wp_event_leaves:
  assumes "codec_ok L" and "iter_ok L"
  shows "wp (handle_payment_event L e) (\<lambda>_. leaves L (event_effect e (outbound n)) (event_writes e) n) (\<lambda>_ _. True) n"
proof (cases e)
  case (PaymentSent p hash fee i)
  then show ?thesis using wp_sent_leaves [OF assms] by simp
next
  case (PaymentFailed hash reason i)
  then show ?thesis
    by (auto simp: handle_failed_def wp_then wp_modify wp_print prompt_def mark_failed_def
        intro!: wp_write_outbound_leaves [OF assms(1)] split: option.splits)
next
  case (PaymentClaimed hash purpose amt)
  then show ?thesis by (simp add: handle_claimed_def wp_simps prompt_def Let_def leaves_simps)
qed (simp_all add: wp_trace_only_leaves trace_only_intros)

text \<open>The other steps.\<close>

lemma run_leaves: "wp m (\<lambda>_. leaves L x w n) (\<lambda>_ _. True) n \<Longrightarrow> m n = (Val r, n') \<Longrightarrow> leaves L x w n n'"
  by (simp add: wp_def)

lemma wp_record_leaves:
  "codec_ok L \<Longrightarrow> wp (record_outbound L i info) (\<lambda>_. leaves L (fmupd i info (outbound n)) True n) (\<lambda>_ _. True) n"
  by (auto simp: record_outbound_def wp_then wp_modify intro: wp_write_outbound_leaves)

lemma wp_fail_leaves:
  "codec_ok L \<Longrightarrow> wp (fail_outbound L i) (\<lambda>_. leaves L (mark_failed i (outbound n)) True n) (\<lambda>_ _. True) n"
  by (auto simp: fail_outbound_def wp_then wp_bind wp_gets wp_unwrap wp_modify mark_failed_def
      intro!: wp_write_outbound_leaves split: option.splits)

lemma wp_getinvoice_leaves:
  "wp (getinvoice_write L amt expiry) (\<lambda>_. leaves L (outbound n) False n) (\<lambda>_ _. True) n"
  by (simp add: getinvoice_write_def get_invoice_def wp_simps Let_def leaves_simps split: sum.splits)

lemma wp_pay_leaves: "wp (pay_and_report L j) (\<lambda>_. leaves L (outbound n) False n) (\<lambda>_ _. True) n"
proof -
  have p: "wp (prints ts) (\<lambda>_. leaves L (outbound n) False n) (\<lambda>_ _. True) m"
    if "leaves L (outbound n) False n m" for ts m
    unfolding prints_def by (rule wp_forP [where I = "leaves L (outbound n) False n"])
      (use that in \<open>simp_all add: leaves_simps wp_simps\<close>)
  show ?thesis
    by (simp add: pay_and_report_def wp_bind wp_call wp_then wp_ret) (rule p, simp add: leaves_simps)
qed

lemmas step_leaves = wp_event_leaves [THEN run_leaves] wp_record_leaves [THEN run_leaves] wp_fail_leaves [THEN run_leaves]
  wp_getinvoice_leaves [THEN run_leaves] wp_pay_leaves [THEN run_leaves]

end
