(* ===== verification/Interleaving_Properties.thy ===== *)
theory Interleaving_Properties
  imports Interleaving
begin

text \<open>
  What holds however the command line and the event handler are interleaved: the steps implement a
  machine with a copy of the payments in memory and one on disk, from which the properties of both copies
  follow, and the command line as it is written is one of the interleavings.
\<close>

section \<open>The command line as steps\<close>

text \<open>The jobs the commands start.\<close>

inductive cli_job :: "'l ldk_scheme \<Rightarrow> job \<Rightarrow> bool" for L where
  bolt11: "choose_amount (inv_amount_msat invoice) req = PayAmount amt \<Longrightarrow> cli_job L (bolt11_job L invoice req amt)"
| keysend: "cli_job L (keysend_job L p payee amt)"
| offer: "cli_job L (offer_job off i amt)"
| hrn: "cli_job L (hrn_job hrn i amt resolvers)"

text \<open>A run of \<open>m\<close> that returns is a sequence of steps between jobs.\<close>

definition in_steps :: "'l cli_lib_scheme \<Rightarrow> ('b node_scheme, 'a) prog \<Rightarrow> bool" where
  "in_steps L m \<longleftrightarrow> (\<forall>n x n' may. m n = (Val x, n') \<longrightarrow> (task_step L (cli_job L) may)\<^sup>*\<^sup>* (n, Idle) (n', Idle))"

named_theorems in_steps_intros

lemma in_steps_tasks: "in_steps L m \<Longrightarrow> m n = (Val x, n') \<Longrightarrow> (task_step L (cli_job L) may)\<^sup>*\<^sup>* (n, Idle) (n', Idle)"
  by (simp add: in_steps_def)

lemmas in_stepsD = in_steps_tasks [THEN task_pay_steps]

lemma in_steps_quiet:
  assumes "\<And>n x n'. m n = (Val x, n') \<Longrightarrow> quiet n n' \<and> fees n' = fees n"
  shows "in_steps L m"
proof -
  have "task_step L (cli_job L) may (n, Idle) (n', Idle)" if "m n = (Val x, n')" for n x n' may
    using assms [OF that] by (simp add: task_step_def pay_step.talk)
  then show ?thesis by (auto simp: in_steps_def)
qed

lemma filter_no_pay: "list_all (\<lambda>a. \<not> is_pay a \<and> \<not> is_write a) as \<Longrightarrow> filter is_pay as = []"
  by (induction as) auto

lemma in_steps_trace_only:
  fixes m :: "('b node_scheme, 'a) prog"
  assumes "trace_only m"
  shows "in_steps L m"
proof (rule in_steps_quiet)
  fix n n' :: "'b node_scheme" and x :: 'a
  obtain as where as: "snd (m n) = n\<lparr>trace := trace n @ as\<rparr>" "list_all (\<lambda>a. \<not> is_pay a \<and> \<not> is_write a) as"
    using assms by (auto simp: trace_only_def)
  assume "m n = (Val x, n')"
  then show "quiet n n' \<and> fees n' = fees n" using as by (simp add: quiet_def filter_no_pay)
qed

lemma in_steps_bind [in_steps_intros]:
  assumes "in_steps L m" and "\<And>x. in_steps L (f x)"
  shows "in_steps L (bindP m f)"
  unfolding in_steps_def
proof (intro allI impI)
  fix n y n' may
  assume "bindP m f n = (Val y, n')"
  then obtain x k where "m n = (Val x, k)" "f x k = (Val y, n')" by (auto elim!: bindP_cases)
  then show "(task_step L (cli_job L) may)\<^sup>*\<^sup>* (n, Idle) (n', Idle)"
    using in_steps_tasks [OF assms(1)] in_steps_tasks [OF assms(2)] by (blast intro: rtranclp_trans)
qed

lemma in_steps_then [in_steps_intros]: "in_steps L m \<Longrightarrow> in_steps L k \<Longrightarrow> in_steps L (thenP m k)"
  unfolding thenP_def by (rule in_steps_bind)

lemma in_steps_run_job: "cli_job L j \<Longrightarrow> in_steps L (run_job L j)"
  unfolding in_steps_def by (intro allI impI) (simp, rule task_run_job_steps)

lemma in_steps_invoice: "in_steps L (getinvoice_write L amt expiry)"
  unfolding in_steps_def by (intro allI impI) (simp add: r_into_rtranclp task_step_def pay_step.invoice step_fees(4))

lemma in_steps_confirm: "in_steps L (confirm amt)"
proof (rule in_steps_quiet)
  fix n n' :: "'b cli_node_scheme" and x
  have "list_all (\<lambda>a. \<not> is_pay a) as \<Longrightarrow> filter is_pay as = []" for as
    by (induction as) auto
  moreover assume "confirm amt n = (Val x, n')"
  ultimately show "quiet n n' \<and> fees n' = fees n"
    by (auto simp: confirm_def quiet_def Let_def run_simps list_all_iff dest: confirm_lines_not_pay split: prod.splits)
qed

lemmas in_steps_talk = trace_only_intros [THEN in_steps_trace_only]

lemma in_steps_cases [in_steps_intros]:
  "in_steps L a \<Longrightarrow> in_steps L b \<Longrightarrow> in_steps L (if c then a else b)"
  "in_steps L a \<Longrightarrow> (\<And>v. in_steps L (f v)) \<Longrightarrow> in_steps L (case x of None \<Rightarrow> a | Some v \<Rightarrow> f v)"
  "(\<And>e. in_steps L (g e)) \<Longrightarrow> (\<And>v. in_steps L (h v)) \<Longrightarrow> in_steps L (case y of Inl e \<Rightarrow> g e | Inr v \<Rightarrow> h v)"
  "in_steps L a \<Longrightarrow> (\<And>v vs. in_steps L (k v vs)) \<Longrightarrow> in_steps L (case ws of [] \<Rightarrow> a | v # vs \<Rightarrow> k v vs)"
  "in_steps L a \<Longrightarrow> in_steps L b \<Longrightarrow> in_steps L d \<Longrightarrow>
   in_steps L (case q of Confirmed \<Rightarrow> a | Declined \<Rightarrow> b | InputEnded \<Rightarrow> d)"
  by (simp_all split: option.split sum.split list.split confirmation.split)

lemma in_steps_ret [in_steps_intros]: "in_steps L (ret x)"
  by (rule in_steps_trace_only) (rule trace_only_ret)

lemma in_steps_send_payment: "in_steps L (send_payment L invoice req)"
proof (cases "choose_amount (inv_amount_msat invoice) req")
  case (PayAmount amt)
  then show ?thesis by (simp add: run_job_bolt11 in_steps_run_job cli_job.bolt11)
qed (simp_all add: send_payment_def in_steps_talk in_steps_intros)

lemma in_steps_keysend: "in_steps L (keysend L payee amt)"
  unfolding run_job_keysend
  by (rule in_steps_bind in_steps_run_job cli_job.keysend in_steps_talk | simp)+

lemma in_steps_pay_offer_now: "in_steps L (pay_offer_now L off i amt)"
  unfolding run_job_offer by (rule in_steps_intros in_steps_run_job cli_job.offer)+

lemma in_steps_pay_hrn: "in_steps L (pay_hrn L hrn req)"
proof (cases req)
  case None
  then show ?thesis by (simp add: pay_hrn_def) (rule in_steps_intros in_steps_talk | simp)+
next
  case (Some amt)
  show ?thesis
    unfolding Some run_job_hrn Let_def
    by (rule in_steps_intros in_steps_run_job cli_job.hrn in_steps_talk | simp)+
qed

lemma in_steps_pay_offer: "in_steps L (pay_offer L off req)"
  unfolding pay_offer_def
  by (rule in_steps_intros in_steps_pay_offer_now in_steps_confirm in_steps_talk | simp)+

lemma in_steps_payment_cmds:
  "in_steps L (cmd_sendpayment L ws)" "in_steps L (cmd_keysend L ws)" "in_steps L (cmd_getinvoice L ws)"
  unfolding cmd_sendpayment_def cmd_keysend_def cmd_getinvoice_def Let_def
  by (rule in_steps_intros in_steps_pay_offer in_steps_pay_hrn in_steps_send_payment in_steps_keysend
      in_steps_invoice in_steps_talk | simp)+

lemma in_steps_command: "in_steps L (command L line w ws)"
  unfolding command_def
  by (rule in_steps_cases(1) in_steps_payment_cmds in_steps_trace_only trace_only_intros)+

lemma in_steps_stdin: "in_steps L (modify (\<lambda>n. n\<lparr>stdin := ls\<rparr>))"
  by (rule in_steps_quiet) (auto simp: run_simps quiet_def)

lemma in_steps_item [in_steps_intros]:
  "(\<And>l. in_steps L (f l)) \<Longrightarrow> (\<And>e. in_steps L (g e)) \<Longrightarrow> in_steps L (case i of Line l \<Rightarrow> f l | ReadError e \<Rightarrow> g e)"
  by (cases i) simp_all

lemma in_steps_read_command: "in_steps L (read_command L)"
  unfolding read_command_def
  by (rule in_steps_intros in_steps_stdin in_steps_command in_steps_talk | simp)+

lemma in_steps_read_commands: "in_steps L (read_commands k L)"
proof (induction k)
  case (Suc k)
  then show ?case
    by (auto intro!: in_steps_bind in_steps_read_command in_steps_ret split: control.split)
qed (simp add: in_steps_ret)

lemma command_line_steps:
  assumes "poll_for_user_input k L n = (Val c, n')"
  shows "(pay_step L (cli_job L) may)\<^sup>*\<^sup>* (n, Idle) (n', Idle)"
proof -
  have "in_steps L (poll_for_user_input k L)"
    unfolding poll_for_user_input_def
    by (rule in_steps_intros in_steps_read_commands in_steps_talk | simp)+
  then show ?thesis using assms by (rule in_stepsD)
qed

section \<open>The node as steps\<close>

text \<open>The state is one the steps lead to from \<open>n0\<close>.\<close>

definition stepped ::
  "'l cli_lib_scheme \<Rightarrow> (payment_event \<Rightarrow> bool) \<Rightarrow> 'b node_scheme \<Rightarrow> 'b node_scheme \<Rightarrow> bool" where
  "stepped L may n0 n \<longleftrightarrow> (pay_step L (cli_job L) may)\<^sup>*\<^sup>* (n0, Idle) (n, Idle)"

lemma stepped_quiet: "stepped L may n0 n \<Longrightarrow> quiet n n' \<Longrightarrow> stepped L may n0 n'"
  unfolding stepped_def by (erule rtranclp.rtrancl_into_rtrancl) (rule pay_step.talk)

lemma keeps_stepped:
  assumes "in_steps L m"
  shows "keeps (stepped L may n0) (\<lambda>_. True) m"
  using in_stepsD [OF assms]
  by (auto simp: keeps_def wp_def stepped_def split: prod.split outcome.split intro: rtranclp_trans)

lemma keeps_event_stepped:
  assumes "\<And>pe. e = PaymentEvent pe \<Longrightarrow> may pe"
  shows "keeps (stepped L may n0) (\<lambda>_. True) (handle_ldk_events L R net e)"
proof (cases e)
  case (PaymentEvent pe)
  have "stepped L may n0 n'" if "stepped L may n0 n" "handle_payment_event L pe n = (Val (), n')" for n n'
    using that pay_step.event [of may pe L n n', OF assms [OF PaymentEvent]]
    unfolding stepped_def by (blast intro: rtranclp.rtrancl_into_rtrancl)
  then show ?thesis
    unfolding PaymentEvent handle_ldk_events.simps
    by (auto simp: keeps_def wp_def split: prod.split outcome.split)
qed (simp_all add: keeps_stepped in_steps_trace_only trace_only_intros in_steps_ret)

interpretation steps: node_invariant S R "\<lambda>e. \<forall>pe. e = PaymentEvent pe \<longrightarrow> may pe" "stepped S may n0" "\<lambda>_. True"
  for S R may n0
proof unfold_locales
  have acts: "stepped S may n0 (n\<lparr>trace := trace n @ as\<rparr>)"
    if "list_all (\<lambda>a. \<not> is_pay a \<and> \<not> is_write a) as" "stepped S may n0 n" for n :: "'x running_scheme" and n0 as
    using that by (auto intro: stepped_quiet simp: quiet_def filter_no_pay)
  then show "stepped S may n0 (n\<lparr>trace := trace n @ as\<rparr>)"
    if "list_all (\<lambda>a. \<not> is_pay a \<and> \<not> is_write a) as" "stepped S may n0 n" for n :: "'x running_scheme" and n0 as
    using that by blast
  show "stepped S may n0 (n\<lparr>stdin := rest\<rparr>)" if "stepped S may n0 n" for n :: "'x running_scheme" and n0 rest
    using that by (auto intro: stepped_quiet simp: quiet_def)
  show "keeps (stepped S may n0) (\<lambda>_. True) (command S line w ws)" for n0 :: "'x running_scheme" and line w ws
    by (rule keeps_stepped) (rule in_steps_command)
  show "keeps (stepped S may n0) (\<lambda>_. True) (handle_ldk_events S R net e)"
    if "\<forall>pe. e = PaymentEvent pe \<longrightarrow> may pe" for n0 :: "'x running_scheme" and net e
    by (rule keeps_event_stepped) (use that in blast)
  show "keeps (stepped S may n0) (\<lambda>_. True) (poll_once R)" for n0 :: "'x running_scheme"
    by (rule keeps_poll_once) (auto intro: acts stepped_quiet simp: quiet_def)
qed simp_all

text \<open>
  C6: A run of the node, by commands the user types, events, refreshes and ticks in any order, is a
  sequence of the steps of the interleaved system with the events of the schedule, and with the four ways to
  pay as its jobs: each records a new entry, asks LDK, and for invoices and spontaneous payments marks
  the entry if the payment was refused.
\<close>

theorem node_takes_steps:
  assumes "run_schedule S R args cli as n = (Val r, n')"
  shows "(pay_step S (cli_job S) (\<lambda>pe. HandleEvent (PaymentEvent pe) \<in> set as))\<^sup>*\<^sup>* (n, Idle) (n', Idle)"
proof -
  have "stepped S (\<lambda>pe. HandleEvent (PaymentEvent pe) \<in> set as) n n'"
    by (rule keeps_Val [OF steps.keeps_schedule _ assms]) (auto simp: stepped_def)
  then show ?thesis by (simp add: stepped_def)
qed

section \<open>Two copies of the payments\<close>

text \<open>
  The abstract machine: the payments in memory, the payments on disk, and what the task that writes without
  the lock has done. A change under the lock puts the new payments on disk; the unlocked write
  puts there what was in memory when it was encoded.
\<close>

datatype pending = Clean | Inserted | Snapshot "payments option"

type_synonym copies = "payments \<times> payments option \<times> pending"

inductive copy_step ::
  "((payments \<Rightarrow> payments) \<Rightarrow> bool) \<Rightarrow> (payment_id \<Rightarrow> payment_info \<Rightarrow> bool) \<Rightarrow> copies \<Rightarrow> copies \<Rightarrow> bool"
  for change new where
  both: "change f \<Longrightarrow> copy_step change new (m, d, s) (f m, Some (f m), s)"
| inserted: "new i info \<Longrightarrow> copy_step change new (m, d, Clean) (fmupd i info m, d, Inserted)"
| snapshot: "copy_step change new (m, d, Inserted) (m, d, Snapshot (Some m))"
| flush: "copy_step change new (m, d, Snapshot x) (m, x, Clean)"

inductive_cases copy_stepE: "copy_step change new x y"

fun pending_of :: "'l ldk_scheme \<Rightarrow> payer \<Rightarrow> pending" where
  "pending_of L (Unlocked _ Encoding) = Inserted"
| "pending_of L (Unlocked _ (Writing b)) = Snapshot (dec L b)"
| "pending_of L _ = Clean"

definition copies_of :: "'l ldk_scheme \<Rightarrow> 'b node_scheme \<times> payer \<Rightarrow> copies" where
  "copies_of L x = (outbound (fst x), stored_map L (fst x), pending_of L (snd x))"

text \<open>The changes the jobs and the events make.\<close>

inductive pay_change :: "(job \<Rightarrow> bool) \<Rightarrow> (payment_event \<Rightarrow> bool) \<Rightarrow> (payments \<Rightarrow> payments) \<Rightarrow> bool" for jobs may where
  started: "jobs j \<Longrightarrow> locked j \<Longrightarrow> pay_change jobs may (fmupd (job_id j) (job_info j))"
| refused: "jobs j \<Longrightarrow> rolls_back j \<Longrightarrow> pay_change jobs may (mark_failed (job_id j))"
| reported: "may e \<Longrightarrow> event_writes e \<Longrightarrow> pay_change jobs may (event_effect e)"

definition unlocked_new :: "(job \<Rightarrow> bool) \<Rightarrow> payment_id \<Rightarrow> payment_info \<Rightarrow> bool" where
  "unlocked_new jobs i info \<longleftrightarrow> (\<exists>j. jobs j \<and> \<not> locked j \<and> i = job_id j \<and> info = job_info j)"

text \<open>The job at hand is one the commands may start.\<close>

fun job_allowed :: "(job \<Rightarrow> bool) \<Rightarrow> payer \<Rightarrow> bool" where
  "job_allowed jobs Idle = True"
| "job_allowed jobs (Locking j) = (jobs j \<and> locked j)"
| "job_allowed jobs (Unlocked j t) = (jobs j \<and> \<not> locked j)"
| "job_allowed jobs (Stored j) = jobs j"
| "job_allowed jobs (Rejected j) = (jobs j \<and> rolls_back j)"

lemma job_allowed_step: "pay_step L jobs may x y \<Longrightarrow> job_allowed jobs (snd x) \<Longrightarrow> job_allowed jobs (snd y)"
  by (erule pay_stepE) auto

lemma event_not_written: "\<not> event_writes e \<Longrightarrow> event_effect e m = m"
  by (cases e) auto

lemma copies_unchanged: "leaves L (outbound n) False n n' \<Longrightarrow> copies_of L (n', p) = copies_of L (n, p)"
  by (simp add: copies_of_def leaves_def)

lemma copies_written:
  "leaves L (f (outbound n)) True n n' \<Longrightarrow> pay_change jobs may f \<Longrightarrow> pending_of L p = pending_of L q \<Longrightarrow>
   copy_step (pay_change jobs may) new (copies_of L (n, p)) (copies_of L (n', q))"
  by (simp add: copies_of_def leaves_def copy_step.both)

lemma offer_step_copies:
  assumes "codec_ok L" and "jobs j" and "\<not> locked j"
    and "offer_step L (\<lambda>_. False) (job_id j) (job_info j) (n, t) (n', t')"
  shows "copy_step (pay_change jobs may) (unlocked_new jobs) (copies_of L (n, Unlocked j t)) (copies_of L (n', Unlocked j t'))"
  using assms(4)
proof (cases rule: offer_step.cases)
  case insert
  have "unlocked_new jobs (job_id j) (job_info j)" using assms(2,3) by (auto simp: unlocked_new_def)
  then show ?thesis
    using insert by (simp add: copies_of_def stored_map_def copy_step.inserted)
next
  case encode
  then show ?thesis using assms(1) by (simp add: copies_of_def codec_ok_def copy_step.snapshot)
next
  case (store b)
  from store(3) have "outbound n' = outbound n" "stored_map L n' = dec L b"
    by (auto simp: run_simps Let_def stored_map_def outbound_key_def kv.get_put split: if_splits)
  then show ?thesis using store(1,2) by (simp add: copies_of_def copy_step.flush)
qed simp

lemma pay_step_copies:
  assumes "codec_ok L" and "iter_ok L" and "pay_step L jobs may x y" and "job_allowed jobs (snd x)"
  shows "copies_of L y = copies_of L x \<or> copy_step (pay_change jobs may) (unlocked_new jobs) (copies_of L x) (copies_of L y)"
  using assms(3,4)
proof (cases rule: pay_step.cases)
  case (record_locked j n n')
  then show ?thesis
    using assms(4) copies_written [OF step_leaves(2) [OF assms(1) record_locked(3)] pay_change.started] by simp
next
  case (unlocked j n t n' t')
  then show ?thesis using assms(4) offer_step_copies [OF assms(1) _ _ unlocked(3)] by simp
next
  case (pay j n refused n')
  then show ?thesis using step_leaves(5) [OF pay(3)] by (simp add: copies_of_def leaves_def)
next
  case (roll_back j n n')
  then show ?thesis
    using assms(4) copies_written [OF step_leaves(3) [OF assms(1) roll_back(3)] pay_change.refused] by simp
next
  case (invoice amt expiry n n')
  then show ?thesis using copies_unchanged [OF step_leaves(4) [OF invoice(3)]] by simp
next
  case (talk n n')
  then show ?thesis by (simp add: copies_of_def quiet_def stored_map_def)
next
  case (event e n n' p)
  note l = step_leaves(1) [OF assms(1,2) event(4)]
  show ?thesis
  proof (cases "event_writes e")
    case True
    then have "pay_change jobs may (event_effect e)" using event(3) by (simp add: pay_change.reported)
    then have "copy_step (pay_change jobs may) (unlocked_new jobs) (copies_of L (n, p)) (copies_of L (n', p))"
      by (rule copies_written [OF _ _ refl, rotated]) (use l True in simp)
    then show ?thesis using event(1,2) by simp
  next
    case False
    with l event show ?thesis using copies_unchanged [of L n n' p] by (simp add: event_not_written)
  qed
qed (simp_all add: copies_of_def)

text \<open>
  C5: Every interleaving of the command line with the events does to the two copies of the payments what a
  run of the abstract machine does: a locked recording, a rollback and a reported outcome change both
  copies alike, and an unlocked recording is three steps, of which the last puts an older copy on disk.
\<close>

theorem interleavings_refine_copies:
  assumes "codec_ok L" and "iter_ok L" and "(pay_step L jobs may)\<^sup>*\<^sup>* (n, Idle) x"
  shows "(copy_step (pay_change jobs may) (unlocked_new jobs))\<^sup>*\<^sup>* (copies_of L (n, Idle)) (copies_of L x)"
proof -
  have "job_allowed jobs (snd x) \<and>
      (copy_step (pay_change jobs may) (unlocked_new jobs))\<^sup>*\<^sup>* (copies_of L (n, Idle)) (copies_of L x)"
    using assms(3)
  proof (induction rule: rtranclp_induct)
    case (step y z)
    then show ?case
      using pay_step_copies [OF assms(1,2) step.hyps(2)] job_allowed_step [OF step.hyps(2)]
      by (metis rtranclp.rtrancl_into_rtrancl)
  qed simp
  then show ?thesis by blast
qed

section \<open>What follows for both copies\<close>

text \<open>
  \<open>P\<close> holds of every copy of the payments there is. It is an invariant of the machine if no change and no
  new entry breaks it.
\<close>

fun every_copy :: "(payments \<Rightarrow> bool) \<Rightarrow> copies \<Rightarrow> bool" where
  "every_copy P (m, d, s) \<longleftrightarrow> P m \<and> (\<forall>x. d = Some x \<longrightarrow> P x) \<and> (\<forall>x. s = Snapshot (Some x) \<longrightarrow> P x)"

definition kept_by :: "(payments \<Rightarrow> bool) \<Rightarrow> ((payments \<Rightarrow> payments) \<Rightarrow> bool) \<Rightarrow> (payment_id \<Rightarrow> payment_info \<Rightarrow> bool) \<Rightarrow> bool" where
  "kept_by P change new \<longleftrightarrow> (\<forall>f m. change f \<longrightarrow> P m \<longrightarrow> P (f m)) \<and> (\<forall>i info m. new i info \<longrightarrow> P m \<longrightarrow> P (fmupd i info m))"

interpretation copies: invariant_system "\<lambda>x. kept_by P change new \<and> every_copy P x" "copy_step change new"
    "\<lambda>x. kept_by P change new \<and> every_copy P x" for P change new
  by unfold_locales (auto simp: kept_by_def elim!: copy_stepE)

text \<open>Without unlocked recordings the copy on disk is the one in memory.\<close>

definition in_sync :: "copies \<Rightarrow> bool" where
  "in_sync x \<longleftrightarrow> snd x = (Some (fst x), Clean)"

interpretation synced_copies: invariant_system in_sync "copy_step change (\<lambda>_ _. False)" in_sync for change
  by unfold_locales (auto simp: in_sync_def elim!: copy_stepE)

lemma synced_stored: "synced L n \<longleftrightarrow> stored_map L n = Some (outbound n)"
  by (simp add: synced_def stored_map_def bind_eq_Some_conv)

lemma synced_copies_of: "synced L n \<longleftrightarrow> in_sync (copies_of L (n, Idle))"
  by (simp add: synced_stored in_sync_def copies_of_def)

text \<open>
  C7: As long as only invoices and spontaneous payments are paid, the stored payments decode to those in
  memory after every step, not only between commands.
\<close>

theorem locked_jobs_stay_synced:
  assumes "codec_ok L" and "iter_ok L" and "\<And>j. jobs j \<Longrightarrow> locked j" and "synced L n"
    and "(pay_step L jobs may)\<^sup>*\<^sup>* (n, Idle) (n', p)"
  shows "synced L n'"
proof -
  have "unlocked_new jobs = (\<lambda>_ _. False)" using assms(3) by (auto simp: unlocked_new_def fun_eq_iff)
  then have "in_sync (copies_of L (n', p))"
    using interleavings_refine_copies [OF assms(1,2,5)] assms(4) synced_copies.inv_reachable
    by (simp add: synced_copies_of)
  then show ?thesis by (simp add: synced_stored in_sync_def copies_of_def)
qed

section \<open>Payments that succeeded have their preimage\<close>

text \<open>
  The shape of an entry: a payment that succeeded has its preimage, the proof of payment, a pending one
  has none, and its amount is known.
\<close>

definition well_shaped :: "payments \<Rightarrow> bool" where
  "well_shaped m \<longleftrightarrow> (\<forall>i e. fmlookup m i = Some e \<longrightarrow>
     (status e = Succeeded \<longrightarrow> preimage e \<noteq> None) \<and> (status e = Pending \<longrightarrow> preimage e = None)
     \<and> amt_msat e \<noteq> MillisatAmount None)"

lemma shaped_new: "well_shaped m \<Longrightarrow> well_shaped (fmupd i (payment_entry sec Pending amt) m)"
  by (auto simp: well_shaped_def payment_entry_def)

lemma shaped_marked:
  "well_shaped m \<Longrightarrow> well_shaped (mark_failed i m)" "well_shaped m \<Longrightarrow> well_shaped (mark_sent p i m)"
  by (auto simp: mark_failed_def mark_sent_def well_shaped_def split: option.split)

lemma shaped_effect: "well_shaped m \<Longrightarrow> well_shaped (event_effect e m)"
  by (induction e m rule: event_effect.induct) (simp_all add: shaped_marked)

lemma shaped_reconciled: "well_shaped m \<Longrightarrow> well_shaped (reconciled ids m)"
  by (auto simp: well_shaped_def reconciled_def)

lemma shaped_job: "cli_job L j \<Longrightarrow> well_shaped m \<Longrightarrow> well_shaped (fmupd (job_id j) (job_info j) m)"
  by (erule cli_job.cases) (simp_all add: bolt11_job_def keysend_job_def offer_job_def hrn_job_def shaped_new)

lemma shaped_kept: "kept_by well_shaped (pay_change (cli_job L) may) (unlocked_new (cli_job L))"
  by (auto simp: kept_by_def unlocked_new_def elim!: pay_change.cases intro: shaped_job shaped_marked shaped_effect)

section \<open>Every payment asked for is stored\<close>

definition pays :: "'b world_scheme \<Rightarrow> hist" where
  "pays n = filter is_pay (trace n)"

text \<open>The payments LDK was asked for.\<close>

definition asked :: "'b world_scheme \<Rightarrow> payment_id set" where
  "asked n = pay_id ` {c. Pay c \<in> set (trace n)}"

definition has :: "payment_id set \<Rightarrow> payments \<Rightarrow> bool" where
  "has S m \<longleftrightarrow> (\<forall>i \<in> S. fmlookup m i \<noteq> None)"

definition covered :: "'l ldk_scheme \<Rightarrow> payment_id set \<Rightarrow> 'b node_scheme \<Rightarrow> bool" where
  "covered L S n \<longleftrightarrow> has S (outbound n) \<and> (\<exists>m. stored_map L n = Some m \<and> has S m)"

fun payer_inv :: "'l ldk_scheme \<Rightarrow> 'b node_scheme \<times> payer \<Rightarrow> bool" where
  "payer_inv L (n, Unlocked j Encoding) \<longleftrightarrow> covered L (asked n) n \<and> has {job_id j} (outbound n)"
| "payer_inv L (n, Unlocked j (Writing b)) \<longleftrightarrow> covered L (asked n) n \<and> has {job_id j} (outbound n)
     \<and> (\<exists>m. dec L b = Some m \<and> has (insert (job_id j) (asked n)) m)"
| "payer_inv L (n, Unlocked j Recorded) \<longleftrightarrow> covered L (insert (job_id j) (asked n)) n"
| "payer_inv L (n, Stored j) \<longleftrightarrow> covered L (insert (job_id j) (asked n)) n"
| "payer_inv L (n, Rejected j) \<longleftrightarrow> covered L (insert (job_id j) (asked n)) n"
| "payer_inv L (n, _) \<longleftrightarrow> covered L (asked n) n"

lemma has_simps [simp]:
  "has (insert i S) m \<longleftrightarrow> fmlookup m i \<noteq> None \<and> has S m" "has {} m"
  by (auto simp: has_def)

lemma has_changes:
  "has S m \<Longrightarrow> has S (fmupd i e m)" "has S m \<Longrightarrow> has S (mark_failed i m)" "has S m \<Longrightarrow> has S (mark_sent p i m)"
  by (auto simp: has_def mark_failed_def mark_sent_def split: option.split)

lemma has_effect: "has S m \<Longrightarrow> has S (event_effect e m)"
  by (induction e m rule: event_effect.induct) (simp_all add: has_changes)

lemma covered_leaves:
  "covered L S n \<Longrightarrow> has S x \<Longrightarrow> leaves L x w n n' \<Longrightarrow> covered L S n'"
  by (auto simp: covered_def leaves_def split: if_splits)

lemma asked_alt: "asked n = pay_id ` {c. Pay c \<in> set (pays n)}"
  by (simp add: asked_def pays_def)

lemma asked_pays: "pays n' = pays n \<Longrightarrow> asked n' = asked n"
  by (simp add: asked_alt)

lemma asked_paid: "pays n' = pays n @ [Pay c] \<Longrightarrow> asked n' = insert (pay_id c) (asked n)"
  by (auto simp: asked_alt)

text \<open>Only the step that pays asks for a payment.\<close>

lemma wp_same_pays:
  "wp (record_outbound L i info) (\<lambda>_ n'. pays n' = pays n) (\<lambda>_ _. True) n"
  "wp (fail_outbound L i) (\<lambda>_ n'. pays n' = pays n) (\<lambda>_ _. True) n"
  "wp (kv_write L p s k v) (\<lambda>_ n'. pays n' = pays n) (\<lambda>_ _. True) n"
  "wp (getinvoice_write L amt expiry) (\<lambda>_ n'. pays n' = pays n) (\<lambda>_ _. True) n"
  by (simp_all add: record_outbound_def fail_outbound_def getinvoice_write_def get_invoice_def wp_simps Let_def
      pays_def split: option.split sum.split)

lemma wp_pay_pays:
  fixes n :: "'b node_scheme"
  shows "wp (pay_and_report L j) (\<lambda>_ n'. pays n' = pays n @ [Pay (job_call j)]) (\<lambda>_ _. True) n"
proof -
  let ?I = "\<lambda>m. pays m = pays n @ [Pay (job_call j)]"
  have p: "wp (prints ts) (\<lambda>_. ?I) (\<lambda>_ _. True) m" if "?I m" for ts and m :: "'b node_scheme"
    unfolding prints_def by (rule wp_forP [where I = ?I]) (use that in \<open>simp_all add: pays_def wp_simps\<close>)
  show ?thesis
    by (simp add: pay_and_report_def wp_bind wp_call wp_then wp_ret) (rule p, simp add: pays_def)
qed

lemma run_pays: "wp m (\<lambda>_ n'. pays n' = ps) (\<lambda>_ _. True) n \<Longrightarrow> m n = (Val r, n') \<Longrightarrow> pays n' = ps"
  by (simp add: wp_def)

interpretation pays: frame "\<lambda>n. pays n = ps" "\<lambda>_. True" "\<lambda>a. \<not> is_pay a" for ps
  by unfold_locales (simp_all add: pays_def)

lemma event_same_pays:
  fixes n :: "'b cli_node_scheme"
  shows "handle_payment_event L e n = (Val (), n') \<Longrightarrow> pays n' = pays n"
  by (rule keeps_Val [OF pays.keeps_any_payment_event refl])

text \<open>What the invariant says of the state and the phase survives an event.\<close>

lemma payer_inv_event:
  assumes "payer_inv L (n, p)" and "leaves L (event_effect e (outbound n)) w n n'" and "asked n' = asked n"
  shows "payer_inv L (n', p)"
proof -
  have c: "covered L S n \<Longrightarrow> covered L S n'" for S
    using covered_leaves [OF _ has_effect assms(2)] by (simp add: covered_def)
  have h: "has S (outbound n) \<Longrightarrow> has S (outbound n')" for S
    using assms(2) has_effect by (simp add: leaves_def)
  show ?thesis
    using assms(1) c h assms(3) by (cases "(L, n, p)" rule: payer_inv.cases) (simp_all del: has_simps)
qed

lemma payer_inv_offer:
  assumes L: "codec_ok L" and "payer_inv L (n, Unlocked j t)"
    and "offer_step L (\<lambda>_. False) (job_id j) (job_info j) (n, t) (n', t')"
  shows "payer_inv L (n', Unlocked j t')"
  using assms(3)
proof (cases rule: offer_step.cases)
  case insert
  have "leaves L (outbound n') False (n\<lparr>outbound := outbound n'\<rparr>) n'" "asked n' = asked n"
    using insert by (simp_all add: leaves_def stored_map_def asked_def)
  with insert assms(2) show ?thesis by (auto simp: covered_def stored_map_def has_changes)
next
  case encode
  with assms(2) L show ?thesis by (auto simp: covered_def codec_ok_def)
next
  case (store b)
  from store(3) have "outbound n' = outbound n" "stored_map L n' = dec L b"
    by (auto simp: run_simps Let_def stored_map_def outbound_key_def kv.get_put split: if_splits)
  moreover have "asked n' = asked n" by (rule asked_pays) (rule run_pays [OF wp_same_pays(3) store(3)])
  ultimately show ?thesis using store(1,2) assms(2) by (auto simp: covered_def)
qed simp

lemma payer_inv_step:
  fixes x y :: "'b cli_node_scheme \<times> payer"
  assumes L: "codec_ok L" "iter_ok L" and "pay_step L jobs may x y" and inv: "payer_inv L x"
  shows "payer_inv L y"
  using assms(3)
proof (cases rule: pay_step.cases)
  case (record_locked j n n')
  have "asked n' = asked n" by (rule asked_pays) (rule run_pays [OF wp_same_pays(1) record_locked(3)])
  then show ?thesis
    using record_locked(1,2) inv step_leaves(2) [OF L(1) record_locked(3)]
    by (auto simp: covered_def has_changes leaves_def)
next
  case (unlocked j n t n' t')
  then show ?thesis using payer_inv_offer [OF L(1) _ unlocked(3)] inv by simp
next
  case (pay j n refused n')
  have "asked n' = insert (job_id j) (asked n)"
    using asked_paid [OF run_pays [OF wp_pay_pays pay(3)]] by (simp add: job_id_def)
  moreover have "covered L S n \<Longrightarrow> covered L S n'" for S
    using covered_leaves [OF _ _ step_leaves(5) [OF pay(3)]] by (simp add: covered_def)
  ultimately show ?thesis using pay(1,2) inv by simp
next
  case (roll_back j n n')
  have "asked n' = asked n" by (rule asked_pays) (rule run_pays [OF wp_same_pays(2) roll_back(3)])
  moreover have "covered L S n \<Longrightarrow> covered L S n'" for S
    using covered_leaves [OF _ has_changes(2) step_leaves(3) [OF L(1) roll_back(3)]] by (simp add: covered_def)
  ultimately show ?thesis using roll_back(1,2) inv by (auto simp: covered_def)
next
  case (invoice amt expiry n n')
  have "asked n' = asked n" by (rule asked_pays) (rule run_pays [OF wp_same_pays(4) invoice(3)])
  moreover have "covered L S n \<Longrightarrow> covered L S n'" for S
    using covered_leaves [OF _ _ step_leaves(4) [OF invoice(3)]] by (simp add: covered_def)
  ultimately show ?thesis using invoice(1,2) inv by simp
next
  case (talk n n')
  then show ?thesis using inv by (simp add: quiet_def covered_def stored_map_def asked_alt pays_def)
next
  case (event e n n' p)
  show ?thesis
    using payer_inv_event [OF _ step_leaves(1) [OF L event(4)] asked_pays [OF event_same_pays [OF event(4)]]]
      event(1,2) inv by simp
qed (use inv in simp_all)

interpretation payer: invariant_system "\<lambda>x :: 'b cli_node_scheme \<times> payer. codec_ok L \<and> iter_ok L \<and> payer_inv L x"
    "pay_step L jobs may" "\<lambda>x. codec_ok L \<and> iter_ok L \<and> payer_inv L x"
  for L :: "'l cli_lib_scheme" and jobs may
  by unfold_locales (auto intro: payer_inv_step)

lemma payer_inv_covered: "payer_inv L (n, p) \<Longrightarrow> covered L (asked n) n"
  by (cases "(L, n, p)" rule: payer_inv.cases) (auto simp: covered_def)

lemma asked_covered:
  fixes n :: "'b cli_node_scheme"
  assumes "codec_ok L" and "iter_ok L" and "synced L n" and "has (asked n) (outbound n)"
    and "(pay_step L jobs may)\<^sup>*\<^sup>* (n, Idle) (n', p)"
  shows "payer_inv L (n', p)"
proof -
  have "payer_inv L (n, Idle)" using assms(3,4) by (simp add: covered_def synced_stored)
  then show ?thesis using payer.inv_reachable [OF _ assms(5)] assms(1,2) by blast
qed

text \<open>A node that has started has stored its payments and asked for none.\<close>

lemma started_ready:
  fixes n :: "'b running_scheme"
  assumes "codec_ok S" and "started S R args (cli, n)"
  shows "synced S n" and "asked n = {}"
proof -
  show "synced S n" using reached.inv_init [OF assms(2)] assms(1) by (simp add: node_ok_def)
  obtain n0 n1 :: "'b running_scheme" where n: "trace n0 = []" "start_node S R n0 = (Val (Some args), n1)"
    "greeting S n1 = (Val (), n)"
    using assms(2) by (auto simp: started_def)
  have "pays n1 = []"
    by (rule keeps_Val [OF keeps_start_node [OF pays.frame_axioms] _ n(2)]) (simp_all add: pays_def n(1))
  then have "pays n = []" by (rule keeps_Val [OF pays.keeps_talk [OF trace_only_ticks(6)] _ n(3)])
  then show "asked n = {}" by (simp add: asked_alt)
qed

lemma has_reconciled: "has S m \<Longrightarrow> has S (reconciled ids m)"
  by (simp add: has_def reconciled_def)

text \<open>
  C4: Once the node has started, whatever events are handled at which point of a command, at every moment
  every payment LDK was ever asked for has an entry in memory and in the stored map: a node that dies
  there and starts again on the same store, \<open>k\<close>, loads a map that has all of them.
\<close>

theorem asked_payments_survive_crash:
  fixes n n' k :: "'b running_scheme"
  assumes "codec_ok S" and "iter_ok S" and "\<And>h. kv_write_ok S h" and "started S R args (cli, n)"
    and "(pay_step S jobs may)\<^sup>*\<^sup>* (n, Idle) (n', p)" and "store k = store n'"
  shows "\<exists>k'. load_payments S k = (Val (), k') \<and> has (asked n') (outbound n') \<and> has (asked n') (outbound k')"
proof -
  have "covered S (asked n') n'"
    using payer_inv_covered [OF asked_covered [OF assms(1,2) _ _ assms(5)]] started_ready [OF assms(1,4)] by simp
  then obtain m where m: "stored_map S n' = Some m" "has (asked n') m" "has (asked n') (outbound n')"
    by (auto simp: covered_def)
  then obtain b where "kv_get (store k) outbound_key = Some b" "dec S b = Some m"
    by (auto simp: stored_map_def bind_eq_Some_conv assms(6))
  from load_payments_reconciles [OF assms(1-3) this] show ?thesis
    using m(2,3) has_reconciled by (auto simp: outbound_written_def)
qed

text \<open>
  C9: If the payments a node loaded at its start are well shaped, then at every point of every
  interleaving of its commands with whatever events LDK reports, a payment that is recorded as succeeded
  has its preimage, a pending one has none, and every amount is known: in memory, in the store, and in
  what a node that dies there loads when it starts again on the same store, \<open>k\<close>.
\<close>

theorem payments_well_shaped:
  fixes n n' k :: "'b running_scheme"
  assumes "codec_ok S" and "iter_ok S" and "\<And>h. kv_write_ok S h" and "started S R args (cli, n)"
    and "well_shaped (outbound n)" and "(pay_step S (cli_job S) may)\<^sup>*\<^sup>* (n, Idle) (n', p)" and "store k = store n'"
  shows "well_shaped (outbound n') \<and> (\<exists>m. stored_map S n' = Some m \<and> well_shaped m)
    \<and> (\<exists>k'. load_payments S k = (Val (), k') \<and> well_shaped (outbound k'))"
proof -
  note ready = started_ready [OF assms(1,4)]
  have "every_copy well_shaped (copies_of S (n, Idle))"
    using assms(5) ready(1) by (simp add: copies_of_def synced_stored)
  then have shaped: "every_copy well_shaped (copies_of S (n', p))"
    using copies.inv_reachable [OF _ interleavings_refine_copies [OF assms(1,2,6)]] shaped_kept by blast
  have "payer_inv S (n', p)"
    using asked_covered [OF assms(1,2) ready(1) _ assms(6)] ready(2) by simp
  then obtain m where m: "stored_map S n' = Some m" using payer_inv_covered [of S n' p] by (auto simp: covered_def)
  then obtain b where "kv_get (store k) outbound_key = Some b" "dec S b = Some m"
    by (auto simp: stored_map_def bind_eq_Some_conv assms(7))
  from load_payments_reconciles [OF assms(1-3) this] shaped m show ?thesis
    by (auto simp: copies_of_def outbound_written_def shaped_reconciled)
qed

section \<open>Commands can always finish\<close>

lemma pay_and_report_returns:
  fixes n :: "'b world_scheme"
  shows "\<exists>refused n'. pay_and_report L j n = (Val refused, n')"
proof -
  have p: "wp (prints ts) (\<lambda>_ _. True) (\<lambda>_ _. False) m" for ts and m :: "'b world_scheme"
    unfolding prints_def by (rule wp_forP [where I = "\<lambda>_. True"]) (simp_all add: wp_simps)
  have "wp (pay_and_report L j) (\<lambda>_ _. True) (\<lambda>_ _. False) n"
    by (simp add: pay_and_report_def wp_bind wp_call wp_then wp_ret p)
  then show ?thesis by (auto simp: wp_def split: prod.splits outcome.splits)
qed

lemma record_returns: "(\<And>h. kv_write_ok L h) \<Longrightarrow> \<exists>n'. record_outbound L i info n = (Val (), n')"
  by (simp add: record_outbound_def run_simps Let_def)

lemma fail_returns:
  "(\<And>h. kv_write_ok L h) \<Longrightarrow> fmlookup (outbound n) i = Some e \<Longrightarrow> \<exists>n'. fail_outbound L i n = (Val (), n')"
  by (simp add: fail_outbound_def run_simps Let_def)

lemma finish_stored:
  fixes n :: "'b cli_node_scheme"
  assumes "codec_ok L" and "iter_ok L" and "\<And>h. kv_write_ok L h" and "payer_inv L (n, Stored j)"
  shows "\<exists>n'. (pay_step L jobs may)\<^sup>*\<^sup>* (n, Stored j) (n', Idle)"
proof -
  obtain refused m where m: "pay_and_report L j n = (Val refused, m)" using pay_and_report_returns by blast
  have step: "pay_step L jobs may (n, Stored j) (m, if refused \<and> rolls_back j then Rejected j else Idle)"
    by (rule pay_step.pay [OF m])
  show ?thesis
  proof (cases "refused \<and> rolls_back j")
    case True
    then have "payer_inv L (m, Rejected j)" using payer_inv_step [OF assms(1,2) step assms(4)] by simp
    then obtain e where "fmlookup (outbound m) (job_id j) = Some e" by (auto simp: covered_def)
    then obtain k where "fail_outbound L (job_id j) m = (Val (), k)" using fail_returns [OF assms(3)] by blast
    then have "pay_step L jobs may (m, Rejected j) (k, Idle)" by (rule pay_step.roll_back)
    moreover have "pay_step L jobs may (n, Stored j) (m, Rejected j)" using True step by simp
    ultimately show ?thesis by (blast intro: converse_rtranclp_into_rtranclp)
  next
    case False
    have "pay_step L jobs may (n, Stored j) (m, Idle)" using step by (simp only: if_not_P [OF False])
    then show ?thesis by blast
  qed
qed

lemma finish_unlocked:
  assumes "\<And>h. kv_write_ok L h"
  shows "\<exists>n'. (pay_step L jobs may)\<^sup>*\<^sup>* (n, Unlocked j t) (n', Stored j)"
proof -
  let ?R = "(pay_step L jobs may)\<^sup>*\<^sup>*"
  have recorded: "?R (m, Unlocked j Recorded) (m, Stored j)" for m :: "'b node_scheme"
    by (blast intro: pay_step.recorded)
  have store: "\<exists>n'. ?R (m, Unlocked j (Writing b)) (n', Stored j)" for m :: "'b node_scheme" and b
  proof -
    obtain k where "kv_write L [] [] OUTBOUND_PAYMENTS_FNAME b m = (Val (), k)"
      using assms by (simp add: run_simps Let_def)
    then have "pay_step L jobs may (m, Unlocked j (Writing b)) (k, Unlocked j Recorded)"
      by (intro pay_step.unlocked offer_step.store)
    then show ?thesis using recorded by (blast intro: converse_rtranclp_into_rtranclp)
  qed
  have encode: "\<exists>n'. ?R (m, Unlocked j Encoding) (n', Stored j)" for m :: "'b node_scheme"
    using pay_step.unlocked [OF offer_step.encode] store by (blast intro: converse_rtranclp_into_rtranclp)
  have insert: "\<exists>n'. ?R (m, Unlocked j Recording) (n', Stored j)" for m :: "'b node_scheme"
    using pay_step.unlocked [OF offer_step.insert] encode by (blast intro: converse_rtranclp_into_rtranclp)
  show ?thesis using recorded store encode insert by (cases t) auto
qed

lemma finish_phase:
  fixes n :: "'b cli_node_scheme"
  assumes L: "codec_ok L" "iter_ok L" "\<And>h. kv_write_ok L h" and inv: "payer_inv L (n, p)"
  shows "\<exists>n'. (pay_step L jobs may)\<^sup>*\<^sup>* (n, p) (n', Idle)"
proof -
  have later: "\<exists>n'. (pay_step L jobs may)\<^sup>*\<^sup>* (n, p) (n', Idle)" if "(pay_step L jobs may)\<^sup>*\<^sup>* (n, p) (m, Stored j)" for m j
    using that payer.inv_reachable [OF _ that] finish_stored [OF L] L inv by (metis rtranclp_trans)
  show ?thesis
  proof (cases p)
    case (Locking j)
    obtain m where "record_outbound L (job_id j) (job_info j) n = (Val (), m)" using record_returns [OF L(3)] by blast
    then have "pay_step L jobs may (n, Locking j) (m, Stored j)" by (rule pay_step.record_locked)
    then show ?thesis using later Locking by blast
  next
    case (Unlocked j t)
    then show ?thesis using later finish_unlocked [OF L(3)] by blast
  next
    case (Rejected j)
    then obtain e where "fmlookup (outbound n) (job_id j) = Some e" using inv by (auto simp: covered_def)
    then obtain k where "fail_outbound L (job_id j) n = (Val (), k)" using fail_returns [OF L(3)] by blast
    then have "pay_step L jobs may (n, Rejected j) (k, Idle)" by (rule pay_step.roll_back)
    then show ?thesis using Rejected by blast
  qed (use later in auto)
qed

text \<open>
  C8: If the store accepts writes, a command that pays can finish from every point and whatever events
  were handled before it: none of its unwraps fails, that of a refused payment included, whose entry is
  still there.
\<close>

theorem payments_can_finish:
  fixes n :: "'b cli_node_scheme"
  assumes "codec_ok L" and "iter_ok L" and "\<And>h. kv_write_ok L h"
    and "synced L n" and "has (asked n) (outbound n)"
    and "(pay_step L jobs may)\<^sup>*\<^sup>* (n, Idle) (n', p)"
  shows "\<exists>n''. (pay_step L jobs (\<lambda>_. False))\<^sup>*\<^sup>* (n', p) (n'', Idle)"
  by (rule finish_phase [OF assms(1-3) asked_covered [OF assms(1,2,4,5,6)]])

section \<open>A node with two payments to make\<close>

definition sample_synced :: "stdin_item list \<Rightarrow> running" where
  "sample_synced ls = sample_boot ls (kv_put outbound_key (enc sample_start_lib [] fmempty) Map.empty)"

definition sample_offer_job :: job where
  "sample_offer_job = offer_job \<lparr>offer_text = ''lno'', offer_amount_of = None\<rparr> (replicate 32 8) 6"

definition sample_keysend_job :: job where
  "sample_keysend_job = keysend_job sample_start_lib (replicate 31 1) [2] 5"

lemma sample_synced_ok:
  "synced sample_start_lib (sample_synced ls)" "asked (sample_synced ls) = {}" "outbound (sample_synced ls) = fmempty"
  using sample_start_lib_ok(1)
  by (simp_all add: synced_def sample_synced_def sample_boot_def kv.get_put asked_def codec_ok_def)

lemma sample_hash: "sha256 sample_start_lib b = 7 # b"
  by (simp add: sample_start_lib_defs)

lemma sample_jobs:
  "locked sample_keysend_job" "\<not> locked sample_offer_job" "cli_job L sample_offer_job"
  "job_id sample_offer_job = replicate 32 8"
proof -
  show "cli_job L sample_offer_job" unfolding sample_offer_job_def by (rule cli_job.offer)
qed (simp_all add: sample_keysend_job_def sample_offer_job_def keysend_job_def offer_job_def job_id_def)

text \<open>A run that records the payment of \<open>j\<close>, and one that also asks for it.\<close>

lemma sample_recorded:
  fixes n :: running
  assumes "jobs j" and "asked n = {}"
  obtains n' where "(pay_step sample_start_lib jobs may)\<^sup>*\<^sup>* (n, Idle) (n', Stored j)" "asked n' = {}"
proof -
  obtain n' where n': "record_outbound sample_start_lib (job_id j) (job_info j) n = (Val (), n')"
    using record_returns [OF sample_lib_answers(14)] by blast
  have "asked n' = {}" using asked_pays [OF run_pays [OF wp_same_pays(1) n']] assms(2) by simp
  with record_steps [where jobs = jobs and j = j, OF assms(1) n'] show thesis by (rule that)
qed

lemma sample_asked:
  fixes n :: running
  assumes "jobs j" and "asked n = {}"
  obtains n' p where "(pay_step sample_start_lib jobs may)\<^sup>*\<^sup>* (n, Idle) (n', p)" "asked n' = {job_id j}"
proof -
  obtain m where m: "(pay_step sample_start_lib jobs may)\<^sup>*\<^sup>* (n, Idle) (m, Stored j)" "asked m = {}"
    using sample_recorded [where jobs = jobs and j = j and n = n, OF assms] by blast
  obtain refused n' where n': "pay_and_report sample_start_lib j m = (Val refused, n')"
    using pay_and_report_returns by blast
  have "asked n' = {job_id j}"
    using asked_paid [OF run_pays [OF wp_pay_pays n']] m(2) by (simp add: job_id_def)
  with rtranclp.rtrancl_into_rtrancl [OF m(1) pay_step.pay [OF n']] show thesis by (rule that)
qed

theorem node_takes_steps_witness:
  "\<exists>r n'. run_schedule sample_start_lib sample_rpc sample_info True [ReadCommand] (sample_synced [Line ''sendpayment lnbc''])
      = (Val r, n')
    \<and> (pay_step sample_start_lib (cli_job sample_start_lib) (\<lambda>_. False))\<^sup>*\<^sup>* (sample_synced [Line ''sendpayment lnbc''], Idle) (n', Idle)"
proof -
  have "split_whitespace ''sendpayment lnbc'' = [''sendpayment'', ''lnbc'']" by code_simp
  then have "wp (run_schedule sample_start_lib sample_rpc sample_info True [ReadCommand]) (\<lambda>_ _. True) (\<lambda>_ _. False)
      (sample_synced [Line ''sendpayment lnbc''])"
    by (simp add: read_command_def command_def cmd_sendpayment_def send_payment_def record_outbound_def wp_simps
        Let_def prompt_def sample_synced_def sample_boot_def sample_start_lib_defs sample_invoice_def)
  then obtain r n' where "run_schedule sample_start_lib sample_rpc sample_info True [ReadCommand]
      (sample_synced [Line ''sendpayment lnbc'']) = (Val r, n')"
    by (auto simp: wp_def split: prod.splits outcome.splits)
  with node_takes_steps [OF this] show ?thesis by auto
qed

theorem interleavings_refine_copies_witness:
  "\<exists>n'. copies_of sample_start_lib (n', Stored sample_offer_job) = (outbound n', stored_map sample_start_lib n', Clean)
    \<and> (copy_step (pay_change (\<lambda>_. True) (\<lambda>_. True)) (unlocked_new (\<lambda>_. True)))\<^sup>*\<^sup>* (fmempty, Some fmempty, Clean)
        (copies_of sample_start_lib (n' :: running, Stored sample_offer_job))"
proof -
  obtain n' where "(pay_step sample_start_lib (\<lambda>_. True) (\<lambda>_. True))\<^sup>*\<^sup>* (sample_synced [], Idle) (n', Stored sample_offer_job)"
    using sample_recorded sample_synced_ok(2) by metis
  from interleavings_refine_copies [OF sample_start_lib_ok this] sample_synced_ok show ?thesis
    by (auto simp: copies_of_def synced_stored)
qed

theorem locked_jobs_stay_synced_witness:
  "\<exists>n'. asked (n' :: running) = {job_id sample_keysend_job} \<and> synced sample_start_lib n'"
proof -
  obtain n' p where "(pay_step sample_start_lib (\<lambda>j. j = sample_keysend_job) (\<lambda>_. True))\<^sup>*\<^sup>* (sample_synced [], Idle) (n', p)"
    "asked n' = {job_id sample_keysend_job}"
    using sample_asked sample_synced_ok(2) by metis
  with locked_jobs_stay_synced [OF sample_start_lib_ok _ sample_synced_ok(1) this(1)] sample_jobs show ?thesis by blast
qed

theorem payments_well_shaped_witness:
  "\<exists>n' k'. asked (n' :: running) = {replicate 32 8} \<and> well_shaped (outbound n')
    \<and> load_payments sample_start_lib n' = (Val (), k') \<and> well_shaped (outbound k')"
proof -
  obtain info and n :: running where n: "started sample_start_lib sample_rpc info (True, n)" "outbound n = fmempty"
    using sample_started by blast
  obtain n' p where "(pay_step sample_start_lib (cli_job sample_start_lib) (\<lambda>_. True))\<^sup>*\<^sup>* (n, Idle) (n', p)"
    and a: "asked n' = {replicate 32 8}"
    using sample_asked [of "cli_job sample_start_lib" sample_offer_job n] started_ready(2) [OF sample_start_lib_ok(1) n(1)]
      sample_jobs by metis
  from payments_well_shaped [OF sample_start_lib_ok sample_lib_answers(14) n(1) _ this(1) refl] a n(2)
  show ?thesis by (auto simp: well_shaped_def)
qed

theorem asked_payments_survive_crash_witness:
  "\<exists>n' k'. load_payments sample_start_lib ((sample_synced [])\<lparr>store := store n'\<rparr>) = (Val (), k')
    \<and> asked (n' :: running) = {replicate 32 8} \<and> fmlookup (outbound k') (replicate 32 8) \<noteq> None"
proof -
  obtain info and n :: running where n: "started sample_start_lib sample_rpc info (True, n)" using sample_started by blast
  obtain n' p where "(pay_step sample_start_lib (\<lambda>_. True) (\<lambda>_. True))\<^sup>*\<^sup>* (n, Idle) (n', p)"
    and a: "asked n' = {replicate 32 8}"
    using sample_asked [of "\<lambda>_. True" sample_offer_job n] started_ready(2) [OF sample_start_lib_ok(1) n] sample_jobs(4) by metis
  from asked_payments_survive_crash [OF sample_start_lib_ok sample_lib_answers(14) n this(1),
      of "(sample_synced [])\<lparr>store := store n'\<rparr>"] a
  show ?thesis by auto
qed

theorem payments_can_finish_witness:
  "\<exists>n' n''. asked (n' :: running) = {} \<and> (pay_step sample_start_lib (\<lambda>_. True) (\<lambda>_. False))\<^sup>*\<^sup>*
      (n', Stored sample_keysend_job) (n'', Idle)"
proof -
  obtain n' where "(pay_step sample_start_lib (\<lambda>_. True) (\<lambda>_. True))\<^sup>*\<^sup>* (sample_synced [], Idle) (n', Stored sample_keysend_job)"
    "asked n' = {}"
    using sample_recorded sample_synced_ok(2) by metis
  with payments_can_finish [OF sample_start_lib_ok sample_lib_answers(14) sample_synced_ok(1) _ this(1)] sample_synced_ok
  show ?thesis by auto
qed

end
