(* ===== verification/Concurrent_Node.thy ===== *)
theory Concurrent_Node
  imports Interleaving_Properties
begin

text \<open>
  Three tasks of the node side by side: the command line, the event handler and the task that refreshes
  the fee estimates (\<open>src/cli.rs\<close>, \<open>src/main.rs\<close>, \<open>src/bitcoind_client.rs\<close>). The refresh stores its
  estimates one by one, so the others may see a table in the middle of it.
\<close>

section \<open>The refresh, store by store\<close>

text \<open>What is stored: an estimate, or an estimate less a number.\<close>

datatype fee_value = Plain u32 | Less u32 u32

fun fee_arg :: "fee_value \<Rightarrow> ('s, u32) prog" where
  "fee_arg (Plain v) = ret v"
| "fee_arg (Less v d) = sub_u32 v d"

definition fee_stores :: "u32 \<Rightarrow> u32 \<Rightarrow> u32 \<Rightarrow> u32 \<Rightarrow> u32 \<Rightarrow> (confirmation_target \<times> fee_value) list" where
  "fee_stores mempoolmin_estimate background_estimate normal_estimate high_prio_estimate very_high_prio_estimate =
    [(MaximumFeeEstimate, Plain very_high_prio_estimate),
     (UrgentOnChainSweep, Plain high_prio_estimate),
     (MinAllowedAnchorChannelRemoteFee, Plain mempoolmin_estimate),
     (MinAllowedNonAnchorChannelRemoteFee, Less background_estimate 250),
     (AnchorChannelFee, Plain background_estimate),
     (NonAnchorChannelFee, Plain normal_estimate),
     (ChannelCloseMinimum, Plain background_estimate),
     (OutputSpendingFee, Plain background_estimate)]"

definition put_fee :: "confirmation_target \<times> fee_value \<Rightarrow> ('b client_state_scheme, unit) prog" where
  "put_fee x = store_fee (fst x) (fee_arg (snd x))"

text \<open>\<open>None\<close> between the stores of two rounds, and otherwise what is still to be stored.\<close>

type_synonym refresher = "(confirmation_target \<times> fee_value) list option"

text \<open>A round of the code is its five requests and then these stores.\<close>

definition mempool_estimate :: "('j, 'l) rpc_lib_scheme \<Rightarrow> ('b world_scheme, u32) prog" where
  "mempool_estimate R =
    bindP (call_method R ''getmempoolinfo'' [] (mempool_min_fee_of (json R))) (\<lambda>r.
      bindP (unwrap_res r) (\<lambda>resp. ret (estimate MIN_FEERATE resp)))"

lemma poll_once_stores:
  "poll_once R =
    bindP (mempool_estimate R) (\<lambda>mp. bindP (smart_fee R 144 ''ECONOMICAL'' MIN_FEERATE) (\<lambda>bg.
    bindP (smart_fee R 18 ''ECONOMICAL'' 2000) (\<lambda>no. bindP (smart_fee R 6 ''CONSERVATIVE'' 5000) (\<lambda>hi.
    bindP (smart_fee R 2 ''CONSERVATIVE'' 50000) (\<lambda>vh.
    thenP (forP (fee_stores mp bg no hi vh) put_fee) (emit (SleepMillis 60000)))))))"
  by (simp add: poll_once_def mempool_estimate_def fee_stores_def put_fee_def thenP_right thenP_ret_unit)

section \<open>The three tasks\<close>

text \<open>
  The state, where the command line is, and where the refresh is. A step is one of the command line or of
  the event handler, or of the refresh: a request, the answers being complete, one store, or the pause. The
  answers are arbitrary; only what the code makes of them matters. While an encoded map waits to be
  written the map in memory does not change: the steps leave out the race of \<open>Race\<close>.
\<close>

definition no_race :: "'b node_scheme \<times> payer \<Rightarrow> 'b node_scheme \<times> payer \<Rightarrow> bool" where
  "no_race x y \<longleftrightarrow> (\<forall>j b. snd x = Unlocked j (Writing b) \<longrightarrow> snd y \<noteq> snd x \<or> outbound (fst y) = outbound (fst x))"

inductive tasks_step ::
  "'l cli_lib_scheme \<Rightarrow> (payment_event \<Rightarrow> bool) \<Rightarrow>
   'b node_scheme \<times> payer \<times> refresher \<Rightarrow> 'b node_scheme \<times> payer \<times> refresher \<Rightarrow> bool"
  for L may where
  task: "task_step L (cli_job L) may (n, p) (n', p') \<Longrightarrow> no_race (n, p) (n', p') \<Longrightarrow>
    tasks_step L may (n, p, r) (n', p', r)"
| request: "quiet n n' \<Longrightarrow> fees n' = fees n \<Longrightarrow> tasks_step L may (n, p, None) (n', p, None)"
| answered: "tasks_step L may (n, p, None)
    (n, p, Some (fee_stores (estimate MIN_FEERATE r0) (estimate MIN_FEERATE r1) (estimate 2000 r2)
      (estimate 5000 r3) (estimate 50000 r4)))"
| put: "put_fee x n = (Val (), n') \<Longrightarrow> tasks_step L may (n, p, Some (x # xs)) (n', p, Some xs)"
| pause: "tasks_step L may (n, p, Some []) (n\<lparr>trace := trace n @ [SleepMillis 60000]\<rparr>, p, None)"

inductive_cases tasks_stepE: "tasks_step L may x y"

section \<open>A run of the node\<close>

lemma pay_step_may: "pay_step L jobs (\<lambda>_. False) x y \<Longrightarrow> pay_step L jobs may x y"
proof (erule pay_step.cases, goal_cases)
  case (6 j n refused n')
  show ?case unfolding 6(1,2) by (rule pay_step.pay [OF 6(3)])
qed (auto intro: pay_step.intros)

lemma tasks_of_steps:
  assumes "(task_step L (cli_job L) (\<lambda>_. False))\<^sup>*\<^sup>* x y"
  shows "(tasks_step L may)\<^sup>*\<^sup>* (fst x, snd x, r) (fst y, snd y, r)"
  using assms
proof (induction rule: rtranclp_induct)
  case (step y z)
  have pay: "pay_step L (cli_job L) (\<lambda>_. False) y z" using step.hyps(2) by (simp add: task_step_def)
  have "pay_step L (cli_job L) may y z" by (rule pay_step_may [OF pay])
  then have "task_step L (cli_job L) may y z" using step.hyps(2) by (simp add: task_step_def)
  moreover have "no_race y z"
    using pay by (cases rule: pay_step.cases) (auto simp: no_race_def elim: offer_step.cases)
  ultimately have "tasks_step L may (fst y, snd y, r) (fst z, snd z, r)" by (intro tasks_step.task) simp_all
  with step.IH show ?case by (rule rtranclp.rtrancl_into_rtrancl)
qed simp

lemma put_steps:
  "forP xs put_fee n = (Val (), n') \<Longrightarrow> (tasks_step L may)\<^sup>*\<^sup>* (n, p, Some xs) (n', p, Some [])"
proof (induction xs arbitrary: n)
  case (Cons x xs)
  then obtain k where "put_fee x n = (Val (), k)" "forP xs put_fee k = (Val (), n')"
    by (auto simp: thenP_def elim!: bindP_cases)
  with Cons.IH show ?case by (blast intro: converse_rtranclp_into_rtranclp tasks_step.put)
qed (simp add: run_simps)

lemma run_trace_only:
  fixes m :: "('b node_scheme, 'a) prog"
  assumes "trace_only m" and "m n = (Val x, n')"
  shows "quiet n n' \<and> fees n' = fees n"
proof -
  obtain as where "snd (m n) = n\<lparr>trace := trace n @ as\<rparr>" "list_all (\<lambda>a. \<not> is_pay a \<and> \<not> is_write a) as"
    using assms(1) by (auto simp: trace_only_def)
  then show ?thesis using assms(2) by (simp add: quiet_def filter_no_pay)
qed

lemma run_estimate:
  "mempool_estimate R n = (Val v, n') \<Longrightarrow> \<exists>resp. v = estimate MIN_FEERATE resp"
  "smart_fee R t mode d n = (Val v, n') \<Longrightarrow> \<exists>resp. v = estimate d resp"
  by (auto simp: mempool_estimate_def smart_fee_def run_simps elim!: bindP_cases)

lemma trace_only_mempool: "trace_only (mempool_estimate R)"
  unfolding mempool_estimate_def by (intro trace_only_intros)

lemma request_steps:
  fixes m :: "('b node_scheme, 'a) prog"
  shows "trace_only m \<Longrightarrow> m n = (Val x, n') \<Longrightarrow> tasks_step L may (n, p, None) (n', p, None)"
  using run_trace_only [of m n x n'] by (simp add: tasks_step.request)

lemma poll_steps:
  fixes n n' :: "'b node_scheme"
  assumes "poll_once R n = (Val (), n')"
  shows "(tasks_step L may)\<^sup>*\<^sup>* (n, p, None) (n', p, None)"
proof -
  let ?R = "(tasks_step L may)\<^sup>*\<^sup>*"
  from assms obtain mp n1 bg n2 no n3 hi n4 vh n5 n6
    where m: "mempool_estimate R n = (Val mp, n1)" "smart_fee R 144 ''ECONOMICAL'' MIN_FEERATE n1 = (Val bg, n2)"
      "smart_fee R 18 ''ECONOMICAL'' 2000 n2 = (Val no, n3)" "smart_fee R 6 ''CONSERVATIVE'' 5000 n3 = (Val hi, n4)"
      "smart_fee R 2 ''CONSERVATIVE'' 50000 n4 = (Val vh, n5)"
    and p: "forP (fee_stores mp bg no hi vh) put_fee n5 = (Val (), n6)" and e: "emit (SleepMillis 60000) n6 = (Val (), n')"
    unfolding poll_once_stores by (auto simp: thenP_def elim!: bindP_cases)
  note req = request_steps [OF trace_only_mempool m(1)] m(2-5) [THEN request_steps [OF trace_only_smart_fee]]
  have "?R (n, p, None) (n5, p, None)"
    using req [where L = L and may = may and p = p] by (meson converse_rtranclp_into_rtranclp r_into_rtranclp)
  also obtain r0 r1 r2 r3 r4 where "mp = estimate MIN_FEERATE r0" "bg = estimate MIN_FEERATE r1" "no = estimate 2000 r2"
      "hi = estimate 5000 r3" "vh = estimate 50000 r4"
    using run_estimate(1) [OF m(1)] m(2-5) [THEN run_estimate(2)] by blast
  then have "?R (n5, p, None) (n5, p, Some (fee_stores mp bg no hi vh))"
    by (blast intro: tasks_step.answered)
  also note put_steps [OF p]
  also have "?R (n6, p, Some []) (n', p, None)"
    using e tasks_step.pause [of L may n6 p] by (auto simp: run_simps)
  finally show ?thesis .
qed

text \<open>The state is one these steps lead to from \<open>n0\<close>.\<close>

definition tasked :: "'l cli_lib_scheme \<Rightarrow> (payment_event \<Rightarrow> bool) \<Rightarrow> 'b node_scheme \<Rightarrow> 'b node_scheme \<Rightarrow> bool" where
  "tasked L may n0 n \<longleftrightarrow> (tasks_step L may)\<^sup>*\<^sup>* (n0, Idle, None) (n, Idle, None)"

lemma tasked_quiet: "tasked L may n0 n \<Longrightarrow> quiet n n' \<Longrightarrow> fees n' = fees n \<Longrightarrow> tasked L may n0 n'"
  unfolding tasked_def by (blast intro: rtranclp.rtrancl_into_rtrancl tasks_step.request)

lemma keeps_tasked:
  assumes "in_steps L m"
  shows "keeps (tasked L may n0) (\<lambda>_. True) m"
proof -
  have "tasked L may n0 n'" if "tasked L may n0 n" "m n = (Val x, n')" for n x n'
  proof -
    have "(tasks_step L may)\<^sup>*\<^sup>* (n, Idle, None) (n', Idle, None)"
      using tasks_of_steps [OF in_steps_tasks [OF assms that(2)], where r = None and may = may] by simp
    with that(1) show ?thesis unfolding tasked_def by (rule rtranclp_trans)
  qed
  then show ?thesis by (auto simp: keeps_def wp_def split: prod.split outcome.split)
qed

interpretation same_fees: frame "\<lambda>n. fees n = f" "\<lambda>_. True" "\<lambda>_. True" for f
  by unfold_locales simp_all

lemma keeps_event_tasked:
  assumes "\<And>pe. e = PaymentEvent pe \<Longrightarrow> may pe"
  shows "keeps (tasked L may n0) (\<lambda>_. True) (handle_ldk_events L R net e :: ('b cli_node_scheme, unit) prog)"
proof (cases e)
  case (PaymentEvent pe)
  have "tasked L may n0 n'" if "tasked L may n0 n" "handle_payment_event L pe n = (Val (), n')" for n n' :: "'b cli_node_scheme"
  proof -
    have "fees n' = fees n" by (rule keeps_Val [OF same_fees.keeps_any_payment_event refl that(2)])
    then have "task_step L (cli_job L) may (n, Idle) (n', Idle)"
      using pay_step.event [of may pe L n n', OF assms [OF PaymentEvent] that(2)] by (simp add: task_step_def)
    then have "tasks_step L may (n, Idle, None) (n', Idle, None)" by (rule tasks_step.task) (simp add: no_race_def)
    with that(1) show ?thesis unfolding tasked_def by (rule rtranclp.rtrancl_into_rtrancl)
  qed
  then show ?thesis
    unfolding PaymentEvent handle_ldk_events.simps
    by (auto simp: keeps_def wp_def split: prod.split outcome.split)
qed (simp_all add: keeps_tasked in_steps_trace_only trace_only_intros in_steps_ret)

interpretation tasks: node_invariant S R "\<lambda>e. \<forall>pe. e = PaymentEvent pe \<longrightarrow> may pe" "tasked S may n0" "\<lambda>_. True"
  for S R may n0
proof unfold_locales
  show "tasked S may n0 (n\<lparr>trace := trace n @ as\<rparr>)"
    if "list_all (\<lambda>a. \<not> is_pay a \<and> \<not> is_write a) as" "tasked S may n0 n" for n :: "'x running_scheme" and n0 as
    using that by (auto intro: tasked_quiet simp: quiet_def filter_no_pay)
  show "tasked S may n0 (n\<lparr>stdin := rest\<rparr>)" if "tasked S may n0 n" for n :: "'x running_scheme" and n0 rest
    using that by (auto intro: tasked_quiet simp: quiet_def)
  show "keeps (tasked S may n0) (\<lambda>_. True) (command S line w ws)" for n0 :: "'x running_scheme" and line w ws
    by (rule keeps_tasked) (rule in_steps_command)
  show "keeps (tasked S may n0) (\<lambda>_. True) (handle_ldk_events S R net e)"
    if "\<forall>pe. e = PaymentEvent pe \<longrightarrow> may pe" for n0 :: "'x running_scheme" and net e
    by (rule keeps_event_tasked) (use that in blast)
  show "keeps (tasked S may n0) (\<lambda>_. True) (poll_once R)" for n0 :: "'x running_scheme"
  proof -
    have "tasked S may n0 n'" if "tasked S may n0 n" "poll_once R n = (Val (), n')" for n n'
      using that(1) poll_steps [OF that(2)] unfolding tasked_def by (rule rtranclp_trans)
    then show ?thesis by (auto simp: keeps_def wp_def split: prod.split outcome.split)
  qed
qed simp_all

text \<open>A run of the node, by whole commands, events and refreshes, is a sequence of these steps.\<close>

lemma node_run_tasks:
  assumes "run_schedule S R args cli as n = (Val r, n')"
  shows "(tasks_step S (\<lambda>pe. HandleEvent (PaymentEvent pe) \<in> set as))\<^sup>*\<^sup>* (n, Idle, None) (n', Idle, None)"
proof -
  have "tasked S (\<lambda>pe. HandleEvent (PaymentEvent pe) \<in> set as) n n'"
    by (rule keeps_Val [OF tasks.keeps_schedule _ assms]) (auto simp: tasked_def)
  then show ?thesis by (simp add: tasked_def)
qed

section \<open>What holds at every moment\<close>

fun put_ok :: "confirmation_target \<times> fee_value \<Rightarrow> bool" where
  "put_ok (t, Plain v) \<longleftrightarrow> fee_floor t \<le> v"
| "put_ok (t, Less v d) \<longleftrightarrow> d \<le> v \<and> fee_floor t \<le> v - d"

text \<open>Every target has an estimate that is high enough, and so are those still to be stored.\<close>

fun refresh_inv :: "'b node_scheme \<times> payer \<times> refresher \<Rightarrow> bool" where
  "refresh_inv (n, p, r) \<longleftrightarrow> fees_ok (fees n) \<and> (\<forall>xs. r = Some xs \<longrightarrow> list_all put_ok xs)"

lemma fee_stores_ok:
  "list_all put_ok (fee_stores (estimate MIN_FEERATE r0) (estimate MIN_FEERATE r1) (estimate 2000 r2)
     (estimate 5000 r3) (estimate 50000 r4))"
proof -
  have "MIN_FEERATE \<le> 2000" "MIN_FEERATE \<le> 5000" "MIN_FEERATE \<le> 50000" by (simp_all add: MIN_FEERATE_def)
  then show ?thesis
    using min_sub_250 [of "estimate MIN_FEERATE r1"]
    by (simp add: fee_stores_def fee_floor_def estimate_ge)
qed

lemma run_put_fee:
  "put_fee (t, v) n = (Val (), n') \<Longrightarrow>
   \<exists>w. n' = n\<lparr>fees := (fees n)(t \<mapsto> w)\<rparr> \<and> (put_ok (t, v) \<longrightarrow> fee_floor t \<le> w)"
  by (cases v; cases "fees n t")
    (auto simp: put_fee_def store_fee_def sub_u32_def run_simps elim!: bindP_cases split: if_splits)

lemma put_fee_ok: "fees_ok (fees n) \<Longrightarrow> put_ok x \<Longrightarrow> put_fee x n = (Val (), n') \<Longrightarrow> fees_ok (fees n')"
  by (cases x) (auto simp: fees_ok_iff dest!: run_put_fee)

lemma put_fee_maps: "put_fee x n = (Val (), n') \<Longrightarrow> outbound n' = outbound n \<and> store n' = store n"
  by (cases x) (auto dest!: run_put_fee)

lemma refresh_inv_step:
  assumes "tasks_step L may x y" and "refresh_inv x"
  shows "refresh_inv y"
  using assms
proof (cases rule: tasks_step.cases)
  case (put z n n' p xs)
  then show ?thesis using assms(2) put_fee_ok [of n z n'] by simp
qed (simp_all add: task_step_def fee_stores_ok)

text \<open>
  The stored payments are those in memory, less at most the one that is being recorded without the lock;
  and what will be written for that one are those in memory.
\<close>

fun store_inv :: "'l ldk_scheme \<Rightarrow> 'b node_scheme \<times> payer \<Rightarrow> bool" where
  "store_inv L (n, Unlocked j Encoding) \<longleftrightarrow>
     (\<exists>m. stored_map L n = Some m \<and> (outbound n = m \<or> outbound n = fmupd (job_id j) (job_info j) m))"
| "store_inv L (n, Unlocked j (Writing b)) \<longleftrightarrow> dec L b = Some (outbound n) \<and>
     (\<exists>m. stored_map L n = Some m \<and> (outbound n = m \<or> outbound n = fmupd (job_id j) (job_info j) m))"
| "store_inv L (n, _) \<longleftrightarrow> stored_map L n = Some (outbound n)"

lemma store_inv_synced: "stored_map L n = Some (outbound n) \<Longrightarrow>
  (\<And>j b. p = Unlocked j (Writing b) \<Longrightarrow> dec L b = Some (outbound n)) \<Longrightarrow> store_inv L (n, p)"
  by (cases "(L, n, p)" rule: store_inv.cases) auto

lemma store_inv_same:
  "store_inv L (n, p) \<Longrightarrow> outbound n' = outbound n \<Longrightarrow> stored_map L n' = stored_map L n \<Longrightarrow> store_inv L (n', p)"
  by (cases "(L, n, p)" rule: store_inv.cases) auto

lemma store_inv_offer:
  assumes L: "codec_ok L" and "store_inv L (n, Unlocked j t)"
    and "offer_step L (\<lambda>_. False) (job_id j) (job_info j) (n, t) (n', t')"
  shows "store_inv L (n', Unlocked j t')"
  using assms(3)
proof (cases rule: offer_step.cases)
  case insert
  with assms(2) show ?thesis by (simp add: stored_map_def)
next
  case encode
  with assms(2) L show ?thesis by (simp add: codec_ok_def)
next
  case (store b)
  from store(3) have "outbound n' = outbound n" "stored_map L n' = dec L b"
    by (auto simp: run_simps Let_def stored_map_def outbound_key_def kv.get_put split: if_splits)
  with store(1,2) assms(2) show ?thesis by simp
qed simp

lemma store_inv_step:
  assumes L: "codec_ok L" "iter_ok L" and "pay_step L jobs may x y" and "no_race x y" and inv: "store_inv L x"
  shows "store_inv L y"
  using assms(3)
proof (cases rule: pay_step.cases)
  case (record_locked j n n')
  then show ?thesis using step_leaves(2) [OF L(1) record_locked(3)] by (simp add: leaves_def)
next
  case (unlocked j n t n' t')
  then show ?thesis using store_inv_offer [OF L(1) _ unlocked(3)] inv by simp
next
  case (pay j n refused n')
  then show ?thesis using inv step_leaves(5) [OF pay(3)] by (simp add: leaves_def)
next
  case (roll_back j n n')
  then show ?thesis using step_leaves(3) [OF L(1) roll_back(3)] by (simp add: leaves_def)
next
  case (invoice amt expiry n n')
  then show ?thesis using inv step_leaves(4) [OF invoice(3)] by (simp add: leaves_def)
next
  case (talk n n')
  then show ?thesis using inv by (simp add: quiet_def stored_map_def)
next
  case (event e n n' p)
  note l = step_leaves(1) [OF L event(4)]
  show ?thesis
  proof (cases "event_writes e")
    case True
    have "dec L b = Some (outbound n')" if "p = Unlocked j (Writing b)" for j b
      using that inv assms(4) event(1,2) by (simp add: no_race_def)
    then show ?thesis using l True event(2) by (auto simp: leaves_def intro: store_inv_synced)
  next
    case False
    with l inv event(1,2) show ?thesis by (auto simp: leaves_def event_not_written intro: store_inv_same)
  qed
qed (use inv in simp_all)

interpretation concurrent: invariant_system
  "\<lambda>x :: 'b cli_node_scheme \<times> payer \<times> refresher. codec_ok L \<and> iter_ok L \<and> refresh_inv x \<and> store_inv L (fst x, fst (snd x))"
  "tasks_step L may"
  "\<lambda>x. codec_ok L \<and> iter_ok L \<and> refresh_inv x \<and> store_inv L (fst x, fst (snd x))"
  for L :: "'l cli_lib_scheme" and may
proof unfold_locales
  fix x y :: "'b cli_node_scheme \<times> payer \<times> refresher"
  assume x: "codec_ok L \<and> iter_ok L \<and> refresh_inv x \<and> store_inv L (fst x, fst (snd x))" and step: "tasks_step L may x y"
  have "store_inv L (fst y, fst (snd y))"
    using step
  proof (cases rule: tasks_step.cases)
    case (task n p n' p' r)
    then show ?thesis using x store_inv_step [of L _ may "(n, p)" "(n', p')"] by (auto simp: task_step_def)
  next
    case (request n n' p)
    then show ?thesis using x by (auto simp: quiet_def stored_map_def intro: store_inv_same)
  next
    case (put z n n' p xs)
    have "outbound n' = outbound n \<and> store n' = store n" by (rule put_fee_maps [OF put(3)])
    with put x show ?thesis by (auto simp: stored_map_def intro: store_inv_same)
  next
    case (pause n p)
    with x show ?thesis by (auto simp: stored_map_def intro: store_inv_same)
  qed (use x in simp_all)
  with x refresh_inv_step [OF step] show "codec_ok L \<and> iter_ok L \<and> refresh_inv y \<and> store_inv L (fst y, fst (snd y))"
    by blast
qed blast

text \<open>
  C2: From the start of the node, at every moment of every interleaving of its commands, payment events and
  refreshes in which no event changes the payments while an encoded map waits to be written, LDK gets an
  estimate for every fee target that is at least its minimum, also in the middle of a refresh; the
  payments in the store are those in memory, less at most the one that a payment for an offer or a name is
  recording without the lock at that moment; and the map it will write is the one in memory. The
  excluded interleavings are those of the race.
\<close>

theorem running_node_consistent:
  fixes n0 n :: "'b running_scheme"
  assumes "codec_ok S" and "iter_ok S" and "started S R args (cli, n0)"
    and "(tasks_step S may)\<^sup>*\<^sup>* (n0, Idle, None) (n, p, r)"
  shows "\<exists>v m. get_est_sat_per_1000_weight t n = (Val v, n)
    \<and> (if t = MinAllowedNonAnchorChannelRemoteFee then 3 else 253) \<le> v
    \<and> stored_map S n = Some m
    \<and> (outbound n = m \<or> (\<exists>j. outbound n = fmupd (job_id j) (job_info j) m
        \<and> (p = Unlocked j Encoding \<or> (\<exists>b. p = Unlocked j (Writing b) \<and> dec S b = Some (outbound n)))))"
proof -
  have "node_ok S n0" using reached.inv_init [OF assms(3)] by simp
  then have "refresh_inv (n0, Idle, None)" "store_inv S (n0, Idle)"
    using assms(1) by (simp_all add: node_ok_def synced_stored)
  then have inv: "refresh_inv (n, p, r)" "store_inv S (n, p)"
    using concurrent.inv_reachable [OF _ assms(4)] assms(1,2) by simp_all
  from inv(1) obtain v where v: "fees n t = Some v" "fee_floor t \<le> v" by (auto simp: fees_ok_iff)
  then have "get_est_sat_per_1000_weight t n = (Val v, n)" "(if t = MinAllowedNonAnchorChannelRemoteFee then 3 else 253) \<le> v"
    by (auto simp: get_est_sat_per_1000_weight_def run_simps fee_floor_def MIN_FEERATE_def split: if_splits)
  then show ?thesis
    using inv(2) by (cases "(S, n, p)" rule: store_inv.cases) auto
qed

theorem running_node_consistent_witness:
  "\<exists>n v m. outbound (n :: running) = fmupd (replicate 32 8) (payment_entry None Pending 6) fmempty
    \<and> get_est_sat_per_1000_weight UrgentOnChainSweep n = (Val v, n) \<and> 253 \<le> v
    \<and> stored_map sample_start_lib n = Some m"
proof -
  obtain info and n :: running where n: "started sample_start_lib sample_rpc info (True, n)" "outbound n = fmempty"
    using sample_started by blast
  let ?L = sample_start_lib and ?j = sample_offer_job
  let ?n = "n\<lparr>outbound := fmupd (job_id ?j) (job_info ?j) (outbound n)\<rparr>"
  have "task_step ?L (cli_job ?L) (\<lambda>_. True) (n, Idle) (n, Unlocked ?j Recording)"
    "task_step ?L (cli_job ?L) (\<lambda>_. True) (n, Unlocked ?j Recording) (?n, Unlocked ?j Encoding)"
    unfolding task_step_def fst_conv
    by (intro conjI pay_step.begin_unlocked sample_jobs refl pay_step.unlocked offer_step.insert | simp)+
  then have "tasks_step ?L (\<lambda>_. True) (n, Idle, None) (n, Unlocked ?j Recording, None)"
    "tasks_step ?L (\<lambda>_. True) (n, Unlocked ?j Recording, None) (?n, Unlocked ?j Encoding, None)"
    by (simp_all add: tasks_step.task no_race_def)
  then have "(tasks_step ?L (\<lambda>_. True))\<^sup>*\<^sup>* (n, Idle, None) (?n, Unlocked ?j Encoding, None)"
    by (blast intro: converse_rtranclp_into_rtranclp)
  from running_node_consistent [OF sample_start_lib_ok n(1) this, of UrgentOnChainSweep] obtain v m
    where c: "get_est_sat_per_1000_weight UrgentOnChainSweep ?n = (Val v, ?n)" "253 \<le> v" "stored_map ?L ?n = Some m"
    by auto
  have "job_info ?j = payment_entry None Pending 6" by (simp add: sample_offer_job_def offer_job_def)
  then have "outbound ?n = fmupd (replicate 32 8) (payment_entry None Pending 6) fmempty"
    using n(2) sample_jobs(4) by simp
  with c show ?thesis by blast
qed

end
