(* ===== verification/Args_Tests.thy ===== *)
theory Args_Tests
  imports Args_Properties
begin

text \<open>
  The unit tests of \<open>src/args.rs\<close>, as programs over the model: an assertion or an unwrap that fails is a
  panic. The files they read are those of \<open>test_data\<close>, and every test returns.
\<close>

section \<open>The tests\<close>

definition TEST_ENV_FILE :: string where
  "TEST_ENV_FILE = ''test_data/test_env_file''"

definition TEST_ENV_FILE_BAD :: string where
  "TEST_ENV_FILE_BAD = ''test_data/test_env_file_bad''"

definition TEST_ABSENT_FILE :: string where
  "TEST_ABSENT_FILE = ''nonexistent_file''"

definition TEST_DATA_DIR :: string where
  "TEST_DATA_DIR = ''test_data''"

definition TEST_COOKIE :: string where
  "TEST_COOKIE = ''test_cookie''"

definition TEST_COOKIE_BAD :: string where
  "TEST_COOKIE_BAD = ''test_cookie_bad''"

definition EXPECTED_USER :: string where
  "EXPECTED_USER = ''testuser''"

definition EXPECTED_PASSWORD :: string where
  "EXPECTED_PASSWORD = ''testpassword''"

lemmas test_constants = TEST_ENV_FILE_def TEST_ENV_FILE_BAD_def TEST_ABSENT_FILE_def TEST_DATA_DIR_def
  TEST_COOKIE_def TEST_COOKIE_BAD_def EXPECTED_USER_def EXPECTED_PASSWORD_def

fun is_err :: "'e + 'a \<Rightarrow> bool" where
  "is_err (Inl _) = True"
| "is_err (Inr _) = False"

text \<open>\<open>let (username, password) = ...unwrap()\<close> and the two assertions after it.\<close>

definition expect_credentials :: "unit + string \<times> string \<Rightarrow> ('s, unit) prog" where
  "expect_credentials r =
    bindP (unwrap_res r) (\<lambda>(username, password).
    thenP (assertP (username = EXPECTED_USER)) (assertP (password = EXPECTED_PASSWORD)))"

definition test_parse_rpc_auth_success :: "('b world_scheme, unit) prog" where
  "test_parse_rpc_auth_success = bindP (parse_rpc_auth ''testuser:testpassword'') expect_credentials"

definition test_parse_rpc_auth_fail :: "('b world_scheme, unit) prog" where
  "test_parse_rpc_auth_fail = bindP (parse_rpc_auth ''testuser'') (\<lambda>result. assertP (is_err result))"

definition cookie_test_cases ::
  "string \<Rightarrow> ((string \<times> bool) option \<times> network option \<times> string option \<times> string) list" where
  "cookie_test_cases home =
    [(None, None, None, path_join (path_join home DEFAULT_BITCOIN_DATADIR) ''.cookie''),
     (Some (TEST_DATA_DIR, True), Some Testnet, None,
       path_join (path_join (path_join home TEST_DATA_DIR) ''testnet3'') ''.cookie''),
     (Some (TEST_DATA_DIR, False), Some Regtest, Some TEST_COOKIE,
       path_join (path_join TEST_DATA_DIR ''regtest'') TEST_COOKIE),
     (Some (TEST_DATA_DIR, False), Some Signet, None,
       path_join (path_join TEST_DATA_DIR ''signet'') ''.cookie''),
     (Some (TEST_DATA_DIR, False), Some Bitcoin, None, path_join TEST_DATA_DIR ''.cookie'')]"

definition test_get_cookie_path_success :: "env \<Rightarrow> ('b world_scheme, unit) prog" where
  "test_get_cookie_path_success E =
    bindP (unwrap (home_dir E)) (\<lambda>home.
    forP (cookie_test_cases home) (\<lambda>(data_dir, network, cookie_file, expected_path).
      bindP (unwrap_res (get_cookie_path E data_dir network cookie_file)) (\<lambda>path.
      assertP (path = expected_path))))"

definition test_get_rpc_auth_from_cookie_success :: "env \<Rightarrow> ('b world_scheme, unit) prog" where
  "test_get_rpc_auth_from_cookie_success E =
    bindP (get_rpc_auth_from_cookie E (Some (TEST_DATA_DIR, False)) (Some Bitcoin) (Some TEST_COOKIE)) expect_credentials"

definition test_get_rpc_auth_from_cookie_fail :: "env \<Rightarrow> ('b world_scheme, unit) prog" where
  "test_get_rpc_auth_from_cookie_fail E =
    bindP (get_rpc_auth_from_cookie E (Some (TEST_DATA_DIR, False)) (Some Bitcoin) (Some TEST_COOKIE_BAD))
      (\<lambda>result. assertP (is_err result))"

definition test_parse_env_file_success :: "env \<Rightarrow> ('b world_scheme, unit) prog" where
  "test_parse_env_file_success E =
    bindP (parse_env_file E (Some TEST_ENV_FILE)) (\<lambda>r. bindP (unwrap_res r) (\<lambda>env_file_map.
    thenP (bindP (unwrap (env_file_map BITCOIND_RPC_USER_KEY)) (\<lambda>v. assertP (v = EXPECTED_USER)))
    (bindP (unwrap (env_file_map BITCOIND_RPC_PASSWORD_KEY)) (\<lambda>v. assertP (v = EXPECTED_PASSWORD)))))"

text \<open>\<open>path_exists\<close> is \<open>Path::exists\<close>.\<close>

definition test_parse_env_file_fail :: "env \<Rightarrow> (string \<Rightarrow> bool) \<Rightarrow> ('b world_scheme, unit) prog" where
  "test_parse_env_file_fail E path_exists =
    bindP (parse_env_file E (Some TEST_ENV_FILE_BAD)) (\<lambda>env_file_map.
    thenP (assertP (is_err env_file_map))
    (thenP (assertP (\<not> path_exists TEST_ABSENT_FILE))
    (bindP (parse_env_file E (Some TEST_ABSENT_FILE)) (\<lambda>env_file_map.
    assertP (is_err env_file_map)))))"

definition test_get_rpc_auth_from_env_file_success :: "env \<Rightarrow> ('b world_scheme, unit) prog" where
  "test_get_rpc_auth_from_env_file_success E =
    bindP (get_rpc_auth_from_env_file E (Some TEST_ENV_FILE)) expect_credentials"

definition test_get_rpc_auth_from_env_file_fail :: "env \<Rightarrow> ('b world_scheme, unit) prog" where
  "test_get_rpc_auth_from_env_file_fail E =
    bindP (get_rpc_auth_from_env_file E (Some TEST_ABSENT_FILE)) (\<lambda>rpc_user_and_password.
    assertP (is_err rpc_user_and_password))"

definition set_var :: "string \<Rightarrow> string \<Rightarrow> env \<Rightarrow> env" where
  "set_var k v E = E\<lparr>env_var := (env_var E)(k \<mapsto> v)\<rparr>"

definition test_get_rpc_auth_from_env_vars_success :: "env \<Rightarrow> ('b world_scheme, unit) prog" where
  "test_get_rpc_auth_from_env_vars_success E =
    (let E = set_var BITCOIND_RPC_USER_KEY EXPECTED_USER E;
         E = set_var BITCOIND_RPC_PASSWORD_KEY EXPECTED_PASSWORD E in
     expect_credentials (get_rpc_auth_from_env_vars E))"

definition rpc_auth_tests :: "env \<Rightarrow> (string \<Rightarrow> bool) \<Rightarrow> ('b world_scheme, unit) prog list" where
  "rpc_auth_tests E path_exists =
    [test_parse_rpc_auth_success, test_parse_rpc_auth_fail, test_get_cookie_path_success E,
     test_get_rpc_auth_from_cookie_success E, test_get_rpc_auth_from_cookie_fail E, test_parse_env_file_success E,
     test_parse_env_file_fail E path_exists, test_get_rpc_auth_from_env_file_success E,
     test_get_rpc_auth_from_env_file_fail E, test_get_rpc_auth_from_env_vars_success E]"

section \<open>They pass\<close>

text \<open>The directory the tests run in: the files of \<open>test_data\<close>, and no file with the absent name.\<close>

definition in_repository :: "env \<Rightarrow> (string \<Rightarrow> bool) \<Rightarrow> bool" where
  "in_repository E path_exists \<longleftrightarrow>
     home_dir E \<noteq> None
   \<and> read_file E ''test_data/test_cookie'' = Some ''testuser:testpassword''
   \<and> read_file E ''test_data/test_cookie_bad'' = Some ''testuser''
   \<and> read_file E ''test_data/test_env_file'' = Some (''RPC_USER=testuser'' @ nl @ ''RPC_PASSWORD=testpassword'')
   \<and> read_file E ''test_data/test_env_file_bad'' = Some (''RPC_USER=testuser'' @ nl @ ''RPC_PASSWORD'')
   \<and> read_file E ''nonexistent_file'' = None \<and> \<not> path_exists ''nonexistent_file''"

lemma test_files:
  assumes "in_repository E ex"
  shows "get_rpc_auth_from_cookie E (Some (TEST_DATA_DIR, False)) (Some Bitcoin) (Some TEST_COOKIE) =
      parse_rpc_auth ''testuser:testpassword''"
    "get_rpc_auth_from_cookie E (Some (TEST_DATA_DIR, False)) (Some Bitcoin) (Some TEST_COOKIE_BAD) = parse_rpc_auth ''testuser''"
    "parse_env_file E (Some TEST_ENV_FILE) =
      ret (Inr [BITCOIND_RPC_USER_KEY \<mapsto> EXPECTED_USER, BITCOIND_RPC_PASSWORD_KEY \<mapsto> EXPECTED_PASSWORD])"
    "parse_env_file E (Some TEST_ENV_FILE_BAD) = thenP (println ''ERROR: bad .env file format'') (ret (Inl ()))"
    "parse_env_file E (Some TEST_ABSENT_FILE) = ret (Inl ())"
  using assms
  by (simp_all add: in_repository_def get_rpc_auth_from_cookie_def get_cookie_path_def parse_env_file_def
      test_constants path_join_def starts_with_def lines_def nl_def numeral_2_eq_2
      strip_cr_def BITCOIND_RPC_USER_KEY_def BITCOIND_RPC_PASSWORD_KEY_def)

lemma keys_differ [simp]: "BITCOIND_RPC_USER_KEY \<noteq> BITCOIND_RPC_PASSWORD_KEY" "BITCOIND_RPC_PASSWORD_KEY \<noteq> BITCOIND_RPC_USER_KEY"
  by (simp_all add: BITCOIND_RPC_USER_KEY_def BITCOIND_RPC_PASSWORD_KEY_def)

lemma credentials_text: "parse_rpc_auth ''testuser:testpassword'' = ret (Inr (EXPECTED_USER, EXPECTED_PASSWORD))"
  by (simp add: parse_rpc_auth_def test_constants)

lemma expect_expected: "expect_credentials (Inr (EXPECTED_USER, EXPECTED_PASSWORD)) = ret ()"
  by (simp add: expect_credentials_def assertP_def)

lemmas credentials_tests = test_parse_rpc_auth_success_def test_get_rpc_auth_from_cookie_success_def
  test_get_rpc_auth_from_env_file_success_def get_rpc_auth_from_env_file_def test_parse_env_file_success_def
  test_get_rpc_auth_from_env_vars_success_def get_rpc_auth_from_env_vars_def set_var_def

lemma tests_succeed:
  assumes "in_repository E ex"
  shows "test_parse_rpc_auth_success w = (Val (), w)" "test_get_rpc_auth_from_cookie_success E w = (Val (), w)"
    "test_parse_env_file_success E w = (Val (), w)" "test_get_rpc_auth_from_env_file_success E w = (Val (), w)"
    "test_get_rpc_auth_from_env_vars_success E w = (Val (), w)"
  by (simp_all add: credentials_tests test_files [OF assms] credentials_text expect_expected
      assertP_def thenP_def run_simps)

lemma wp_returned: "m w = (Val (), w) \<Longrightarrow> wp m (\<lambda>_ _. True) (\<lambda>_ _. False) w"
  by (simp add: wp_def)

lemma cookie_paths:
  "home_dir E = Some home \<Longrightarrow> c \<in> set (cookie_test_cases home) \<Longrightarrow>
   (case c of (d, net, f, path) \<Rightarrow> get_cookie_path E d net f = Inr path)"
  by (auto simp: cookie_test_cases_def get_cookie_path_def)

lemma test_cookie_paths:
  assumes "in_repository E ex"
  shows "wp (test_get_cookie_path_success E) (\<lambda>_ _. True) (\<lambda>_ _. False) w"
proof -
  obtain home where home: "home_dir E = Some home" using assms by (auto simp: in_repository_def)
  have "wp (forP (cookie_test_cases home) (\<lambda>(d, net, f, path).
      bindP (unwrap_res (get_cookie_path E d net f)) (\<lambda>p. assertP (p = path)))) (\<lambda>_ _. True) (\<lambda>_ _. False) w"
    by (rule wp_forP [where I = "\<lambda>_. True"])
      (use cookie_paths [OF home] in \<open>fastforce simp: wp_simps split: prod.split\<close>)+
  then show ?thesis by (simp add: test_get_cookie_path_success_def home)
qed

lemma tests_fail:
  assumes "in_repository E ex"
  shows "wp test_parse_rpc_auth_fail (\<lambda>_ _. True) (\<lambda>_ _. False) w"
    "wp (test_get_rpc_auth_from_cookie_fail E) (\<lambda>_ _. True) (\<lambda>_ _. False) w"
    "wp (test_parse_env_file_fail E ex) (\<lambda>_ _. True) (\<lambda>_ _. False) w"
    "wp (test_get_rpc_auth_from_env_file_fail E) (\<lambda>_ _. True) (\<lambda>_ _. False) w"
  using assms
  by (simp_all add: test_parse_rpc_auth_fail_def test_get_rpc_auth_from_cookie_fail_def test_parse_env_file_fail_def
      test_get_rpc_auth_from_env_file_fail_def get_rpc_auth_from_env_file_def test_files [OF assms] parse_rpc_auth_def
      wp_simps) (simp add: in_repository_def TEST_ABSENT_FILE_def)

text \<open>
  C23: every unit test of the argument parser returns, on any machine with a home directory, in the
  directory of the repository: credentials are read from the text, the cookie, the \<open>.env\<close> file and the
  environment, malformed and missing files are errors, and the five cookie paths are the expected ones.
\<close>

theorem rpc_auth_tests_pass:
  assumes "in_repository E path_exists" and "t \<in> set (rpc_auth_tests E path_exists)"
  shows "\<exists>w'. t w = (Val (), w')"
proof -
  have "wp t (\<lambda>_ _. True) (\<lambda>_ _. False) w"
    using assms(2) by (auto simp: rpc_auth_tests_def intro: tests_fail [OF assms(1)] test_cookie_paths [OF assms(1)]
      tests_succeed [OF assms(1), THEN wp_returned])
  then show ?thesis by (auto simp: wp_def split: prod.splits outcome.splits)
qed

definition repository_env :: env where
  "repository_env =
     \<lparr>argv = [''ldk-sample''], env_var = Map.empty, home_dir = Some ''/root'',
      read_file = [''test_data/test_cookie'' \<mapsto> ''testuser:testpassword'', ''test_data/test_cookie_bad'' \<mapsto> ''testuser'',
        ''test_data/test_env_file'' \<mapsto> ''RPC_USER=testuser'' @ nl @ ''RPC_PASSWORD=testpassword'',
        ''test_data/test_env_file_bad'' \<mapsto> ''RPC_USER=testuser'' @ nl @ ''RPC_PASSWORD''],
      parse_socket_address = (\<lambda>s. None)\<rparr>"

theorem rpc_auth_tests_pass_witness:
  "\<exists>w'. test_parse_env_file_fail repository_env (\<lambda>p. False) \<lparr>trace = []\<rparr> = (Val (), w')"
  using rpc_auth_tests_pass [of repository_env "\<lambda>p. False" "test_parse_env_file_fail repository_env (\<lambda>p. False)" "\<lparr>trace = []\<rparr>"]
  by (simp add: in_repository_def repository_env_def rpc_auth_tests_def)

end
