(* ===== verification/Sweep.thy ===== *)
theory Sweep
  imports Ldk_Types
begin

text \<open>
  \<open>src/sweep.rs\<close>: the task that moves spendable outputs, which older versions kept in files, to LDK's
  sweeper. The three directories are part of the state. Every operation on files may fail, down to taking the
  next entry of a listing and removing one file of a directory, and a failure ends the process, so the
  states it can end in are also those a crash between two operations leaves. Only the listing of a directory
  may fail and be ignored, as in the code. \<open>persister.write\<close> is one operation: the store writes to a
  temporary file and renames it.
\<close>

section \<open>State and parameters\<close>

type_synonym directory = "(string, bytes) fmap"

text \<open>The directories, \<open>None\<close> for one that does not exist.\<close>

record sweep_state = world +
  pending_dir :: "directory option"
  processing_dir :: "directory option"
  spendables_dir :: "directory option"

text \<open>
  \<open>dir_names\<close> is the order \<open>read_dir\<close> delivers the files in, \<open>dir_readable\<close> whether it succeeds on a
  directory that exists, \<open>file_op_ok\<close> whether an operation on a file or directory does.
  \<open>read_descriptor\<close> is LDK's \<open>Readable::read\<close>, which returns what it left unread.
\<close>

record sweep_lib =
  dir_names :: "hist \<Rightarrow> directory \<Rightarrow> string list"
  dir_readable :: "hist \<Rightarrow> bool"
  file_op_ok :: "hist \<Rightarrow> bool"
  secure_random :: "hist \<Rightarrow> bytes"
  without_length :: "bytes \<Rightarrow> bytes"
  read_descriptor :: "bytes \<Rightarrow> (bytes \<times> bytes) option"
  best_height :: "hist \<Rightarrow> u32"
  track_ok :: "hist \<Rightarrow> bool"

text \<open>An operation on files whose result is unwrapped.\<close>

definition file_op :: "'l sweep_lib_scheme \<Rightarrow> ('s world_scheme \<Rightarrow> 's world_scheme) \<Rightarrow> ('s world_scheme, unit) prog" where
  "file_op L f = bindP (ask (file_op_ok L)) (\<lambda>ok. if ok then modify f else panic UnwrapErr)"

text \<open>
  \<open>fs::read_dir\<close>: the names in the directory, or an error. \<open>what\<close> names the directory in the trace; there
  is no entry for one that does not exist.
\<close>

definition read_dir ::
  "'l sweep_lib_scheme \<Rightarrow> string \<Rightarrow> directory option \<Rightarrow> ('b world_scheme, string list option) prog" where
  "read_dir L what d =
    (case d of
       None \<Rightarrow> ret None
     | Some dir \<Rightarrow>
         bindP (call (ReadDir what) (dir_readable L)) (\<lambda>readable.
           if readable then bindP (ask (\<lambda>h. dir_names L h dir)) (\<lambda>names. ret (Some names)) else ret None))"

text \<open>Taking the next entry of a listing and reading the file whole; either may fail.\<close>

definition read_file_in ::
  "'l sweep_lib_scheme \<Rightarrow> ('b sweep_state_scheme \<Rightarrow> directory option) \<Rightarrow> string \<Rightarrow> ('b sweep_state_scheme, bytes) prog" where
  "read_file_in L d name =
    thenP (file_op L id)
    (thenP (file_op L id)
    (bindP (gets (\<lambda>s. Option.bind (d s) (\<lambda>dir. fmlookup dir name))) (\<lambda>c.
      case c of Some bytes \<Rightarrow> ret bytes | None \<Rightarrow> panic UnwrapErr)))"

definition or_empty :: "directory option \<Rightarrow> directory" where
  "or_empty d = (case d of Some dir \<Rightarrow> dir | None \<Rightarrow> fmempty)"

section \<open>The migration\<close>

text \<open>
  \<open>fs::remove_dir_all(...).unwrap()\<close>: it fails on a directory that does not exist, and removes one that
  does file by file. \<open>f\<close> updates the directory in the state.
\<close>

definition remove_dir ::
  "'l sweep_lib_scheme \<Rightarrow> ('b sweep_state_scheme \<Rightarrow> directory option) \<Rightarrow>
   ((directory option \<Rightarrow> directory option) \<Rightarrow> 'b sweep_state_scheme \<Rightarrow> 'b sweep_state_scheme) \<Rightarrow>
   ('b sweep_state_scheme, unit) prog" where
  "remove_dir L d f =
    bindP (gets d) (\<lambda>dir.
      case dir of
        None \<Rightarrow> panic UnwrapErr
      | Some content \<Rightarrow>
          thenP (file_op L id)
          (bindP (ask (\<lambda>h. dir_names L h content)) (\<lambda>names.
           thenP (forP names (\<lambda>name. file_op L (f (map_option (fmdrop name)))))
           (file_op L (f (\<lambda>_. None))))))"

text \<open>One turn of the loop over the pending directory; the entry itself may be an error.\<close>

definition move_pending :: "'l sweep_lib_scheme \<Rightarrow> string \<Rightarrow> ('b sweep_state_scheme, unit) prog" where
  "move_pending L name =
    thenP (file_op L id)
    (if length name = 64 then
       thenP (file_op L (\<lambda>s. s\<lparr>processing_dir := Some (or_empty (processing_dir s))\<rparr>))
       (bindP (gets (\<lambda>s. Option.bind (pending_dir s) (\<lambda>dir. fmlookup dir name))) (\<lambda>c.
        case c of
          None \<Rightarrow> panic UnwrapErr
        | Some bytes \<Rightarrow> file_op L (\<lambda>s. s\<lparr>pending_dir := map_option (fmdrop name) (pending_dir s),
            processing_dir := Some (fmupd name bytes (or_empty (processing_dir s)))\<rparr>)))
     else ret ())"

text \<open>The contents of the files, one after the other.\<close>

fun concat_files ::
  "'l sweep_lib_scheme \<Rightarrow> ('b sweep_state_scheme \<Rightarrow> directory option) \<Rightarrow> string list \<Rightarrow>
   ('b sweep_state_scheme, bytes) prog" where
  "concat_files L d [] = ret []"
| "concat_files L d (name # names) =
    bindP (read_file_in L d name) (\<lambda>c. bindP (concat_files L d names) (\<lambda>cs. ret (c @ cs)))"

text \<open>The files of the processing directory become one file of \<open>spendable_outputs\<close>.\<close>

definition store_processing :: "'l sweep_lib_scheme \<Rightarrow> ('b sweep_state_scheme, unit) prog" where
  "store_processing L =
    bindP (gets processing_dir) (\<lambda>d. bindP (read_dir L ''processing_spendable_outputs'' d) (\<lambda>processing.
    bindP (concat_files L processing_dir (case processing of None \<Rightarrow> [] | Some names \<Rightarrow> names)) (\<lambda>outputs.
    if outputs = [] then ret ()
    else
      bindP (call RandomBytes (secure_random L)) (\<lambda>random.
      let key = hex_str random; value = without_length L outputs in
      thenP (emit (KvWrite ''spendable_outputs'' [] key value))
      (thenP (file_op L (\<lambda>s. s\<lparr>spendables_dir := Some (fmupd key value (or_empty (spendables_dir s)))\<rparr>))
      (remove_dir L processing_dir processing_dir_update))))))"

text \<open>The first half of the function.\<close>

definition drain_pending :: "'l sweep_lib_scheme \<Rightarrow> ('b sweep_state_scheme, unit) prog" where
  "drain_pending L =
    bindP (gets pending_dir) (\<lambda>d. bindP (read_dir L ''pending_spendable_outputs'' d) (\<lambda>pending.
    case pending of
      None \<Rightarrow> ret ()
    | Some names \<Rightarrow> thenP (forP names (move_pending L)) (store_processing L)))"

text \<open>
  The loop over the descriptors of a file. \<open>None\<close> is a loop that has not ended within the fuel.
\<close>

fun read_descriptors :: "nat \<Rightarrow> 'l sweep_lib_scheme \<Rightarrow> bytes \<Rightarrow> ('s, bytes list option) prog" where
  "read_descriptors k L [] = ret (Some [])"
| "read_descriptors 0 L (b # bs) = ret None"
| "read_descriptors (Suc k) L (b # bs) =
    (case read_descriptor L (b # bs) of
       None \<Rightarrow> panic UnwrapErr
     | Some (d, rest) \<Rightarrow>
         bindP (read_descriptors k L rest) (\<lambda>r. ret (map_option (\<lambda>ds. d # ds) r)))"

fun read_outputs :: "'l sweep_lib_scheme \<Rightarrow> string list \<Rightarrow> ('b sweep_state_scheme, bytes list option) prog" where
  "read_outputs L [] = ret (Some [])"
| "read_outputs L (name # names) =
    bindP (read_file_in L spendables_dir name) (\<lambda>c.
    bindP (read_descriptors (length c) L c) (\<lambda>r.
      case r of
        None \<Rightarrow> ret None
      | Some ds \<Rightarrow>
          bindP (read_outputs L names) (\<lambda>r'. ret (map_option (\<lambda>ds'. ds @ ds') r'))))"

definition add_u32 :: "u32 \<Rightarrow> u32 \<Rightarrow> ('s, u32) prog" where
  "add_u32 a b = (if unat a + unat b < 2 ^ 32 then ret (a + b) else panic Overflow)"

datatype migration = NothingToMigrate | Migrated nat | StillReading

text \<open>The second half: the sweeper takes over what is in \<open>spendable_outputs\<close>.\<close>

definition hand_over :: "'l sweep_lib_scheme \<Rightarrow> ('b sweep_state_scheme, migration) prog" where
  "hand_over L =
    bindP (ask (best_height L)) (\<lambda>height.
    bindP (gets spendables_dir) (\<lambda>d. bindP (read_dir L ''spendable_outputs'' d) (\<lambda>spendables.
    bindP (read_outputs L (case spendables of None \<Rightarrow> [] | Some names \<Rightarrow> names)) (\<lambda>r.
    case r of
      None \<Rightarrow> ret StillReading
    | Some outputs \<Rightarrow>
        bindP (add_u32 height 2) (\<lambda>spend_delay.
        bindP (call (TrackOutputs outputs None False (Some spend_delay)) (track_ok L)) (\<lambda>ok.
        if \<not> ok then panic UnwrapErr
        else
          thenP (remove_dir L spendables_dir spendables_dir_update)
          (thenP (remove_dir L pending_dir pending_dir_update)
          (thenP (emit (Log (''Successfully migrated '' @ show_u64 (of_nat (length outputs))
            @ '' deprecated spendable outputs'')))
          (ret (Migrated (length outputs)))))))))))"

definition migrate_deprecated_spendable_outputs ::
  "'l sweep_lib_scheme \<Rightarrow> ('b sweep_state_scheme, migration) prog" where
  "migrate_deprecated_spendable_outputs L =
    thenP (emit (Log ''Beginning migration of deprecated spendable outputs''))
    (bindP (gets (\<lambda>s. pending_dir s = None \<and> processing_dir s = None \<and> spendables_dir s = None)) (\<lambda>none.
    if none then
      thenP (emit (Log ''No deprecated spendable outputs to migrate, returning'')) (ret NothingToMigrate)
    else thenP (drain_pending L) (hand_over L)))"

end
