(* ===== verification/Sweep_Properties.thy ===== *)
theory Sweep_Properties
  imports Sweep "HOL-Library.Char_ord" "HOL-Library.List_Lexorder"
begin

text \<open>
  The migration of \<open>src/sweep.rs\<close> loses no output, also when it is interrupted between any two operations
  on files, unless a directory that exists could not be listed; and the two ways in which it can end badly.
\<close>

section \<open>Descriptors in a file\<close>

text \<open>A reference decoder: the descriptors of a file, if it is a sequence of them.\<close>

fun decode :: "nat \<Rightarrow> 'l sweep_lib_scheme \<Rightarrow> bytes \<Rightarrow> bytes list option" where
  "decode k L [] = Some []"
| "decode 0 L (b # bs) = None"
| "decode (Suc k) L (b # bs) =
    (case read_descriptor L (b # bs) of
       None \<Rightarrow> None | Some (d, rest) \<Rightarrow> map_option (\<lambda>ds. d # ds) (decode k L rest))"

text \<open>
  What LDK's reading of a descriptor guarantees: it takes at least one byte, and what follows a
  descriptor does not matter to it.
\<close>

definition self_delimiting :: "'l sweep_lib_scheme \<Rightarrow> bool" where
  "self_delimiting L \<longleftrightarrow> (\<forall>bs d rest x. read_descriptor L bs = Some (d, rest) \<longrightarrow>
     length rest < length bs \<and> read_descriptor L (bs @ x) = Some (d, rest @ x))"

lemma run_read_descriptors: "decode k L bs = Some ds \<Longrightarrow> read_descriptors k L bs s = (Val (Some ds), s)"
proof (induction k L bs arbitrary: ds rule: decode.induct)
  case (3 k L b bs)
  then obtain d rest ds' where "read_descriptor L (b # bs) = Some (d, rest)" "decode k L rest = Some ds'" "ds = d # ds'"
    by (auto split: option.splits)
  with "3.IH" show ?case by (simp add: run_simps)
qed (simp_all add: run_simps)

lemma decode_Suc_Some:
  "decode (Suc k) L (b # bs) = Some ds \<longleftrightarrow>
     (\<exists>d rest ds'. read_descriptor L (b # bs) = Some (d, rest) \<and> decode k L rest = Some ds' \<and> ds = d # ds')"
  by (auto split: option.splits)

lemma decode_mono: "decode m L bs = Some ds \<Longrightarrow> m \<le> m' \<Longrightarrow> decode m' L bs = Some ds"
proof (induction m L bs arbitrary: m' ds rule: decode.induct)
  case (3 m L c cs)
  then obtain n where m': "m' = Suc n" by (cases m') simp_all
  from "3.prems"(1) obtain d rest ds' where d: "read_descriptor L (c # cs) = Some (d, rest)"
    "decode m L rest = Some ds'" "ds = d # ds'"
    unfolding decode_Suc_Some by blast
  have "decode n L rest = Some ds'"
    by (rule "3.IH" [OF d(1) refl d(2)]) (use "3.prems"(2) m' in simp)
  with d m' show ?case by simp
qed simp_all

lemma decode_append:
  "self_delimiting L \<Longrightarrow> decode k L a = Some da \<Longrightarrow> decode m L b = Some db \<Longrightarrow>
   decode (k + m) L (a @ b) = Some (da @ db)"
proof (induction k L a arbitrary: da rule: decode.induct)
  case (1 k L)
  then show ?case using decode_mono [of m L b db "k + m"] by simp
next
  case (3 k L c cs)
  then obtain d rest ds where d: "read_descriptor L (c # cs) = Some (d, rest)" "decode k L rest = Some ds" "da = d # ds"
    unfolding decode_Suc_Some by blast
  then have "read_descriptor L (c # (cs @ b)) = Some (d, rest @ b)"
    using "3.prems"(1) unfolding self_delimiting_def by (metis append_Cons)
  moreover have "decode (k + m) L (rest @ b) = Some (ds @ db)"
    by (rule "3.IH" [OF d(1) refl "3.prems"(1) d(2) "3.prems"(3)])
  ultimately show ?case using d(3) by simp
qed simp

definition good_file :: "'l sweep_lib_scheme \<Rightarrow> bytes \<Rightarrow> bool" where
  "good_file L c \<longleftrightarrow> decode (length c) L c \<noteq> None"

definition outs :: "'l sweep_lib_scheme \<Rightarrow> bytes \<Rightarrow> bytes set" where
  "outs L c = (case decode (length c) L c of Some ds \<Rightarrow> set ds | None \<Rightarrow> {})"

lemma good_concat:
  assumes "self_delimiting L" and "\<forall>c \<in> set cs. good_file L c"
  shows "good_file L (concat cs) \<and> outs L (concat cs) = (\<Union>c \<in> set cs. outs L c)"
  using assms(2)
proof (induction cs)
  case (Cons c cs)
  then obtain dc dcs where "decode (length c) L c = Some dc" "decode (length (concat cs)) L (concat cs) = Some dcs"
    by (auto simp: good_file_def)
  moreover from this have "decode (length (c @ concat cs)) L (c @ concat cs) = Some (dc @ dcs)"
    using decode_append [OF assms(1)] by simp
  ultimately show ?case
    using Cons by (auto simp: good_file_def outs_def)
qed (simp add: good_file_def outs_def)

section \<open>What the directories hold\<close>

definition files :: "directory option \<Rightarrow> (string \<times> bytes) set" where
  "files d = {(n, c). fmlookup (or_empty d) n = Some c}"

text \<open>The files of the pending directory that count: 64 characters, the others may be temporary.\<close>

definition pending_files :: "'b sweep_state_scheme \<Rightarrow> (string \<times> bytes) set" where
  "pending_files s = {(n, c) \<in> files (pending_dir s). length n = 64}"

definition all_files :: "'b sweep_state_scheme \<Rightarrow> (string \<times> bytes) set" where
  "all_files s = pending_files s \<union> files (processing_dir s) \<union> files (spendables_dir s)"

definition held :: "'l sweep_lib_scheme \<Rightarrow> 'b sweep_state_scheme \<Rightarrow> bytes set" where
  "held L s = (\<Union>(n, c) \<in> all_files s. outs L c)"

text \<open>The outputs the sweeper has accepted.\<close>

definition tracked :: "'l sweep_lib_scheme \<Rightarrow> hist \<Rightarrow> bytes set" where
  "tracked L h = {d. \<exists>pre ds i b delay post. h = pre @ TrackOutputs ds i b delay # post \<and> track_ok L pre \<and> d \<in> set ds}"

lemma tracked_mono: "tracked L h \<subseteq> tracked L (h @ h')"
  unfolding tracked_def by (auto, metis append.assoc append_Cons)

lemma tracked_snoc: "track_ok L h \<Longrightarrow> set ds \<subseteq> tracked L (h @ [TrackOutputs ds i b delay])"
  unfolding tracked_def by blast

text \<open>
  The error that the code takes for a missing directory: one that exists could not be listed, at a point
  of the history after the first \<open>b\<close> actions.
\<close>

definition listing_failed :: "nat \<Rightarrow> 'l sweep_lib_scheme \<Rightarrow> hist \<Rightarrow> bool" where
  "listing_failed b L h \<longleftrightarrow>
     (\<exists>pre what post. h = pre @ ReadDir what # post \<and> b \<le> length pre \<and> \<not> dir_readable L pre)"

lemma listing_failed_mono: "listing_failed b L h \<Longrightarrow> listing_failed b L (h @ h')"
  unfolding listing_failed_def by (metis append.assoc append_Cons)

lemma listing_failed_now: "b \<le> length h \<Longrightarrow> \<not> dir_readable L h \<Longrightarrow> listing_failed b L (h @ [ReadDir what])"
  unfolding listing_failed_def by blast

text \<open>
  Files decode, and no name is in two of the directories a file moves between.
\<close>

definition well_formed :: "'l sweep_lib_scheme \<Rightarrow> 'b sweep_state_scheme \<Rightarrow> bool" where
  "well_formed L s \<longleftrightarrow> (\<forall>(n, c) \<in> all_files s. good_file L c)
     \<and> fst ` pending_files s \<inter> fst ` files (processing_dir s) = {}"

lemma well_formed_less:
  "well_formed L s \<Longrightarrow> pending_files t \<subseteq> pending_files s \<Longrightarrow> files (processing_dir t) \<subseteq> files (processing_dir s) \<Longrightarrow>
   files (spendables_dir t) \<subseteq> files (spendables_dir s) \<Longrightarrow> well_formed L t"
  unfolding well_formed_def all_files_def by fast

text \<open>
  Every output of \<open>H\<close> is still in a file or tracked, or a listing failed since the first \<open>b\<close> actions, and the
  directories are well formed.
\<close>

definition safe :: "nat \<Rightarrow> bytes set \<Rightarrow> 'l sweep_lib_scheme \<Rightarrow> 'b sweep_state_scheme \<Rightarrow> bool" where
  "safe b H L s \<longleftrightarrow> b \<le> length (trace s)
     \<and> (listing_failed b L (trace s) \<or> H \<subseteq> held L s \<union> tracked L (trace s)) \<and> well_formed L s"

text \<open>\<open>t\<close> is \<open>s\<close> after more actions that change no directory.\<close>

definition later :: "'b sweep_state_scheme \<Rightarrow> 'b sweep_state_scheme \<Rightarrow> bool" where
  "later s t \<longleftrightarrow> (\<exists>as. t = s\<lparr>trace := trace s @ as\<rparr>)"

lemma later_refl [simp, intro]: "later s s"
  by (auto simp: later_def intro: exI [of _ "[]"])

lemma later_emit [intro]: "later s t \<Longrightarrow> later s (t\<lparr>trace := trace t @ as\<rparr>)"
  by (auto simp: later_def)

lemma later_trans: "later s t \<Longrightarrow> later t u \<Longrightarrow> later s u"
  by (auto simp: later_def)

lemma files_None [simp]: "files None = {}"
  by (simp add: files_def or_empty_def)

lemma files_upd: "files (Some (fmupd n c (or_empty d))) = insert (n, c) {(m, e) \<in> files d. m \<noteq> n}"
  by (auto simp: files_def or_empty_def split: if_splits option.splits)

lemma files_drop: "files (map_option (fmdrop n) d) = {(m, e) \<in> files d. m \<noteq> n}"
  by (auto simp: files_def or_empty_def split: if_splits option.splits)

lemma files_or_empty [simp]: "files (Some (or_empty d)) = files d"
  by (simp add: files_def or_empty_def)

lemma files_lookup: "Option.bind d (\<lambda>dir. fmlookup dir n) = Some c \<longleftrightarrow> (n, c) \<in> files d"
  by (cases d) (simp_all add: files_def or_empty_def)

lemma files_names: "fst ` files (Some dir) = fset (fmdom dir)"
  by (force simp: files_def or_empty_def fmlookup_dom_iff)

lemma files_fun: "(n, c) \<in> files d \<Longrightarrow> (n, c') \<in> files d \<Longrightarrow> c = c'"
  by (simp add: files_def)

lemma dir_trace [simp]:
  "all_files (s\<lparr>trace := h\<rparr>) = all_files s" "held L (s\<lparr>trace := h\<rparr>) = held L s"
  "well_formed L (s\<lparr>trace := h\<rparr>) = well_formed L s" "pending_files (s\<lparr>trace := h\<rparr>) = pending_files s"
  by (simp_all add: all_files_def pending_files_def held_def well_formed_def)

lemma pending_files_upd [simp]:
  "pending_files (s\<lparr>spendables_dir := d\<rparr>) = pending_files s" "pending_files (s\<lparr>pending_dir := None\<rparr>) = {}"
  by (simp_all add: pending_files_def)

lemma later_dirs:
  "later s t \<Longrightarrow> all_files t = all_files s \<and> pending_files t = pending_files s \<and> pending_dir t = pending_dir s
     \<and> processing_dir t = processing_dir s \<and> spendables_dir t = spendables_dir s"
  by (auto simp: later_def)

lemma safe_held:
  assumes "safe b H L s" and "held L s \<subseteq> held L t \<union> tracked L (trace t)" and "trace t = trace s @ as" and "well_formed L t"
  shows "safe b H L t"
  using assms tracked_mono [of L "trace s" as] listing_failed_mono [of b L "trace s" as] unfolding safe_def by auto

lemma safe_emit [intro]: "safe b H L s \<Longrightarrow> safe b H L (s\<lparr>trace := trace s @ as\<rparr>)"
  by (rule safe_held [where as = as]) (auto simp: safe_def)

lemma safe_later: "safe b H L s \<Longrightarrow> later s t \<Longrightarrow> safe b H L t"
  by (auto simp: later_def)

lemma safe_cong:
  "pending_files u = pending_files t \<Longrightarrow> files (processing_dir u) = files (processing_dir t) \<Longrightarrow>
   files (spendables_dir u) = files (spendables_dir t) \<Longrightarrow> trace u = trace t \<Longrightarrow> safe b H L u = safe b H L t"
  unfolding safe_def held_def well_formed_def all_files_def by simp

section \<open>Operations on files\<close>

lemma wp_file_op [wp_simps]:
  "wp (file_op L f) Q E s =
     (if file_op_ok L (trace s) then Q () (f (s\<lparr>trace := trace s @ [Query]\<rparr>)) else E UnwrapErr (s\<lparr>trace := trace s @ [Query]\<rparr>))"
  by (simp add: file_op_def wp_simps)

text \<open>A file system whose listings, where they succeed, have the files of the directory.\<close>

definition listing :: "'l sweep_lib_scheme \<Rightarrow> bool" where
  "listing L \<longleftrightarrow> (\<forall>h d. set (dir_names L h d) = fset (fmdom d))"

lemma wp_read_dir:
  assumes "listing L" and "b \<le> length (trace s)"
    and "\<And>ns t. later s t \<Longrightarrow> (case ns of None \<Rightarrow> d = None \<or> listing_failed b L (trace t)
        | Some xs \<Rightarrow> d \<noteq> None \<and> set xs = fst ` files d) \<Longrightarrow> Q ns t"
  shows "wp (read_dir L what d) Q E s"
proof (cases d)
  case None
  then show ?thesis using assms(3) [of s None] by (simp add: read_dir_def wp_simps)
next
  case (Some dir)
  let ?t = "s\<lparr>trace := trace s @ [ReadDir what]\<rparr>" and ?u = "s\<lparr>trace := trace s @ [ReadDir what, Query]\<rparr>"
  have "later s ?t" "later s ?u" by auto
  then show ?thesis
    using Some assms(1) assms(3) [of ?t None] assms(3) [of ?u "Some xs" for xs] listing_failed_now [OF assms(2), of L what]
    by (simp add: read_dir_def wp_simps listing_def files_names)
qed

text \<open>Removing a directory, with an invariant of the states on the way.\<close>

lemma wp_remove_dir:
  assumes start: "d s = None \<Longrightarrow> E UnwrapErr s" "d s \<noteq> None \<Longrightarrow> I s"
    and emit: "\<And>u. I u \<Longrightarrow> I (u\<lparr>trace := trace u @ [Query]\<rparr>)"
    and drop: "\<And>u name. I u \<Longrightarrow> I (f (map_option (fmdrop name)) u)"
    and gone: "\<And>u. I u \<Longrightarrow> Q () (f (\<lambda>_. None) u)"
    and fail: "\<And>p u. I u \<Longrightarrow> (\<exists>h. \<not> file_op_ok L h) \<Longrightarrow> E p u"
  shows "wp (remove_dir L d f) Q E s"
proof (cases "d s")
  case (Some content)
  then have I: "I s" using start(2) by simp
  have op: "wp (file_op L g) P E u" if "I u" "\<And>v. I v \<Longrightarrow> P () (g v)" for g P u
    using that emit [OF that(1)] fail [OF emit [OF that(1)]] by (auto simp: wp_file_op)
  have loop: "wp (forP names (\<lambda>name. file_op L (f (map_option (fmdrop name))))) (\<lambda>_. I) E u" if "I u" for names u
    by (rule wp_forP [where I = I, OF that]) (rule op, auto intro: drop)
  have "wp (thenP (file_op L id) (bindP (ask (\<lambda>h. dir_names L h content)) (\<lambda>names.
      thenP (forP names (\<lambda>name. file_op L (f (map_option (fmdrop name))))) (file_op L (f (\<lambda>_. None)))))) Q E s"
    by (rule wp_seq_then [OF op [where P = "\<lambda>_. I", OF I]])
      (auto simp: wp_bind wp_ask intro!: wp_seq_then [OF loop] op gone emit)
  then show ?thesis by (simp add: remove_dir_def wp_bind wp_gets Some)
qed (simp add: remove_dir_def wp_simps start)

lemma wp_read_file_in:
  assumes "\<And>h. d (s\<lparr>trace := h\<rparr>) = d s" and "later s t"
    and "\<And>c u. later s u \<Longrightarrow> (n, c) \<in> files (d s) \<Longrightarrow> Q c u" and "\<And>p u. later s u \<Longrightarrow> E p u"
  shows "wp (read_file_in L d n) Q E t"
proof -
  have "d (t\<lparr>trace := h\<rparr>) = d s" for h using assms(1,2) by (auto simp: later_def)
  then show ?thesis
    using assms(2-4) later_emit [OF assms(2), of "[Query]"] later_emit [OF assms(2), of "[Query, Query]"]
    by (auto simp: read_file_in_def wp_simps id_def files_lookup split: option.splits)
qed

lemma concat_files_cons:
  "P n c \<Longrightarrow> list_all2 P ns fs \<Longrightarrow> \<exists>fs'. c @ concat fs = concat fs' \<and> list_all2 P (n # ns) fs'"
  by (rule exI [of _ "c # fs"]) simp

lemma wp_concat_files:
  assumes d: "\<And>h. d (s\<lparr>trace := h\<rparr>) = d s"
  shows "later s t \<Longrightarrow> wp (concat_files L d names)
    (\<lambda>cs u. later s u \<and> (\<exists>fs. cs = concat fs \<and> list_all2 (\<lambda>n c. (n, c) \<in> files (d s)) names fs)) (\<lambda>_ u. later s u) t"
proof (induction names arbitrary: t)
  case Nil
  then show ?case by (auto simp: wp_ret)
next
  case (Cons n names)
  show ?case
    unfolding concat_files.simps
  proof (rule wp_seq [OF wp_read_file_in [OF d Cons.prems, where Q = "\<lambda>c u. later s u \<and> (n, c) \<in> files (d s)"]])
    fix c u assume u: "later s u \<and> (n, c) \<in> files (d s)"
    then show "wp (bindP (concat_files L d names) (\<lambda>cs. ret (c @ cs)))
        (\<lambda>cs u. later s u \<and> (\<exists>fs. cs = concat fs \<and> list_all2 (\<lambda>n c. (n, c) \<in> files (d s)) (n # names) fs))
        (\<lambda>_ u. later s u) u"
      by (intro wp_seq [OF Cons.IH]) (auto simp: wp_ret intro: concat_files_cons)
  qed auto
qed

lemma contents_of_all:
  assumes "list_all2 (\<lambda>n c. (n, c) \<in> files d) names fs" and "set names = fst ` files d"
  shows "set fs = snd ` files d"
proof
  show "set fs \<subseteq> snd ` files d"
    using assms(1) by (force simp: list_all2_conv_all_nth in_set_conv_nth)
  show "snd ` files d \<subseteq> set fs"
  proof clarsimp
    fix n c assume nc: "(n, c) \<in> files d"
    then have "n \<in> set names" using assms(2) by force
    then obtain i where "i < length names" "names ! i = n" by (auto simp: in_set_conv_nth)
    with assms(1) nc show "c \<in> set fs"
      by (metis files_fun list_all2_conv_all_nth nth_mem)
  qed
qed

section \<open>The first half\<close>

text \<open>
  The states of the loop over the pending directory that began in \<open>s\<close>, with the files of \<open>names\<close> still to
  come.
\<close>

definition moving :: "nat \<Rightarrow> bytes set \<Rightarrow> 'l sweep_lib_scheme \<Rightarrow> 'b sweep_state_scheme \<Rightarrow> string list \<Rightarrow> 'b sweep_state_scheme \<Rightarrow> bool" where
  "moving b H L s names t \<longleftrightarrow> safe b H L t \<and> spendables_dir t = spendables_dir s
     \<and> (\<exists>as. trace t = trace s @ as) \<and> fst ` pending_files t \<subseteq> set names"

lemma moving_emit: "moving b H L s names t \<Longrightarrow> moving b H L s names (t\<lparr>trace := trace t @ as\<rparr>)"
  by (auto simp: moving_def)

lemma moving_create:
  "moving b H L s names t \<Longrightarrow> moving b H L s names (t\<lparr>processing_dir := Some (or_empty (processing_dir t))\<rparr>)"
proof -
  let ?u = "t\<lparr>processing_dir := Some (or_empty (processing_dir t))\<rparr>"
  have p: "pending_files ?u = pending_files t" by (simp add: pending_files_def)
  then have "safe b H L ?u = safe b H L t" by (rule safe_cong) simp_all
  with p show "moving b H L s names t \<Longrightarrow> moving b H L s names ?u" by (simp add: moving_def)
qed

lemma moving_move:
  assumes "moving b H L s (name # names) t" and "length name = 64" and nc: "(name, c) \<in> files (pending_dir t)"
  shows "moving b H L s names (t\<lparr>pending_dir := map_option (fmdrop name) (pending_dir t),
            processing_dir := Some (fmupd name c (or_empty (processing_dir t)))\<rparr>)"
    (is "moving _ _ _ _ _ ?u")
proof -
  have wf: "well_formed L t" using assms(1) by (simp add: moving_def safe_def)
  have p: "pending_files ?u = {(m, e) \<in> pending_files t. m \<noteq> name}"
    by (auto simp: pending_files_def files_drop)
  have in_p: "(name, c) \<in> pending_files t" using assms(2) nc by (simp add: pending_files_def)
  with wf have fresh: "name \<notin> fst ` files (processing_dir t)"
    by (force simp: well_formed_def)
  then have q: "files (processing_dir ?u) = insert (name, c) (files (processing_dir t))"
    by (force simp: files_upd)
  have P: "insert (name, c) {(m, e) \<in> pending_files t. m \<noteq> name} = pending_files t"
    using in_p by (auto simp: pending_files_def dest: files_fun)
  have "all_files ?u = insert (name, c) {(m, e) \<in> pending_files t. m \<noteq> name} \<union> files (processing_dir t)
      \<union> files (spendables_dir t)"
    unfolding all_files_def p q by simp
  then have all: "all_files ?u = all_files t" unfolding P all_files_def .
  have "well_formed L ?u"
    using wf unfolding well_formed_def all p q by auto
  moreover have "held L ?u = held L t" by (simp add: held_def all)
  ultimately show ?thesis
    using assms(1) unfolding moving_def safe_def p by auto
qed

lemma wp_move_pending:
  assumes "moving b H L s (name # names) t"
  shows "wp (move_pending L name) (\<lambda>_. moving b H L s names) (\<lambda>_. safe b H L) t"
proof (cases "length name = 64")
  case True
  note start = assms
  let ?t = "t\<lparr>trace := trace t @ [Query]\<rparr>"
  have assms: "moving b H L s (name # names) ?t" by (rule moving_emit [OF start])
  have S: "safe b H L u" if "moving b H L s ns u" for ns u using that by (simp add: moving_def)
  let ?t1 = "?t\<lparr>trace := trace ?t @ [Query]\<rparr>"
  let ?t2 = "?t1\<lparr>processing_dir := Some (or_empty (processing_dir ?t1))\<rparr>"
  let ?t3 = "?t2\<lparr>trace := trace ?t2 @ [Query]\<rparr>"
  have m: "moving b H L s (name # names) ?t1" by (rule moving_emit [OF assms])
  have m2: "moving b H L s (name # names) ?t2" by (rule moving_create [OF m])
  have m3: "moving b H L s (name # names) ?t3" by (rule moving_emit [OF m2])
  have "wp (gets (\<lambda>s. Option.bind (pending_dir s) (\<lambda>dir. fmlookup dir name)) ) (\<lambda>c u. u = ?t2 \<and>
      (\<forall>b. c = Some b \<longrightarrow> (name, b) \<in> files (pending_dir ?t3))) (\<lambda>_. safe b H L) ?t2"
    by (simp add: wp_gets files_lookup)
  then have "wp (bindP (gets (\<lambda>s. Option.bind (pending_dir s) (\<lambda>dir. fmlookup dir name))) (\<lambda>c.
        case c of None \<Rightarrow> panic UnwrapErr
        | Some bytes \<Rightarrow> file_op L (\<lambda>s. s\<lparr>pending_dir := map_option (fmdrop name) (pending_dir s),
            processing_dir := Some (fmupd name bytes (or_empty (processing_dir s)))\<rparr>)))
      (\<lambda>_. moving b H L s names) (\<lambda>_. safe b H L) ?t2"
    by (rule wp_seq) (use moving_move [OF m3 True] S [OF m2] S [OF m3] in \<open>auto simp: wp_simps split: option.splits\<close>)
  then show ?thesis
    using S [OF assms] S [OF m] True by (simp add: move_pending_def wp_simps)
next
  case False
  have "length n = 64" if "(n, c) \<in> pending_files t" for n c using that by (simp add: pending_files_def)
  with False have "name \<notin> fst ` pending_files t" by auto
  with False assms moving_emit [OF assms, of "[Query]"] show ?thesis
    by (auto simp: move_pending_def wp_simps moving_def)
qed

text \<open>The name of the file written is not taken.\<close>

definition fresh_key :: "'l sweep_lib_scheme \<Rightarrow> 'b sweep_state_scheme \<Rightarrow> bool" where
  "fresh_key L s \<longleftrightarrow> (\<forall>as. hex_str (secure_random L (trace s @ as)) \<notin> fst ` files (spendables_dir s))"

lemma outs_Nil [simp]: "outs L [] = {}"
  by (simp add: outs_def)

lemma held_parts:
  "held L s = (\<Union>(n, c) \<in> pending_files s. outs L c) \<union> (\<Union>(n, c) \<in> files (processing_dir s). outs L c)
     \<union> (\<Union>(n, c) \<in> files (spendables_dir s). outs L c)"
  by (simp add: held_def all_files_def UN_Un)

text \<open>What the processing directory holds is in a file of \<open>spendable_outputs\<close> as well.\<close>

definition stored :: "nat \<Rightarrow> bytes set \<Rightarrow> 'l sweep_lib_scheme \<Rightarrow> 'b sweep_state_scheme \<Rightarrow> bool" where
  "stored b H L t \<longleftrightarrow> safe b H L t \<and> pending_files t = {}
     \<and> (\<Union>(n, c) \<in> files (processing_dir t). outs L c) \<subseteq> (\<Union>(n, c) \<in> files (spendables_dir t). outs L c)"

lemma pending_files_processing [simp]: "pending_files (processing_dir_update f t) = pending_files t"
  by (simp add: pending_files_def)

lemma store_outputs:
  assumes "self_delimiting L" and safe: "safe b H L t" and fs: "set fs = snd ` files (processing_dir t)"
    and key: "key \<notin> fst ` files (spendables_dir t)" and p: "pending_files t = {}"
  shows "stored b H L (t\<lparr>spendables_dir := Some (fmupd key (concat fs) (or_empty (spendables_dir t)))\<rparr>)" (is "stored _ _ _ ?u")
proof -
  have wf: "well_formed L t" using safe by (simp add: safe_def)
  then have "\<forall>c \<in> set fs. good_file L c" unfolding fs by (auto simp: well_formed_def all_files_def)
  then have good: "good_file L (concat fs)" and outs: "outs L (concat fs) = (\<Union>(n, c) \<in> files (processing_dir t). outs L c)"
    using good_concat [OF assms(1), of fs] unfolding fs by auto
  have sp: "files (Some (fmupd key (concat fs) (or_empty (spendables_dir t)))) = insert (key, concat fs) (files (spendables_dir t))"
    using key by (force simp: files_upd)
  have "well_formed L ?u"
    using wf good sp by (auto simp: well_formed_def all_files_def)
  moreover have "held L t \<subseteq> held L ?u" unfolding held_parts using sp by auto
  ultimately have "safe b H L ?u" by (auto intro: safe_held [OF safe, where as = "[]"])
  then show ?thesis using p outs sp by (auto simp: stored_def)
qed

lemma stored_emit: "stored b H L t \<Longrightarrow> stored b H L (t\<lparr>trace := trace t @ as\<rparr>)"
  by (auto simp: stored_def)

text \<open>Then files of the processing directory may go.\<close>

lemma stored_less:
  assumes "stored b H L t" and "files d \<subseteq> files (processing_dir t)"
  shows "stored b H L (t\<lparr>processing_dir := d\<rparr>)"
proof -
  have wf: "well_formed L (t\<lparr>processing_dir := d\<rparr>)"
    by (rule well_formed_less [of L t]) (use assms in \<open>simp_all add: stored_def safe_def\<close>)
  have p: "pending_files t = {}" and sp: "(\<Union>(n, c) \<in> files (processing_dir t). outs L c) \<subseteq> (\<Union>(n, c) \<in> files (spendables_dir t). outs L c)"
    using assms(1) by (simp_all add: stored_def)
  have "held L t \<subseteq> held L (t\<lparr>processing_dir := d\<rparr>)"
    unfolding held_parts p pending_files_processing using sp by (simp add: le_supI2)
  note safe_held [where as = "[]" and s = t, OF _ le_supI1 [OF this] _ wf]
  then have "safe b H L (t\<lparr>processing_dir := d\<rparr>)"
    using assms(1) by (simp add: stored_def)
  moreover have "(\<Union>(n, c) \<in> files d. outs L c) \<subseteq> (\<Union>(n, c) \<in> files (spendables_dir t). outs L c)"
    using assms unfolding stored_def by blast
  ultimately show ?thesis using assms(1) by (simp add: stored_def)
qed

lemma stored_drop: "stored b H L t \<Longrightarrow> stored b H L (processing_dir_update (map_option (fmdrop n)) t)"
proof -
  have "processing_dir_update (map_option (fmdrop n)) t = t\<lparr>processing_dir := map_option (fmdrop n) (processing_dir t)\<rparr>"
    by (cases t) simp
  moreover have "files (map_option (fmdrop n) (processing_dir t)) \<subseteq> files (processing_dir t)" by (auto simp: files_drop)
  ultimately show "stored b H L t \<Longrightarrow> ?thesis" using stored_less by metis
qed

definition drained :: "nat \<Rightarrow> bytes set \<Rightarrow> 'l sweep_lib_scheme \<Rightarrow> 'b sweep_state_scheme \<Rightarrow> bool" where
  "drained b H L t \<longleftrightarrow> safe b H L t \<and> (listing_failed b L (trace t) \<or> pending_files t = {}
     \<and> (pending_dir t = None \<or> (\<forall>(n, c) \<in> files (processing_dir t). outs L c = {})))"

lemma drained_empty_outputs:
  "moving b H L s [] t \<Longrightarrow> set fs = snd ` files (processing_dir t) \<Longrightarrow> concat fs = [] \<Longrightarrow> drained b H L t"
  by (force simp: drained_def moving_def)

lemma drained_stored: "stored b H L t \<Longrightarrow> drained b H L (processing_dir_update (\<lambda>_. None) t)"
  using stored_less [of b H L t None] by (auto simp: stored_def drained_def)

lemma moving_later: "moving b H L s names t \<Longrightarrow> later t u \<Longrightarrow> moving b H L s names u"
  by (auto simp: later_def intro: moving_emit)

lemma output_written:
  fixes v :: "'b sweep_state_scheme"
  assumes L: "self_delimiting L" "fresh_key L s" and m: "moving b H L s [] v"
    and fs: "set fs = snd ` files (processing_dir v)"
  shows "stored b H L (v\<lparr>trace := trace v @ as,
     spendables_dir := Some (fmupd (hex_str (secure_random L (trace v))) (concat fs) (or_empty (spendables_dir v)))\<rparr>)"
proof -
  let ?w = "v\<lparr>trace := trace v @ as\<rparr>"
  have w: "moving b H L s [] ?w" by (rule moving_emit [OF m])
  obtain bs where bs: "trace v = trace s @ bs" using m by (auto simp: moving_def)
  have fresh: "hex_str (secure_random L (trace v)) \<notin> fst ` files (spendables_dir ?w)"
    using L(2) w by (simp add: fresh_key_def moving_def bs)
  have "safe b H L ?w" "pending_files ?w = {}" using w by (simp_all add: moving_def)
  from store_outputs [OF L(1) this(1) _ fresh this(2), of fs] fs show ?thesis by simp
qed

lemma wp_store_processing:
  assumes L: "listing L" "self_delimiting L" "\<And>bs. without_length L bs = bs" "fresh_key L s" and m: "moving b H L s [] t"
  shows "wp (store_processing L) (\<lambda>_. drained b H L) (\<lambda>_. safe b H L) t"
proof -
  have safe: "safe b H L u" if "later t u" for u using m that by (auto simp: moving_def intro: safe_later)
  have b: "b \<le> length (trace t)" using m by (simp add: moving_def safe_def)
  show ?thesis
    unfolding store_processing_def wp_bind wp_gets
  proof (rule wp_read_dir [OF L(1) b], rule wp_mono [OF wp_concat_files [OF _ _]])
    fix ns cs u v
    assume u: "later t u" and ns: "case ns of None \<Rightarrow> processing_dir t = None \<or> listing_failed b L (trace u)
      | Some xs \<Rightarrow> processing_dir t \<noteq> None \<and> set xs = fst ` files (processing_dir t)"
    let ?names = "case ns of None \<Rightarrow> [] | Some names \<Rightarrow> names"
    assume "later u v \<and> (\<exists>fs. cs = concat fs \<and> list_all2 (\<lambda>n c. (n, c) \<in> files (processing_dir u)) ?names fs)"
    then obtain fs where uv: "later u v" and cs: "cs = concat fs"
      and fs: "list_all2 (\<lambda>n c. (n, c) \<in> files (processing_dir u)) ?names fs" by blast
    have v: "later t v" by (rule later_trans [OF u uv])
    have mv: "moving b H L s [] v" by (rule moving_later [OF m v])
    show "wp (if cs = [] then ret ()
      else bindP (call RandomBytes (secure_random L)) (\<lambda>random.
        let key = hex_str random; value = without_length L cs in
        thenP (emit (KvWrite ''spendable_outputs'' [] key value))
        (thenP (file_op L (\<lambda>s. s\<lparr>spendables_dir := Some (fmupd key value (or_empty (spendables_dir s)))\<rparr>))
        (remove_dir L processing_dir processing_dir_update)))) (\<lambda>_. drained b H L) (\<lambda>_. safe b H L) v"
    proof (cases "set ?names = fst ` files (processing_dir t)")
      case False
      then have "ns = None" "listing_failed b L (trace u)" using ns by (auto split: option.splits)
      then have "cs = []" "listing_failed b L (trace v)"
        using cs fs uv listing_failed_mono by (auto simp: later_def)
      then show ?thesis using mv by (simp add: wp_ret drained_def moving_def)
    next
      case True
      then have fs: "set fs = snd ` files (processing_dir v)"
        using contents_of_all [of "processing_dir t"] fs later_dirs [OF u] later_dirs [OF v] by simp
      have safe_v: "safe b H L (v\<lparr>trace := trace v @ as\<rparr>)" for as using safe [OF v] by auto
      let ?d = "Some (fmupd (hex_str (secure_random L (trace v))) cs (or_empty (spendables_dir v)))"
      have remove: "wp (remove_dir L processing_dir processing_dir_update) (\<lambda>_. drained b H L) (\<lambda>_. safe b H L)
          (v\<lparr>trace := trace v @ as, spendables_dir := ?d\<rparr>)" for as
        using output_written [OF L(2,4) mv fs, folded cs]
        by (intro wp_remove_dir [where I = "stored b H L"] stored_emit stored_drop drained_stored)
          (auto simp: stored_def)
      have "drained b H L v" if "cs = []"
        by (rule drained_empty_outputs [where fs = fs, OF mv fs]) (use that cs in simp)
      then show ?thesis using safe_v remove by (simp add: wp_simps Let_def L(3))
    qed
  qed (auto intro: safe later_trans)
qed

lemma wp_drain_pending:
  assumes L: "listing L" "self_delimiting L" "\<And>bs. without_length L bs = bs" "fresh_key L s" and safe: "safe b H L s"
  shows "wp (drain_pending L) (\<lambda>_. drained b H L) (\<lambda>_. safe b H L) s"
  unfolding drain_pending_def wp_bind wp_gets
proof (rule wp_read_dir [OF L(1)])
  show "b \<le> length (trace s)" using safe by (simp add: safe_def)
  fix ns t assume t: "later s t"
    and ns: "case ns of None \<Rightarrow> pending_dir s = None \<or> listing_failed b L (trace t)
      | Some xs \<Rightarrow> pending_dir s \<noteq> None \<and> set xs = fst ` files (pending_dir s)"
  show "wp (case ns of None \<Rightarrow> ret () | Some names \<Rightarrow> thenP (forP names (move_pending L)) (store_processing L))
    (\<lambda>_. drained b H L) (\<lambda>_. safe b H L) t"
  proof (cases ns)
    case None
    then show ?thesis
      using ns safe_later [OF safe t] later_dirs [OF t] by (auto simp: wp_ret drained_def pending_files_def)
  next
    case (Some names)
    have "fst ` pending_files s \<subseteq> set names" using ns Some by (auto simp: pending_files_def)
    then have "moving b H L s names s" using safe by (auto simp: moving_def intro: exI [of _ "[]"])
    then have "moving b H L s names t" by (rule moving_later [OF _ t])
    then have "wp (forP names (move_pending L)) (\<lambda>_. moving b H L s []) (\<lambda>_. safe b H L) t"
      by (rule wp_forP_rest) (rule wp_move_pending)
    then show ?thesis
      using Some by (auto intro: wp_seq_then wp_store_processing [OF L])
  qed
qed

section \<open>The second half\<close>

lemma outputs_of_good:
  "good_file L c \<Longrightarrow> \<exists>ds. read_descriptors (length c) L c s = (Val (Some ds), s) \<and> outs L c = set ds"
  by (auto simp: good_file_def outs_def run_read_descriptors)

definition covers :: "'l sweep_lib_scheme \<Rightarrow> 'b sweep_state_scheme \<Rightarrow> string list \<Rightarrow> bytes list \<Rightarrow> bool" where
  "covers L s names ds \<longleftrightarrow> (\<forall>(n, c) \<in> files (spendables_dir s). n \<in> set names \<longrightarrow> outs L c \<subseteq> set ds)"

lemma covers_all:
  "covers L s names ds \<Longrightarrow> set names = fst ` files (spendables_dir s) \<Longrightarrow>
   \<forall>(n, c) \<in> files (spendables_dir s). outs L c \<subseteq> set ds"
  unfolding covers_def by force

lemma covers_Cons:
  assumes "covers L s names ds'" and "(n, c) \<in> files (spendables_dir s)" and "outs L c = set ds"
  shows "covers L s (n # names) (ds @ ds')"
proof -
  have "c' = c" if "(n, c') \<in> files (spendables_dir s)" for c' using that assms(2) by (rule files_fun)
  with assms(1,3) show ?thesis by (fastforce simp: covers_def)
qed

lemma wp_read_outputs:
  assumes good: "\<forall>(n, c) \<in> files (spendables_dir s). good_file L c"
  shows "later s t \<Longrightarrow> wp (read_outputs L names)
    (\<lambda>r u. later s u \<and> (\<exists>ds. r = Some ds \<and> covers L s names ds)) (\<lambda>_ u. later s u) t"
proof (induction names arbitrary: t)
  case Nil
  then show ?case by (simp add: wp_ret covers_def)
next
  case (Cons n names)
  let ?Q = "\<lambda>names r u. later s u \<and> (\<exists>ds. r = Some ds \<and> covers L s names ds)"
  show ?case
    unfolding read_outputs.simps
  proof (rule wp_seq [OF wp_read_file_in [OF _ Cons.prems, where Q = "\<lambda>c u. later s u \<and> (n, c) \<in> files (spendables_dir s)"]])
    fix c u assume u: "later s u \<and> (n, c) \<in> files (spendables_dir s)"
    with good have "good_file L c" by blast
    from outputs_of_good [OF this, of u] obtain ds
      where ds: "read_descriptors (length c) L c u = (Val (Some ds), u)" "outs L c = set ds" by blast
    have "wp (bindP (read_outputs L names) (\<lambda>r'. ret (map_option (\<lambda>ds'. ds @ ds') r'))) (?Q (n # names)) (\<lambda>_. later s) u"
    proof (rule wp_seq [OF Cons.IH])
      fix r v assume "?Q names r v"
      then obtain ds' where v: "later s v" and r: "r = Some ds'" and ds': "covers L s names ds'" by blast
      have "covers L s (n # names) (ds @ ds')" using covers_Cons [OF ds' _ ds(2)] u by blast
      then show "wp (ret (map_option (\<lambda>ds'. ds @ ds') r)) (?Q (n # names)) (\<lambda>_. later s) v"
        by (simp add: wp_ret r v)
    qed (simp add: u)
    then show "wp (bindP (read_descriptors (length c) L c) (\<lambda>r. case r of None \<Rightarrow> ret None
        | Some ds \<Rightarrow> bindP (read_outputs L names) (\<lambda>r'. ret (map_option (\<lambda>ds'. ds @ ds') r')))) (?Q (n # names)) (\<lambda>_. later s) u"
      by (simp add: wp_def bindP_def [of "read_descriptors _ _ _"] ds(1))
  qed auto
qed

lemma drained_emit: "drained b H L t \<Longrightarrow> later t u \<Longrightarrow> drained b H L u"
  using later_dirs [of t u] safe_later [of b H L t u] listing_failed_mono [of b L "trace t"] unfolding drained_def
  by (auto simp: later_def)

text \<open>Removing the directories once the sweeper has what they held.\<close>

definition spendables_tracked :: "'l sweep_lib_scheme \<Rightarrow> 'b sweep_state_scheme \<Rightarrow> bool" where
  "spendables_tracked L s \<longleftrightarrow> (\<Union>(n, c) \<in> files (spendables_dir s). outs L c) \<subseteq> tracked L (trace s)"

definition taken :: "nat \<Rightarrow> bytes set \<Rightarrow> 'l sweep_lib_scheme \<Rightarrow> 'b sweep_state_scheme \<Rightarrow> bool" where
  "taken b H L s \<longleftrightarrow> drained b H L s \<and> (listing_failed b L (trace s) \<or> spendables_tracked L s)"

lemma taken_less:
  assumes "taken b H L v" and "trace u = trace v" and "processing_dir u = processing_dir v"
    and p: "pending_files u \<subseteq> pending_files v" "pending_dir v = None \<Longrightarrow> pending_dir u = None"
    and sp: "files (spendables_dir u) \<subseteq> files (spendables_dir v)"
  shows "taken b H L u"
proof -
  have v: "safe b H L v" "listing_failed b L (trace v) \<or> spendables_tracked L v"
    using assms(1) by (simp_all add: taken_def drained_def)
  have wf: "well_formed L u"
    by (rule well_formed_less [of L v]) (use v(1) assms(3) p sp in \<open>simp_all add: safe_def\<close>)
  have "listing_failed b L (trace u) \<or> spendables_tracked L u"
    using v(2) sp assms(2) unfolding spendables_tracked_def by auto
  moreover have "safe b H L u"
  proof (cases "listing_failed b L (trace v)")
    case False
    then have "held L v \<subseteq> held L u \<union> tracked L (trace u)"
      using False assms(1,2,3) v(2) unfolding held_parts taken_def drained_def spendables_tracked_def by auto
    then show ?thesis by (rule safe_held [OF v(1), where as = "[]"]) (simp_all add: assms(2) wf)
  qed (use v(1) wf assms(2) in \<open>simp add: safe_def\<close>)
  ultimately show ?thesis using assms(1-3) p unfolding taken_def drained_def by auto
qed

lemma taken_emit: "taken b H L v \<Longrightarrow> taken b H L (v\<lparr>trace := trace v @ as\<rparr>)"
  using tracked_mono [of L "trace v" as] listing_failed_mono [of b L "trace v" as]
    drained_emit [of b H L v "v\<lparr>trace := trace v @ as\<rparr>"]
  unfolding taken_def spendables_tracked_def by auto

lemma taken_spendables:
  "taken b H L v \<Longrightarrow> taken b H L (spendables_dir_update (map_option (fmdrop n)) v)"
  "taken b H L v \<Longrightarrow> taken b H L (spendables_dir_update (\<lambda>_. None) v)"
  by (erule taken_less; auto simp: files_drop pending_files_def)+

lemma taken_pending:
  "taken b H L v \<Longrightarrow> taken b H L (pending_dir_update (map_option (fmdrop n)) v)"
  "taken b H L v \<Longrightarrow> taken b H L (pending_dir_update (\<lambda>_. None) v)"
  by (erule taken_less; auto simp: files_drop pending_files_def)+

lemma taken_tracked:
  "taken b H L v \<Longrightarrow> pending_dir v \<noteq> None \<Longrightarrow> listing_failed b L (trace v) \<or> H \<subseteq> tracked L (trace v)"
proof -
  assume v: "taken b H L v" "pending_dir v \<noteq> None"
  show ?thesis
  proof (cases "listing_failed b L (trace v)")
    case False
    then have "(\<Union>(n, c) \<in> files (processing_dir v). outs L c) = {}" and "pending_files v = {}"
      using v unfolding taken_def drained_def by blast+
    then have "held L v \<subseteq> tracked L (trace v)"
      using v(1) False by (simp add: held_parts taken_def spendables_tracked_def)
    moreover have "H \<subseteq> held L v \<union> tracked L (trace v)" using v(1) False by (simp add: taken_def drained_def safe_def)
    ultimately show ?thesis by blast
  qed simp
qed

text \<open>The state once the first of the directories is gone.\<close>

definition cleaned :: "nat \<Rightarrow> bytes set \<Rightarrow> 'l sweep_lib_scheme \<Rightarrow> 'b sweep_state_scheme \<Rightarrow> bool" where
  "cleaned b H L s \<longleftrightarrow> taken b H L s \<and> spendables_dir s = None
     \<and> (listing_failed b L (trace s) \<or> H \<subseteq> tracked L (trace s))"

lemma cleaned_emit: "cleaned b H L s \<Longrightarrow> cleaned b H L (s\<lparr>trace := trace s @ as\<rparr>)"
  using tracked_mono [of L "trace s" as] listing_failed_mono [of b L "trace s" as] taken_emit [of b H L s as]
  unfolding cleaned_def by auto

lemma cleaned_safe: "taken b H L s \<Longrightarrow> safe b H L s" "cleaned b H L s \<Longrightarrow> safe b H L s"
  by (simp_all add: cleaned_def taken_def drained_def)

text \<open>How a run that began with the outputs \<open>H\<close>, when the trace had \<open>b\<close> actions, may return.\<close>

fun migration_result :: "nat \<Rightarrow> bytes set \<Rightarrow> 'l sweep_lib_scheme \<Rightarrow> migration \<Rightarrow> 'b sweep_state_scheme \<Rightarrow> bool" where
  "migration_result b H L NothingToMigrate t \<longleftrightarrow> pending_dir t = None \<and> processing_dir t = None \<and> spendables_dir t = None"
| "migration_result b H L (Migrated n) t \<longleftrightarrow> (listing_failed b L (trace t) \<or> H \<subseteq> tracked L (trace t))
     \<and> pending_dir t = None \<and> spendables_dir t = None"
| "migration_result b H L StillReading t \<longleftrightarrow> False"

lemma wp_add_u32 [wp_simps]:
  "wp (add_u32 a b) Q E s = (if unat a + unat b < 2 ^ 32 then Q (a + b) s else E Overflow s)"
  by (simp add: add_u32_def wp_ret wp_panic)

text \<open>The last steps, from the call of the sweeper.\<close>

lemma wp_remove_both:
  assumes "taken b H L v"
  shows "wp (thenP (remove_dir L spendables_dir spendables_dir_update)
      (thenP (remove_dir L pending_dir pending_dir_update) (thenP (emit (Log msg)) (ret (Migrated n)))))
    (\<lambda>r t. safe b H L t \<and> migration_result b H L r t) (\<lambda>_. safe b H L) v"
proof (rule wp_seq_then [where Q' = "\<lambda>_ t. taken b H L t \<and> spendables_dir t = None"])
  show "wp (remove_dir L spendables_dir spendables_dir_update) (\<lambda>_ t. taken b H L t \<and> spendables_dir t = None) (\<lambda>_. safe b H L) v"
    by (rule wp_remove_dir [where I = "taken b H L"])
      (use assms in \<open>auto intro: taken_emit taken_spendables cleaned_safe\<close>)
next
  fix x t assume t: "taken b H L t \<and> spendables_dir t = None"
  show "wp (thenP (remove_dir L pending_dir pending_dir_update) (thenP (emit (Log msg)) (ret (Migrated n))))
    (\<lambda>r t. safe b H L t \<and> migration_result b H L r t) (\<lambda>_. safe b H L) t"
  proof (rule wp_seq_then [where Q' = "\<lambda>_ t. cleaned b H L t \<and> pending_dir t = None"])
    have "cleaned b H L t" if "pending_dir t \<noteq> None" using t taken_tracked [of b H L t, OF _ that] by (simp add: cleaned_def)
    moreover have "cleaned b H L (pending_dir_update (map_option (fmdrop m)) u)" "cleaned b H L (pending_dir_update (\<lambda>_. None) u)"
      if "cleaned b H L u" for u m
      using that taken_pending [of b H L u] unfolding cleaned_def by simp_all
    ultimately show "wp (remove_dir L pending_dir pending_dir_update) (\<lambda>_ t. cleaned b H L t \<and> pending_dir t = None) (\<lambda>_. safe b H L) t"
      using t by (intro wp_remove_dir [where I = "cleaned b H L"]) (auto intro: cleaned_emit cleaned_safe)
  next
    fix y u assume u: "cleaned b H L u \<and> pending_dir u = None"
    then have "cleaned b H L (u\<lparr>trace := trace u @ [Log msg]\<rparr>)" by (simp add: cleaned_emit)
    with u show "wp (thenP (emit (Log msg)) (ret (Migrated n))) (\<lambda>r t. safe b H L t \<and> migration_result b H L r t) (\<lambda>_. safe b H L) u"
      by (simp add: wp_simps cleaned_safe) (simp add: cleaned_def)
  qed
qed

lemma wp_track_and_remove:
  assumes v: "drained b H L v"
    and ds: "listing_failed b L (trace v) \<or> (\<forall>(n, c) \<in> files (spendables_dir v). outs L c \<subseteq> set ds)"
  shows "wp (bindP (call (TrackOutputs ds None False (Some delay)) (track_ok L)) (\<lambda>ok.
          if \<not> ok then panic UnwrapErr
          else
            thenP (remove_dir L spendables_dir spendables_dir_update)
            (thenP (remove_dir L pending_dir pending_dir_update)
            (thenP (emit (Log msg)) (ret (Migrated n))))))
    (\<lambda>r t. safe b H L t \<and> migration_result b H L r t) (\<lambda>_. safe b H L) v"
proof -
  let ?t = "v\<lparr>trace := trace v @ [TrackOutputs ds None False (Some delay)]\<rparr>"
  have d: "drained b H L ?t" by (rule drained_emit [OF v]) auto
  have "listing_failed b L (trace ?t) \<or> spendables_tracked L ?t" if "track_ok L (trace v)"
    using tracked_snoc [OF that, of ds None False "Some delay"] ds
      listing_failed_mono [of b L "trace v" "[TrackOutputs ds None False (Some delay)]"]
    by (fastforce simp: spendables_tracked_def)
  with d have "taken b H L ?t" if "track_ok L (trace v)" using that by (simp add: taken_def)
  note remove = wp_remove_both [OF this]
  show ?thesis
    using d remove by (simp add: wp_bind wp_call drained_def wp_panic)
qed

text \<open>The file system and LDK as the migration needs them.\<close>

definition sweep_ok :: "'l sweep_lib_scheme \<Rightarrow> bool" where
  "sweep_ok L \<longleftrightarrow> listing L \<and> self_delimiting L \<and> (\<forall>bs. without_length L bs = bs)"

lemma wp_hand_over:
  assumes L: "listing L" and t: "drained b H L t"
  shows "wp (hand_over L) (\<lambda>r t. safe b H L t \<and> migration_result b H L r t) (\<lambda>_. safe b H L) t"
proof -
  have safe: "safe b H L u" if "later t u" for u using t that by (auto simp: drained_def intro: safe_later)
  let ?t = "t\<lparr>trace := trace t @ [Query]\<rparr>"
  have good: "\<forall>(n, c) \<in> files (spendables_dir ?t). good_file L c"
    using t by (auto simp: drained_def safe_def well_formed_def all_files_def)
  have tv: "later t v" if "later ?t v" for v by (rule later_trans [OF _ that]) auto
  have read: "wp (read_outputs L names) (\<lambda>r v. later u v \<and> (\<exists>ds. r = Some ds \<and> covers L u names ds)) (\<lambda>_. safe b H L) u"
    if "later ?t u" for names u
    by (rule wp_mono [OF wp_read_outputs [where s = u]]) (use good that later_dirs [OF that] in \<open>auto intro: safe tv later_trans\<close>)
  show ?thesis
    unfolding hand_over_def wp_bind [of "ask _"] wp_bind [of "gets _"] wp_bind [of "read_dir _ _ _"] wp_ask wp_gets
  proof (rule wp_read_dir [OF L, where b = b], goal_cases)
    case 1
    show ?case using t by (simp add: drained_def safe_def)
  next
    case (2 ns u)
    show ?case
    proof (rule wp_seq [OF read [OF 2(1)]])
      fix r v
      assume "later u v \<and> (\<exists>ds. r = Some ds \<and> covers L u (case ns of None \<Rightarrow> [] | Some names \<Rightarrow> names) ds)"
      then obtain ds where uv: "later u v" and r: "r = Some ds"
        and cov: "covers L u (case ns of None \<Rightarrow> [] | Some names \<Rightarrow> names) ds"
        by blast
      have v: "later ?t v" by (rule later_trans [OF 2(1) uv])
      have d: "drained b H L v" by (rule drained_emit [OF t tv [OF v]])
      have "listing_failed b L (trace v) \<or> (\<forall>(n, c) \<in> files (spendables_dir v). outs L c \<subseteq> set ds)"
      proof (cases "listing_failed b L (trace u)")
        case True
        then show ?thesis using uv listing_failed_mono [of b L "trace u"] by (auto simp: later_def)
      next
        case False
        then have "\<forall>(n, c) \<in> files (spendables_dir u). outs L c \<subseteq> set ds"
          using 2(2) later_dirs [OF 2(1)] by (intro covers_all [OF cov]) (auto split: option.splits)
        then show ?thesis using later_dirs [OF uv] by simp
      qed
      from wp_track_and_remove [OF d this] safe [OF tv [OF v]]
      show "wp (case r of None \<Rightarrow> ret StillReading
        | Some outputs \<Rightarrow>
            bindP (add_u32 (best_height L (trace t)) 2) (\<lambda>spend_delay.
            bindP (call (TrackOutputs outputs None False (Some spend_delay)) (track_ok L)) (\<lambda>ok.
            if \<not> ok then panic UnwrapErr
            else
              thenP (remove_dir L spendables_dir spendables_dir_update)
              (thenP (remove_dir L pending_dir pending_dir_update)
              (thenP (emit (Log (''Successfully migrated '' @ show_u64 (of_nat (length outputs))
                @ '' deprecated spendable outputs'')))
              (ret (Migrated (length outputs))))))))
        (\<lambda>r t. safe b H L t \<and> migration_result b H L r t) (\<lambda>_. safe b H L) v"
        unfolding r by (simp add: wp_bind [of "add_u32 _ _"] wp_add_u32)
    qed
  qed
qed

lemma wp_migrate:
  assumes L: "sweep_ok L" "fresh_key L s" and safe: "safe b H L s"
  shows "wp (migrate_deprecated_spendable_outputs L) (\<lambda>r t. safe b H L t \<and> migration_result b H L r t) (\<lambda>_. safe b H L) s"
proof -
  have L': "listing L" "self_delimiting L" "\<And>bs. without_length L bs = bs" using L(1) by (simp_all add: sweep_ok_def)
  have emit: "safe b H L (s\<lparr>trace := trace s @ as\<rparr>)" for as using safe by auto
  have fresh: "fresh_key L (s\<lparr>trace := trace s @ as\<rparr>)" for as using L(2) by (simp add: fresh_key_def)
  have "wp (thenP (drain_pending L) (hand_over L)) (\<lambda>r t. safe b H L t \<and> migration_result b H L r t) (\<lambda>_. safe b H L)
      (s\<lparr>trace := trace s @ as\<rparr>)" for as
    by (rule wp_seq_then [OF wp_drain_pending [OF L' fresh emit]]) (rule wp_hand_over [OF L'(1)])
  then show ?thesis
    using emit by (simp add: migrate_deprecated_spendable_outputs_def wp_simps)
qed

section \<open>Interrupted runs\<close>

text \<open>The process starts the migration, which may end it at any operation; what is on the disk stays.\<close>

definition migration_run :: "'l sweep_lib_scheme \<Rightarrow> 'b sweep_state_scheme \<Rightarrow> 'b sweep_state_scheme \<Rightarrow> bool" where
  "migration_run L s t \<longleftrightarrow> fresh_key L s \<and> t = snd (migrate_deprecated_spendable_outputs L s)"

lemma wp_snd: "wp m (\<lambda>_. I) (\<lambda>_. I) s \<Longrightarrow> I (snd (m s))"
  by (simp add: wp_def split: prod.splits outcome.splits)

interpretation runs: invariant_system "\<lambda>s :: 'b sweep_state_scheme. sweep_ok L \<and> safe b H L s" "migration_run L" "\<lambda>s. sweep_ok L \<and> safe b H L s"
  for b :: nat and H :: "bytes set" and L :: "'l sweep_lib_scheme"
proof unfold_locales
  fix s t :: "'b sweep_state_scheme"
  assume s: "sweep_ok L \<and> safe b H L s" and t: "migration_run L s t"
  have "wp (migrate_deprecated_spendable_outputs L) (\<lambda>_. safe b H L) (\<lambda>_. safe b H L) s"
    by (rule wp_mono [OF wp_migrate]) (use s t in \<open>auto simp: migration_run_def\<close>)
  with s t show "sweep_ok L \<and> safe b H L t" by (auto simp: migration_run_def dest: wp_snd)
qed

text \<open>
  C12: No output is lost, unless the code takes a directory that it could not list for one that does not
  exist. From directories whose files are sequences of descriptors, after any number of runs of the
  migration, each of which may have been cut short at any operation on files, every output that was in a
  file is in one of a directory of the migration, or the sweeper has accepted it; the only exception is a
  history in which, since then, \<open>read_dir\<close> failed on a directory that exists, and the migration went on.
\<close>

theorem no_output_lost:
  assumes "sweep_ok L" and "well_formed L s" and "(migration_run L)\<^sup>*\<^sup>* s t"
  shows "held L s \<subseteq> held L t \<union> tracked L (trace t) \<or> listing_failed (length (trace s)) L (trace t)"
proof -
  have "sweep_ok L \<and> safe (length (trace s)) (held L s) L s" using assms(1,2) by (simp add: safe_def)
  from runs.inv_steps [OF assms(3) this] show ?thesis by (auto simp: safe_def)
qed

text \<open>
  C13: A migration that returns has done its work: either there was no directory, or both directories are
  gone and the sweeper has accepted every output that was in a file, unless in this run \<open>read_dir\<close>
  failed on a directory that exists, which the code takes for an empty one. Its loops end.
\<close>

theorem migration_complete:
  assumes "sweep_ok L" and "well_formed L s" and "fresh_key L s"
    and "migrate_deprecated_spendable_outputs L s = (Val r, t)"
  shows "migration_result (length (trace s)) (held L s) L r t"
proof -
  have "safe (length (trace s)) (held L s) L s" using assms(2) by (simp add: safe_def)
  from wp_migrate [OF assms(1,3) this] assms(4) show ?thesis by (simp add: wp_def)
qed

section \<open>How the migration goes wrong\<close>

lemma read_dir_None [simp]: "read_dir L what None = ret None"
  by (simp add: read_dir_def)

lemma wp_remove_dir_None: "d s = None \<Longrightarrow> wp (remove_dir L d f) Q E s = E UnwrapErr s"
  by (simp add: remove_dir_def wp_simps)

lemma wp_move_others:
  "\<forall>n \<in> set names. length n \<noteq> 64 \<Longrightarrow> later s t \<Longrightarrow>
   wp (forP names (move_pending L)) (\<lambda>_. later s) (\<lambda>_. later s) t"
  by (rule wp_forP) (auto simp: move_pending_def wp_simps id_def)

lemma store_nothing: "processing_dir s = None \<Longrightarrow> wp (store_processing L) Q E s = Q () s"
  by (simp add: store_processing_def wp_simps)

text \<open>
  Once the pending directory holds nothing to migrate and \<open>spendable_outputs\<close> does not exist, as
  after a run that ended between the last two removals, or where an older version never had an
  output, the migration panics, whatever the libraries answer: it removes a directory that
  does not exist and unwraps the error, at this start and, as nothing on the disk changes, at the next.
\<close>

lemma migration_never_completes:
  assumes "pending_dir s \<noteq> None" and "pending_files s = {}" and "processing_dir s = None" and "spendables_dir s = None"
    and "\<And>h d. set (dir_names L h d) \<subseteq> fset (fmdom d)"
  shows "\<exists>p t. migrate_deprecated_spendable_outputs L s = (Panic p, t)
    \<and> pending_dir t = pending_dir s \<and> processing_dir t = None \<and> spendables_dir t = None"
proof -
  obtain dir where dir: "pending_dir s = Some dir" using assms(1) by blast
  have "length n \<noteq> 64" if "n \<in> set (dir_names L h dir)" for n h
  proof
    assume "length n = 64"
    moreover have "n \<in> fst ` files (Some dir)" using that assms(5) unfolding files_names by blast
    ultimately show False using assms(2) dir by (auto simp: pending_files_def)
  qed
  then have move: "wp (forP (dir_names L h dir) (move_pending L)) (\<lambda>_. later s) (\<lambda>_. later s) t" if "later s t" for h t
    using that by (intro wp_move_others) blast+
  let ?s = "s\<lparr>trace := trace s @ [Log ''Beginning migration of deprecated spendable outputs'']\<rparr>"
  have early: "later s (s\<lparr>trace := trace s @ as\<rparr>)" for as by auto
  have drain: "wp (drain_pending L) (\<lambda>_. later s) (\<lambda>_. later s) ?s"
    unfolding drain_pending_def
    by (auto simp: dir wp_simps read_dir_def early store_nothing later_dirs assms(3) intro!: wp_mono [OF move])
  have hand: "wp (hand_over L) (\<lambda>_ _. False) (\<lambda>_. later s) t" if "later s t" for t
    using later_dirs [OF that] later_emit [OF that] assms(4)
    by (simp add: hand_over_def wp_simps wp_remove_dir_None)
  have "wp (migrate_deprecated_spendable_outputs L) (\<lambda>_ _. False) (\<lambda>_. later s) s"
    unfolding migrate_deprecated_spendable_outputs_def
    using wp_seq_then [OF drain hand] by (simp add: wp_emit wp_bind wp_then dir wp_gets)
  then show ?thesis
    using assms(3,4) by (auto simp: wp_def dest: later_dirs split: prod.splits outcome.splits)
qed

definition nothing_tracked :: "'b sweep_state_scheme \<Rightarrow> 'b sweep_state_scheme \<Rightarrow> bool" where
  "nothing_tracked s t \<longleftrightarrow> (\<exists>as. trace t = trace s @ as \<and> (\<forall>ds i b d. TrackOutputs ds i b d \<in> set as \<longrightarrow> ds = []))"

lemma nothing_tracked_emit:
  assumes "nothing_tracked s t" and "\<forall>a \<in> set bs. \<forall>ds i b d. a = TrackOutputs ds i b d \<longrightarrow> ds = []"
  shows "nothing_tracked s (t\<lparr>trace := trace t @ bs\<rparr>)"
proof -
  obtain as where "trace t = trace s @ as" "\<forall>ds i b d. TrackOutputs ds i b d \<in> set as \<longrightarrow> ds = []"
    using assms(1) by (auto simp: nothing_tracked_def)
  then have "trace (t\<lparr>trace := trace t @ bs\<rparr>) = trace s @ as @ bs"
    "\<forall>ds i b d. TrackOutputs ds i b d \<in> set (as @ bs) \<longrightarrow> ds = []"
    using assms(2) unfolding set_append by (simp, blast)
  then show ?thesis unfolding nothing_tracked_def by blast
qed

lemma nothing_tracked_dirs [simp]:
  "nothing_tracked s (spendables_dir_update f t) = nothing_tracked s t"
  "nothing_tracked s (pending_dir_update f t) = nothing_tracked s t"
  by (simp_all add: nothing_tracked_def)

text \<open>
  An error of \<open>read_dir\<close> is taken for a directory that does not exist. Where the directories cannot be
  read for a moment but can be removed, the migration hands the sweeper nothing, deletes the
  files and reports success.
\<close>

lemma unreadable_outputs_deleted:
  assumes "\<And>h. \<not> dir_readable L h" and "\<And>h. file_op_ok L h" and "\<And>h. track_ok L h"
    and "\<And>h. unat (best_height L h) + 2 < 2 ^ 32" and "pending_dir s \<noteq> None" and "spendables_dir s \<noteq> None"
  shows "\<exists>t as. migrate_deprecated_spendable_outputs L s = (Val (Migrated 0), t)
    \<and> trace t = trace s @ as \<and> (\<forall>ds i b d. TrackOutputs ds i b d \<in> set as \<longrightarrow> ds = [])
    \<and> pending_dir t = None \<and> spendables_dir t = None"
proof -
  obtain p sp where d: "pending_dir s = Some p" "spendables_dir s = Some sp" using assms(5,6) by blast
  let ?I = "nothing_tracked s"
  note emit = nothing_tracked_emit [of s _ "[a]" for a, simplified]
  have start: "?I (s\<lparr>trace := trace s @ bs\<rparr>)" if "\<forall>a \<in> set bs. \<forall>ds i b d. a = TrackOutputs ds i b d \<longrightarrow> ds = []" for bs
    using that by (auto simp: nothing_tracked_def)
  have both: "wp (thenP (remove_dir L spendables_dir spendables_dir_update) (thenP (remove_dir L pending_dir pending_dir_update)
      (thenP (emit (Log msg)) (ret (Migrated 0)))))
      (\<lambda>r t. r = Migrated 0 \<and> ?I t \<and> pending_dir t = None \<and> spendables_dir t = None) (\<lambda>_ _. False) t"
    if "?I t" "pending_dir t \<noteq> None" "spendables_dir t \<noteq> None" for t :: "'b sweep_state_scheme" and msg
  proof (rule wp_seq_then [where Q' = "\<lambda>_ t. ?I t \<and> pending_dir t \<noteq> None \<and> spendables_dir t = None"])
    show "wp (remove_dir L spendables_dir spendables_dir_update)
        (\<lambda>_ t. ?I t \<and> pending_dir t \<noteq> None \<and> spendables_dir t = None) (\<lambda>_ _. False) t"
      by (rule wp_remove_dir [where I = "\<lambda>t. ?I t \<and> pending_dir t \<noteq> None"]) (use that assms(2) emit in auto)
  next
    fix x u assume u: "?I u \<and> pending_dir u \<noteq> None \<and> spendables_dir u = None"
    have "wp (remove_dir L pending_dir pending_dir_update)
        (\<lambda>_ t. ?I t \<and> pending_dir t = None \<and> spendables_dir t = None) (\<lambda>_ _. False) u"
      by (rule wp_remove_dir [where I = "\<lambda>t. ?I t \<and> spendables_dir t = None"]) (use u assms(2) emit in auto)
    then show "wp (thenP (remove_dir L pending_dir pending_dir_update) (thenP (emit (Log msg)) (ret (Migrated 0))))
        (\<lambda>r t. r = Migrated 0 \<and> ?I t \<and> pending_dir t = None \<and> spendables_dir t = None) (\<lambda>_ _. False) u"
      by (rule wp_seq_then) (use emit in \<open>simp add: wp_emit wp_then wp_ret\<close>)
  qed
  have "wp (migrate_deprecated_spendable_outputs L) (\<lambda>r t. r = Migrated 0 \<and> ?I t \<and> pending_dir t = None \<and> spendables_dir t = None)
    (\<lambda>_ _. False) s"
    unfolding migrate_deprecated_spendable_outputs_def drain_pending_def hand_over_def
    using assms(1-4) by (auto simp: d wp_emit wp_bind wp_gets wp_ask wp_call wp_ret wp_add_u32 read_dir_def store_nothing
      wp_then [of "emit _"] wp_then [of "bindP _ _"] intro!: both start)
  then show ?thesis by (auto simp: wp_def nothing_tracked_def split: prod.splits outcome.splits)
qed

section \<open>A small instance\<close>

text \<open>Descriptors of one byte; the names of a directory in order.\<close>

definition sample_sweep_lib :: "sweep_lib" where
  "sample_sweep_lib = \<lparr>dir_names = (\<lambda>h d. sorted_list_of_fset (fmdom d)), dir_readable = (\<lambda>h. True),
     file_op_ok = (\<lambda>h. True), secure_random = (\<lambda>h. [0xAB]), without_length = (\<lambda>bs. bs),
     read_descriptor = (\<lambda>bs. case bs of [] \<Rightarrow> None | b # bs \<Rightarrow> Some ([b], bs)),
     best_height = (\<lambda>h. 100), track_ok = (\<lambda>h. True)\<rparr>"

definition sample_name :: string where
  "sample_name = replicate 64 (CHR ''a'')"

definition sample_dirs :: sweep_state where
  "sample_dirs = \<lparr>trace = [], pending_dir = Some (fmupd sample_name [7, 8] fmempty), processing_dir = None,
     spendables_dir = None\<rparr>"

lemma sample_sweep_ok: "sweep_ok sample_sweep_lib"
  by (auto simp: sweep_ok_def listing_def self_delimiting_def sample_sweep_lib_def split: list.splits)

lemma sample_lists: "\<not> listing_failed b sample_sweep_lib h"
  by (simp add: listing_failed_def sample_sweep_lib_def)

lemma sample_files: "pending_files sample_dirs = {(sample_name, [7, 8])}" "files (processing_dir sample_dirs) = {}"
  "files (spendables_dir sample_dirs) = {}"
  by (auto simp: pending_files_def files_def or_empty_def sample_dirs_def sample_name_def split: if_splits)

lemma sample_outs: "decode (Suc (Suc 0)) sample_sweep_lib [7, 8] = Some [[7], [8]]"
  by (simp add: sample_sweep_lib_def)

lemma sample_dirs_well_formed: "well_formed sample_sweep_lib sample_dirs"
  by (simp add: well_formed_def all_files_def sample_files good_file_def sample_outs del: decode.simps)

lemma sample_held: "held sample_sweep_lib sample_dirs = {[7], [8]}"
  by (simp add: held_parts sample_files outs_def sample_outs del: decode.simps)

lemma sample_fresh: "fresh_key L sample_dirs"
  by (simp add: fresh_key_def sample_files)

lemma sample_sweep_fields:
  "dir_names sample_sweep_lib h d = sorted_list_of_fset (fmdom d)" "dir_readable sample_sweep_lib h"
  "file_op_ok sample_sweep_lib h" "secure_random sample_sweep_lib h = [0xAB]" "without_length sample_sweep_lib bs = bs"
  "read_descriptor sample_sweep_lib (b # bs) = Some ([b], bs)" "best_height sample_sweep_lib h = 100" "track_ok sample_sweep_lib h"
  by (simp_all add: sample_sweep_lib_def)

lemma sorted_none: "sorted_list_of_fset {||} = []" "fmdrop k (fmupd k v fmempty) = fmempty"
  by (simp_all add: sorted_list_of_fset.rep_eq fmap_ext)

lemma sorted_single: "sorted_list_of_fset {|x|} = [x]"
  by (simp add: sorted_list_of_fset.rep_eq)

lemma sample_migrates:
  "\<exists>t. migrate_deprecated_spendable_outputs sample_sweep_lib sample_dirs = (Val (Migrated 2), t)"
proof -
  have "wp (migrate_deprecated_spendable_outputs sample_sweep_lib) (\<lambda>r t. r = Migrated 2) (\<lambda>_ _. False) sample_dirs"
    by (simp add: migrate_deprecated_spendable_outputs_def drain_pending_def hand_over_def store_processing_def remove_dir_def
      read_dir_def move_pending_def read_file_in_def wp_simps sample_dirs_def sample_name_def sample_sweep_fields or_empty_def sorted_single sorted_none Let_def)
  then show ?thesis by (auto simp: wp_def split: prod.splits outcome.splits)
qed

theorem no_output_lost_witness:
  "held sample_sweep_lib sample_dirs = {[7], [8]} \<and>
   {[7], [8]} \<subseteq> held sample_sweep_lib (snd (migrate_deprecated_spendable_outputs sample_sweep_lib sample_dirs))
     \<union> tracked sample_sweep_lib (trace (snd (migrate_deprecated_spendable_outputs sample_sweep_lib sample_dirs)))"
proof -
  have "migration_run sample_sweep_lib sample_dirs (snd (migrate_deprecated_spendable_outputs sample_sweep_lib sample_dirs))"
    by (simp add: migration_run_def sample_fresh)
  from no_output_lost [OF sample_sweep_ok sample_dirs_well_formed r_into_rtranclp, OF this]
  show ?thesis by (simp add: sample_held sample_lists)
qed

theorem migration_complete_witness:
  "\<exists>t. migrate_deprecated_spendable_outputs sample_sweep_lib sample_dirs = (Val (Migrated 2), t)
     \<and> {[7], [8]} \<subseteq> tracked sample_sweep_lib (trace t)"
proof -
  obtain t where t: "migrate_deprecated_spendable_outputs sample_sweep_lib sample_dirs = (Val (Migrated 2), t)"
    using sample_migrates by blast
  from migration_complete [OF sample_sweep_ok sample_dirs_well_formed sample_fresh t] t
  show ?thesis by (simp add: sample_held sample_lists)
qed

end
