(* ===== verification/Disk.thy ===== *)
theory Disk
  imports Ldk_Types "HOL-Library.Sublist"
begin

text \<open>
  \<open>src/disk.rs\<close>: the logger that appends lines to a file, and the readers of the network graph and the
  scorer. The other theories record a message as the action \<open>Log\<close>; here is what becomes of it. The
  readers of the payments are in \<open>Payments\<close>.
\<close>

section \<open>The logger\<close>

datatype level = Gossip | Trace | Debug | Info | Warn | Error

record log_record =
  level :: level
  log_args :: string
  module_path :: string
  log_line_number :: u32

text \<open>The content of \<open>logs.txt\<close>, \<open>None\<close> if it does not exist.\<close>

record log_world = world +
  log_file :: "string option"

text \<open>
  \<open>now_str\<close> is the formatted time, \<open>level_str\<close> the name of a level; \<open>write_part\<close> says how much of the line
  was written when the write failed, \<open>None\<close> if it did not.
\<close>

record log_lib =
  create_dir_ok :: "hist \<Rightarrow> bool"
  now_str :: "hist \<Rightarrow> string"
  level_str :: "level \<Rightarrow> string"
  open_ok :: "hist \<Rightarrow> bool"
  write_part :: "hist \<Rightarrow> string \<Rightarrow> nat option"

text \<open>\<open>FilesystemLogger::new\<close>: the result is the directory of the logs.\<close>

definition filesystem_logger_new :: "'l log_lib_scheme \<Rightarrow> string \<Rightarrow> ('b world_scheme, string) prog" where
  "filesystem_logger_new L data_dir =
    (let logs_path = data_dir @ ''/logs'' in
     bindP (ask (create_dir_ok L)) (\<lambda>ok. if ok then ret logs_path else panic UnwrapErr))"

text \<open>The format \<open>{:<5}\<close>.\<close>

definition pad_left_aligned :: "nat \<Rightarrow> string \<Rightarrow> string" where
  "pad_left_aligned n s = s @ replicate (n - length s) (CHR '' '')"

definition log_entry :: "'l log_lib_scheme \<Rightarrow> string \<Rightarrow> log_record \<Rightarrow> string" where
  "log_entry L now r =
    now @ '' '' @ pad_left_aligned 5 (level_str L (level r)) @ '' ['' @ module_path r @ '':''
      @ show_u64 (ucast (log_line_number r)) @ ''] '' @ log_args r @ nl"

definition append_log :: "string \<Rightarrow> ('b log_world_scheme, unit) prog" where
  "append_log t = modify (\<lambda>s. s\<lparr>log_file := Some ((case log_file s of Some c \<Rightarrow> c | None \<Rightarrow> []) @ t)\<rparr>)"

definition log_message :: "'l log_lib_scheme \<Rightarrow> log_record \<Rightarrow> ('b log_world_scheme, unit) prog" where
  "log_message L r =
    (if level r = Gossip then ret ()
     else
       bindP (ask (now_str L)) (\<lambda>now.
       let log = log_entry L now r in
       bindP (ask (open_ok L)) (\<lambda>opened.
         if \<not> opened then panic UnwrapErr
         else
           thenP (append_log [])
           (bindP (ask (\<lambda>h. write_part L h log)) (\<lambda>written.
              case written of
                None \<Rightarrow> append_log log
              | Some k \<Rightarrow> thenP (append_log (take k log)) (panic UnwrapErr))))))"

section \<open>The network graph and the scorer\<close>

text \<open>
  A file that cannot be opened or does not decode gives a new object. \<open>file\<close> is what was read,
  \<open>read\<close> LDK's decoder and \<open>new\<close> its constructor.
\<close>

definition read_network :: "bytes option \<Rightarrow> (bytes \<Rightarrow> 'g option) \<Rightarrow> (network \<Rightarrow> 'g) \<Rightarrow> network \<Rightarrow> 'g" where
  "read_network file read new network =
    (case file of
       Some b \<Rightarrow> (case read b of Some graph \<Rightarrow> graph | None \<Rightarrow> new network)
     | None \<Rightarrow> new network)"

definition read_scorer ::
  "bytes option \<Rightarrow> ('p \<Rightarrow> 'g \<Rightarrow> bytes \<Rightarrow> 's option) \<Rightarrow> ('p \<Rightarrow> 'g \<Rightarrow> 's) \<Rightarrow> 'p \<Rightarrow> 'g \<Rightarrow> 's" where
  "read_scorer file read new params graph =
    (case file of
       Some b \<Rightarrow> (case read params graph b of Some scorer \<Rightarrow> scorer | None \<Rightarrow> new params graph)
     | None \<Rightarrow> new params graph)"

section \<open>The log is only appended to\<close>

definition log_content :: "'b log_world_scheme \<Rightarrow> string" where
  "log_content s = (case log_file s of Some c \<Rightarrow> c | None \<Rightarrow> [])"

lemma log_content_trace [simp]: "log_content (s\<lparr>trace := h\<rparr>) = log_content s"
  by (simp add: log_content_def)

lemma wp_append_log [wp_simps]:
  "wp (append_log t) Q E s = Q () (s\<lparr>log_file := Some (log_content s @ t)\<rparr>)"
  by (simp add: append_log_def wp_modify log_content_def)

text \<open>Whatever happens to a write, what was in the log stays in front.\<close>

lemma keeps_log_prefix: "keeps (\<lambda>s. prefix c (log_content s)) (\<lambda>s. prefix c (log_content s)) (log_message L r)"
  by (auto simp: keeps_def log_message_def wp_simps Let_def log_content_def prefix_def split: option.splits)

text \<open>The lines of a sequence of records that are logged from the history \<open>h\<close>.\<close>

fun log_lines :: "'l log_lib_scheme \<Rightarrow> hist \<Rightarrow> log_record list \<Rightarrow> string" where
  "log_lines L h [] = []"
| "log_lines L h (r # rs) =
    (if level r = Gossip then log_lines L h rs
     else log_entry L (now_str L h) r @ log_lines L (h @ [Query, Query, Query]) rs)"

text \<open>Without errors the file has one line for each record, except those about gossip, in their order.\<close>

lemma log_sequence:
  assumes "\<And>h. open_ok L h" and "\<And>h t. write_part L h t = None"
  shows "wp (forP rs (log_message L)) (\<lambda>_ t. log_content t = log_content s @ log_lines L (trace s) rs) (\<lambda>_ _. False) s"
proof (induction rs arbitrary: s)
  case (Cons r rs)
  let ?s = "s\<lparr>trace := trace s @ [Query, Query, Query], log_file := Some (log_content s @ log_entry L (now_str L (trace s)) r)\<rparr>"
  have *: "wp (log_message L r) Q E s \<longleftrightarrow> (if level r = Gossip then Q () s else Q () ?s)" for Q E
    by (simp add: log_message_def wp_simps assms Let_def log_content_def)
  show ?case
    using Cons.IH [of s] Cons.IH [of ?s] by (simp add: wp_then *) (simp add: log_content_def)
qed (simp add: wp_ret)

end
