(* ===== verification/Spec2Isabelle.thy ===== *)
theory Spec2Isabelle
  imports Concurrent_Node Args_Tests Cli_Properties Sweep_Properties Disk
begin

text \<open>
  A model of ldk-sample, a Lightning node built on the LDK libraries, and what has been proved of it.

  \<^bold>\<open>The program.\<close> One process: it reads its arguments, connects to a bitcoind over RPC, reads its keys,
  channels and payments from a data directory, and then runs tasks side by side: a command line, the
  background processor of LDK that hands events to a handler, a refresh of fee estimates, a poll for
  blocks, a listener, a reconnecting task and an announcing task. The tasks share two maps of payments,
  a table of fees and a key-value store.

  \<^bold>\<open>What models what.\<close>
  \<^item> \<open>Prelude\<close>, \<open>Rust_Std\<close>, \<open>Rust_Num\<close>, \<open>Float64\<close>: fact collections and the parts of Rust's standard
    library the source uses: splitting and trimming of strings, parsing and printing of integers at
    their width, IEEE double arithmetic with its rounding.
  \<^item> \<open>Prog\<close>: a function with effects is a function from the state to a value or a panic and the state
    after it; \<open>wp\<close> and \<open>keeps\<close> are its weakest precondition and its invariants, \<open>invariant_system\<close> the
    interface for reachable states.
  \<^item> \<open>Ldk_Types\<close>: the values exchanged with LDK and the trace. Every call of a library is recorded in the
    trace and answered by a parameter that may depend on the whole trace, so that nothing is assumed
    about how a library behaves between two calls.
  \<^item> \<open>Hex_Utils\<close> (\<open>src/hex_utils.rs\<close>), \<open>Convert\<close> (\<open>src/convert.rs\<close>), \<open>Bitcoind_Client\<close>
    (\<open>src/bitcoind_client.rs\<close>), \<open>Args\<close> (\<open>src/args.rs\<close>), and \<open>Args_Tests\<close>, the unit tests of that file as
    programs over the model.
  \<^item> \<open>Payments\<close>: the payment records of \<open>src/main.rs\<close>, their files, and the readers of \<open>src/disk.rs\<close>.
  \<^item> \<open>Cli_Pay\<close> and \<open>Cli\<close> (\<open>src/cli.rs\<close>): the payment commands, the other commands, and the loop that
    reads them.
  \<^item> \<open>Events\<close>: \<open>handle_ldk_events\<close> of \<open>src/main.rs\<close>. \<open>Startup\<close>: the parts of \<open>start_ldk\<close>, and one turn of
    each task it spawns. \<open>Node\<close>: \<open>main\<close> and \<open>start_ldk\<close> itself: building the node, a schedule of activities
    of the tasks, shutting down.
  \<^item> \<open>Sweep\<close> (\<open>src/sweep.rs\<close>): the task that moves spendable outputs from files to the sweeper, over the
    three directories it works on. \<open>start_ldk\<close> spawns it; it shares no state with the other tasks, so it is
    modelled on a state of its own. Each operation on a file or directory is a step that may fail, down to
    taking the next entry of a listing and removing one file of a directory; writing a file of the store
    is one step, since the store renames a temporary file.
  \<^item> \<open>Disk\<close> (\<open>src/disk.rs\<close>): the logger, and the readers of the network graph and the scorer. What the
    other theories record as the action \<open>Log\<close> is a call of this logger. The two readers are modelled here and
    not composed into \<open>restore_node\<close> of \<open>Node\<close>: they cannot fail, and what they return goes only to
    objects of LDK, of which the model has no state.
  \<^item> \<open>Race\<close>: the steps in which the payment of an offer (\<open>src/cli.rs\<close>) records its entry, which other tasks
    can interrupt because it gives up the lock between them. \<open>Interleaving\<close>: the four ways to pay as jobs
    (\<open>run_job\<close>), which the commands are proved to run, and the system \<open>pay_step\<close> in which the steps of a job
    alternate with events and with the making of invoices in every way. \<open>Concurrent_Node\<close>: that system
    together with the refresh of the fee estimates, which is split into its single stores.

  \<^bold>\<open>State.\<close> The records extend one another: \<open>world\<close> (the trace), \<open>client_state\<close> (the fee table behind
  its atomics), \<open>node\<close> (the two payment maps behind their mutexes, and the store), \<open>cli_node\<close> (what is
  left of standard input), \<open>running\<close> (the stop flag). An operation is stated on the smallest of them.

  \<^bold>\<open>What the lemmas show.\<close>
  \<^item> \<open>Frame\<close> has the interfaces \<open>base_frame\<close>, \<open>command_frame\<close>, \<open>frame\<close> and \<open>full_frame\<close>: what a predicate
    needs so that commands, events and the start of the node keep it; their lemmas are proved once and
    used for the fees, the input, the order of payments and the ledger.
  \<^item> \<open>Node_Properties\<close> lifts them to the transition system \<open>node_step\<close> (\<open>node_invariant\<close>), and
    \<open>System_Properties\<close> states what holds of every schedule of whole commands, events and ticks: payments
    are recorded before they are made, and the statuses of payments follow an abstract ledger.
  \<^item> \<open>Startup_Properties\<close>: what a start keeps and changes of the stored state, and what a stop writes.
  \<^item> \<open>Sweep_Properties\<close>: the migration loses no output when it is cut short at any operation on files, unless
    a directory that exists could not be listed, which the code takes for a missing one; then it does.
  \<^item> \<open>Race\<close>: the entry is stored before the payment is made in every interleaving, and the interleaving
    that loses a success the event handler has stored.
  \<^item> \<open>Interleaving_Properties\<close>: every schedule of the node is a run of \<open>pay_step\<close>, and every run of it implements
    a machine with one copy of the payments in memory and one on disk. From that: a restart at any moment
    finds every payment LDK was asked for, both copies agree while the lock is used, a payment recorded as
    succeeded has its preimage in both, and a payment command can always finish.
  \<^item> \<open>Concurrent_Node\<close>: at every moment of the interleavings without the race, also in the middle of a
    refresh, every fee target has an estimate that is high enough, and the stored payments are those in
    memory less at most the one being recorded without the lock.
  \<^item> \<open>Payment_Properties\<close>, \<open>Event_Properties\<close>, \<open>Cli_Properties\<close>, \<open>Client_Properties\<close>, \<open>Args_Properties\<close>,
    \<open>Args_Tests\<close>: the outcome of the operations on every branch, the requests they make, the errors they end in.

  \<^bold>\<open>Fuel.\<close> The command loop takes fuel; \<open>cli_session_ends\<close> shows that one unit more than there are lines
  of input is enough. The handshake loop of \<open>do_connect_peer\<close> may wait for ever; its fuel \<open>connect_fuel\<close>
  is a parameter, running out of it is the result of a loop still waiting, and \<open>connect_loop_ends\<close> shows
  how much is enough. The loop over the descriptors of a file takes the length of the file, and
  \<open>migration_complete\<close> shows that it ends within it. The loops of the other tasks are one turn each, repeated by the schedule.

  \<^bold>\<open>Assumptions.\<close> Standard output can be written and locks are not poisoned (a panic ends the process,
  which is built with panic = abort). Arithmetic overflow panics. One command, event, refresh or tick is
  the unit of the schedules of \<open>Node\<close>, which is coarser than the code. In \<open>Race\<close>, \<open>Interleaving\<close> and
  \<open>Concurrent_Node\<close> the unit is what happens under one lock:
  every operation but the recording of an offer or a name changes, encodes and hands over the map
  under one lock, and the store keeps the order in which writes are called. The encoding of a payment map reads back (\<open>codec_ok\<close>), iteration over a hash
  map visits each entry once (\<open>iter_ok\<close>); where a theorem needs a write to succeed it says so.

  \<^bold>\<open>Not modelled.\<close> What the constructors of LDK's objects (keys manager, routers, channel manager, peer
  manager) do with the parts they are given, and the aliases of their types; the TLV encoding of the
  payment records, which macros of the \<open>lightning\<close> crate generate.
\<close>

end
